(* ===== verification/Prelude.thy ===== *)
theory Prelude
  imports Main "HOL-Library.Multiset" "HOL-Library.Code_Target_Numeral"
begin

text \<open>
  Shared vocabulary of the development: the JavaScript built-ins the extension calls
  (\<open>Array.prototype.findIndex\<close>, \<open>Array.prototype.splice\<close>, \<open>String.prototype.trim\<close>,
  \<open>String.prototype.toLowerCase\<close>, \<open>Number.prototype.toString\<close>), written from the
  ECMAScript definitions because their code is not part of the repository, and the
  list lemmas the component theories share.  JavaScript strings are modelled as Isabelle
  strings (lists of 8-bit characters), i.e. the Latin-1 range of UTF-16 code units.
\<close>

named_theorems js_array "characteristic equations of the JavaScript array built-ins"

type_synonym ident = string

text \<open>
  The exceptions the code can raise: \<open>TypeError\<close> (a property read on \<open>undefined\<close> or
  \<open>null\<close>) and \<open>ReferenceError\<close> (a read of a global that was never declared or assigned).
\<close>

datatype js_error = TypeError | ReferenceError

subsection \<open>Array.prototype.findIndex\<close>

text \<open>\<open>find_idx\<close> is the search itself; \<open>findIndex\<close> returns JavaScript's sentinel \<open>-1\<close>.\<close>

fun find_idx :: "('a \<Rightarrow> bool) \<Rightarrow> 'a list \<Rightarrow> nat option" where
  "find_idx p [] = None"
| "find_idx p (x # xs) = (if p x then Some 0 else map_option Suc (find_idx p xs))"

definition findIndex :: "('a \<Rightarrow> bool) \<Rightarrow> 'a list \<Rightarrow> int" where
  "findIndex p xs = (case find_idx p xs of None \<Rightarrow> -1 | Some i \<Rightarrow> int i)"

subsection \<open>Array.prototype.splice\<close>

text \<open>
  \<open>xs.splice(start, deleteCount, ...items)\<close>: a negative start counts from the end and
  is clamped at 0, a start beyond the end is clamped to the length, and at most the
  elements up to the end are deleted.  The result pairs the removed elements (the value
  the call returns) with the array as the call leaves it.
\<close>

definition rel_start :: "int \<Rightarrow> nat \<Rightarrow> nat" where
  "rel_start s len = (if s < 0 then nat (max (int len + s) 0) else min (nat s) len)"

definition splice :: "int \<Rightarrow> nat \<Rightarrow> 'a list \<Rightarrow> 'a list \<Rightarrow> 'a list \<times> 'a list" where
  "splice start dc items xs =
     (let s = rel_start start (length xs)
      in (take dc (drop s xs), take s xs @ items @ drop (s + dc) xs))"

subsection \<open>Strings\<close>

text \<open>
  ECMAScript white space and line terminators restricted to 8-bit code units: tab, line
  feed, vertical tab, form feed, carriage return, space and no-break space (U+00A0).
\<close>

definition js_space :: "char \<Rightarrow> bool" where
  "js_space c \<longleftrightarrow> of_char c \<in> ({9, 10, 11, 12, 13, 32, 160} :: nat set)"

definition trim :: "string \<Rightarrow> string" where
  "trim s = rev (dropWhile js_space (rev (dropWhile js_space s)))"

text \<open>
  \<open>toLowerCase\<close> on 8-bit code units: A-Z and the Latin-1 capitals U+00C0..U+00DE
  (except the multiplication sign U+00D7) move down by 32.
\<close>

definition lower_char :: "char \<Rightarrow> char" where
  "lower_char c =
     (let n = of_char c :: nat
      in if (65 \<le> n \<and> n \<le> 90) \<or> (192 \<le> n \<and> n \<le> 222 \<and> n \<noteq> 215) then char_of (n + 32) else c)"

definition toLowerCase :: "string \<Rightarrow> string" where
  "toLowerCase s = map lower_char s"

text \<open>Decimal rendering of a non-negative integer, as \<open>String(n)\<close> prints \<open>Date.now()\<close>.\<close>

fun digit_char :: "nat \<Rightarrow> char" where
  "digit_char d = char_of (48 + d)"

fun num_str :: "nat \<Rightarrow> string" where
  "num_str n = (if n < 10 then [digit_char n] else num_str (n div 10) @ [digit_char (n mod 10)])"

declare num_str.simps [simp del]

subsection \<open>Lemmas on the search\<close>

lemma find_idx_None_iff: "find_idx p xs = None \<longleftrightarrow> (\<forall>x \<in> set xs. \<not> p x)"
  by (induction xs) auto

lemma find_idx_Some:
  assumes "find_idx p xs = Some i"
  shows "i < length xs \<and> p (xs ! i) \<and> (\<forall>j < i. \<not> p (xs ! j))"
  using assms
proof (induction xs arbitrary: i)
  case Nil
  then show ?case by simp
next
  case (Cons x xs)
  show ?case
  proof (cases "p x")
    case True
    with Cons.prems show ?thesis by simp
  next
    case False
    with Cons.prems obtain k where k: "find_idx p xs = Some k" and i: "i = Suc k" by auto
    from Cons.IH [OF k] have "\<forall>j < k. \<not> p (xs ! j)" by simp
    then have "\<forall>j < i. \<not> p ((x # xs) ! j)" using False i by (auto simp: less_Suc_eq_0_disj)
    with Cons.IH [OF k] i show ?thesis by simp
  qed
qed

lemma find_idx_Some_iff:
  "find_idx p xs = Some i \<longleftrightarrow> i < length xs \<and> p (xs ! i) \<and> (\<forall>j < i. \<not> p (xs ! j))"
proof
  assume "find_idx p xs = Some i"
  then show "i < length xs \<and> p (xs ! i) \<and> (\<forall>j < i. \<not> p (xs ! j))" by (rule find_idx_Some)
next
  assume a: "i < length xs \<and> p (xs ! i) \<and> (\<forall>j < i. \<not> p (xs ! j))"
  then show "find_idx p xs = Some i"
  proof (induction xs arbitrary: i)
    case Nil
    then show ?case by simp
  next
    case (Cons x xs)
    show ?case
    proof (cases i)
      case 0
      with Cons.prems show ?thesis by simp
    next
      case (Suc k)
      with Cons.prems have "\<not> p x" by auto
      moreover from Cons.prems Suc have "find_idx p xs = Some k" by (intro Cons.IH) auto
      ultimately show ?thesis using Suc by simp
    qed
  qed
qed

lemma find_idx_find:
  "List.find p xs = (case find_idx p xs of None \<Rightarrow> None | Some i \<Rightarrow> Some (xs ! i))"
  by (induction xs) (auto split: option.splits)

lemma find_idx_distinct:
  assumes "distinct (map f xs)" and "i < length xs"
  shows "find_idx (\<lambda>x. f x = f (xs ! i)) xs = Some i"
proof -
  have "\<forall>j < i. f (xs ! j) \<noteq> f (xs ! i)"
    using assms by (auto simp: distinct_conv_nth)
  with assms(2) show ?thesis by (simp add: find_idx_Some_iff)
qed

lemma find_idx_map_cong:
  "(\<And>x. x \<in> set xs \<Longrightarrow> p (g x) = q x) \<Longrightarrow> find_idx p (map g xs) = find_idx q xs"
  by (induction xs) auto

lemma findIndex_Some [js_array]: "find_idx p xs = Some i \<Longrightarrow> findIndex p xs = int i"
  by (simp add: findIndex_def)

lemma findIndex_None [js_array]: "find_idx p xs = None \<Longrightarrow> findIndex p xs = -1"
  by (simp add: findIndex_def)

subsection \<open>Lemmas on splice\<close>

lemma rel_start_nat [simp]: "rel_start (int i) len = min i len"
  by (simp add: rel_start_def)

lemma splice_remove_one [js_array]:
  "i < length xs \<Longrightarrow> splice (int i) 1 [] xs = ([xs ! i], take i xs @ drop (Suc i) xs)"
  by (simp add: splice_def take_Suc_conv_app_nth)

lemma splice_remove_Suc0 [js_array]:
  "i < length xs \<Longrightarrow> splice (int i) (Suc 0) [] xs = ([xs ! i], take i xs @ drop (Suc i) xs)"
  using splice_remove_one by simp

lemma splice_insert [js_array]:
  "i \<le> length xs \<Longrightarrow> snd (splice (int i) 0 [x] xs) = take i xs @ x # drop i xs"
  by (simp add: splice_def)

lemma splice_mset:
  "mset (fst (splice s dc items xs)) + mset (snd (splice s dc items xs)) = mset xs + mset items"
proof -
  let ?s = "rel_start s (length xs)"
  have "mset xs = mset (take ?s xs) + mset (take dc (drop ?s xs)) + mset (drop (?s + dc) xs)"
    by (metis append_take_drop_id drop_drop add.commute mset_append union_assoc)
  then show ?thesis by (simp add: splice_def Let_def ac_simps)
qed

lemma remove_at_filter:
  assumes "distinct (map f xs)" and "i < length xs"
  shows "take i xs @ drop (Suc i) xs = filter (\<lambda>x. f x \<noteq> f (xs ! i)) xs"
  using assms
proof (induction xs arbitrary: i)
  case Nil
  then show ?case by simp
next
  case (Cons x xs)
  show ?case
  proof (cases i)
    case 0
    with Cons.prems have "\<forall>y \<in> set xs. f y \<noteq> f x" by (force simp: image_iff)
    with 0 show ?thesis by (simp add: filter_id_conv)
  next
    case (Suc k)
    with Cons.prems have "f x \<noteq> f (xs ! k)" by (force simp: image_iff)
    with Cons.prems Suc show ?thesis by (simp add: Cons.IH)
  qed
qed

subsection \<open>Lemmas on trim\<close>

lemma dropWhile_rev_dropWhile:
  "xs = [] \<or> \<not> P (hd xs) \<Longrightarrow> dropWhile P (rev (dropWhile P (rev xs))) = rev (dropWhile P (rev xs))"
proof (induction xs rule: rev_induct)
  case Nil
  then show ?case by simp
next
  case (snoc x xs)
  show ?case
  proof (cases "P x")
    case True
    then have "xs = [] \<or> \<not> P (hd xs)" using snoc.prems by (cases xs) auto
    with True snoc.IH show ?thesis by simp
  next
    case False
    then show ?thesis using snoc.prems by (cases xs) auto
  qed
qed

lemma trim_dropWhile: "dropWhile js_space (trim s) = trim s"
proof -
  define u where "u = dropWhile js_space s"
  have u: "u = [] \<or> \<not> js_space (hd u)"
    unfolding u_def by (induction s) auto
  show ?thesis
    using dropWhile_rev_dropWhile [of u js_space, OF u] by (simp add: trim_def u_def)
qed

lemma trim_idem: "trim (trim s) = trim s"
  using trim_dropWhile [of s] by (simp add: trim_def)

lemma trim_set: "set (trim s) \<subseteq> set s"
  unfolding trim_def by (metis set_dropWhileD set_rev subsetI)

lemma trim_ends: "trim s \<noteq> [] \<Longrightarrow> \<not> js_space (hd (trim s)) \<and> \<not> js_space (last (trim s))"
proof
  assume ne: "trim s \<noteq> []"
  then show "\<not> js_space (hd (trim s))"
    using hd_dropWhile [of js_space "trim s"] by (simp add: trim_dropWhile)
  have "dropWhile js_space (rev (dropWhile js_space s)) \<noteq> []" using ne by (simp add: trim_def)
  then show "\<not> js_space (last (trim s))"
    using hd_dropWhile [of js_space "rev (dropWhile js_space s)"] by (simp add: trim_def last_rev)
qed

subsection \<open>Lemmas on num_str\<close>

lemma num_str_nonempty: "num_str n \<noteq> []"
  by (subst num_str.simps) simp

text \<open>Evaluation of the string built-ins on literals (used by the witnesses).\<close>

lemmas js_string_eval = char_of_eq_iff num_str.simps toLowerCase_def lower_char_def trim_def js_space_def

end
