(* ===== verification/Board.thy ===== *)
theory Board
  imports Prelude
begin

text \<open>
  The board document's data model.  The extension keeps no board type of its own: a
  board is the object \<open>JSON.parse\<close> returns for a \<open>.board.json\<close> file, of the shape
  \<open>{ columns: [ { id, title, cards: [ { id, title } ] } ] }\<close>, and the webview's
  \<open>state\<close> is a copy of the same object.  The records below are that shape; a column or
  a card is found by the first entry with the given \<open>id\<close>, as \<open>Array.prototype.find\<close>
  and \<open>findIndex\<close> do.  The invariant of the spec (column identifiers unique) is
  \<open>wf_board\<close>; the lemmas at the end describe updating one column of the list.
\<close>

record card =
  card_id :: ident
  card_title :: string

record column =
  col_id :: ident
  col_title :: string
  cards :: "card list"

record board =
  columns :: "column list"

definition col_ids :: "board \<Rightarrow> ident list" where
  "col_ids b = map col_id (columns b)"

definition all_cards :: "board \<Rightarrow> card list" where
  "all_cards b = concat (map cards (columns b))"

definition wf_board :: "board \<Rightarrow> bool" where
  "wf_board b \<longleftrightarrow> distinct (col_ids b)"

definition card_ids_distinct :: "board \<Rightarrow> bool" where
  "card_ids_distinct b \<longleftrightarrow> (\<forall>c \<in> set (columns b). distinct (map card_id (cards c)))"

text \<open>The two templates written when a board file is created (\<open>openPreview\<close>, \<open>createBoard\<close>).\<close>

definition initialTodo_preview :: board where
  "initialTodo_preview =
     \<lparr>columns = [\<lparr>col_id = ''Ideas'', col_title = ''Ideas'', cards = []\<rparr>,
                 \<lparr>col_id = ''In-Progress'', col_title = ''In Progress'', cards = []\<rparr>,
                 \<lparr>col_id = ''Done'', col_title = ''Done'', cards = []\<rparr>]\<rparr>"

definition initialTodo_create :: board where
  "initialTodo_create =
     \<lparr>columns = [\<lparr>col_id = ''todo'', col_title = ''To Do'', cards = []\<rparr>,
                 \<lparr>col_id = ''doing'', col_title = ''Doing'', cards = []\<rparr>,
                 \<lparr>col_id = ''done'', col_title = ''Done'', cards = []\<rparr>]\<rparr>"

text \<open>The board of the scenarios of the spec (section 8), used by the witnesses.\<close>

definition scenario_board :: board where
  "scenario_board =
     \<lparr>columns = [\<lparr>col_id = ''a'', col_title = ''A'',
                   cards = [\<lparr>card_id = ''c1'', card_title = ''X''\<rparr>, \<lparr>card_id = ''c2'', card_title = ''Y''\<rparr>]\<rparr>,
                 \<lparr>col_id = ''b'', col_title = ''B'', cards = []\<rparr>]\<rparr>"

subsection \<open>Updating one column\<close>

lemma mset_concat_map_update:
  assumes "i < length xs"
  shows "mset (concat (map g (xs[i := y]))) + mset (g (xs ! i)) = mset (concat (map g xs)) + mset (g y)"
proof -
  have xs: "xs = take i xs @ xs ! i # drop (Suc i) xs"
    using assms by (rule id_take_nth_drop)
  have "mset (concat (map g xs)) =
      mset (concat (map g (take i xs))) + mset (g (xs ! i)) + mset (concat (map g (drop (Suc i) xs)))"
    by (subst xs) simp
  then show ?thesis
    using assms by (simp add: upd_conv_take_nth_drop ac_simps)
qed

lemma update_by_key:
  assumes "distinct (map f xs)" and "i < length xs"
  shows "xs[i := g (xs ! i)] = map (\<lambda>x. if f x = f (xs ! i) then g x else x) xs"
proof (rule nth_equalityI)
  show "length (xs[i := g (xs ! i)]) = length (map (\<lambda>x. if f x = f (xs ! i) then g x else x) xs)"
    by simp
next
  fix j
  assume "j < length (xs[i := g (xs ! i)])"
  then have j: "j < length xs" by simp
  have "f (xs ! j) = f (xs ! i) \<longleftrightarrow> j = i"
    using assms j by (auto simp: distinct_conv_nth)
  with j show "xs[i := g (xs ! i)] ! j = map (\<lambda>x. if f x = f (xs ! i) then g x else x) xs ! j"
    by (cases "j = i") auto
qed

lemma col_ids_update [simp]:
  "i < length (columns b) \<Longrightarrow> col_id c = col_id (columns b ! i) \<Longrightarrow>
   map col_id ((columns b)[i := c]) = col_ids b"
  by (simp add: col_ids_def map_update) (metis list_update_id nth_map)

lemma wf_board_initial:
  "wf_board initialTodo_preview" "wf_board initialTodo_create"
  by (simp_all add: wf_board_def col_ids_def initialTodo_preview_def initialTodo_create_def)

end
