(* ===== verification/Reorder.thy ===== *)
theory Reorder
  imports Complex_Main Board
begin

text \<open>
  The reorder engine of the webview script (\<open>getHtml\<close> in \<open>src/unnamed/part_000\<close>):
  \<open>moveCard(fromId, toId, cardId, toIndex)\<close> splices a card out of its column and into
  the target column of the webview's \<open>state\<close>; \<open>getDragAfterElement\<close> picks, from the
  rendered cards of the target column, the card in front of which a drop at height \<open>y\<close>
  lands; the card branch of \<open>column.ondrop\<close> turns that card into an index.  The state
  is mutated in place by the source; here each function returns the new board, and an
  exception is \<open>Inl (TypeError, s)\<close> with \<open>s\<close> the state at the throw (a throw after
  the first splice leaves the removal done).

  \<open>drop_spec\<close> is the abstract specification of a card drop: the card leaves its source
  column and is placed right before the card it was dropped on, or at the end of the
  target column.  The main theorem of the theory is that the index computation and
  \<open>moveCard\<close> together implement it, for the same column and across columns.
\<close>

subsection \<open>moveCard\<close>

definition final_index :: "ident \<Rightarrow> ident \<Rightarrow> nat \<Rightarrow> int option \<Rightarrow> int option" where
  "final_index fromId toId fromIdx toIndex =
     (if fromId = toId \<and> (case toIndex of Some t \<Rightarrow> int fromIdx < t | None \<Rightarrow> False)
      then (case toIndex of Some t \<Rightarrow> if t > int fromIdx then Some (t - 1) else toIndex | None \<Rightarrow> toIndex)
      else toIndex)"

definition moveCard :: "ident \<Rightarrow> ident \<Rightarrow> ident \<Rightarrow> int option \<Rightarrow> board \<Rightarrow> (js_error \<times> board) + board" where
  "moveCard fromId toId cardId toIndex st =
     (let cols = columns st;
          fromCol = find_idx (\<lambda>c. col_id c = fromId) cols;
          toCol = find_idx (\<lambda>c. col_id c = toId) cols
      in case fromCol of
        None \<Rightarrow> Inl (TypeError, st)
      | Some fi \<Rightarrow>
          (case find_idx (\<lambda>c. card_id c = cardId) (cards (cols ! fi)) of
            None \<Rightarrow> Inr st
          | Some fromIdx \<Rightarrow>
              (case splice (int fromIdx) 1 [] (cards (cols ! fi)) of
                (removed, rest) \<Rightarrow>
                  (let card = hd removed;
                       cols1 = cols[fi := (cols ! fi)\<lparr>cards := rest\<rparr>];
                       finalIndex = final_index fromId toId fromIdx toIndex
                   in case toCol of
                     None \<Rightarrow> Inl (TypeError, st\<lparr>columns := cols1\<rparr>)
                   | Some ti \<Rightarrow>
                       (let tc = cols1 ! ti;
                            idx = (case finalIndex of None \<Rightarrow> int (length (cards tc)) | Some f \<Rightarrow> f)
                        in Inr (st\<lparr>columns := cols1[ti := tc\<lparr>cards := snd (splice idx 0 [card] (cards tc))\<rparr>]\<rparr>))))))"

subsection \<open>getDragAfterElement\<close>

text \<open>
  A rendered card: its \<open>data-id\<close>, the top and height of its bounding rectangle, and
  whether it carries the class \<open>dragging\<close> (the card being dragged).  The reduce starts
  from \<open>{offset: -Infinity}\<close>, which is \<open>None\<close> here; its \<open>.element\<close> is then
  \<open>undefined\<close>.
\<close>

record box =
  el_id :: ident
  box_top :: rat
  box_height :: rat
  dragging :: bool

definition drop_offset :: "rat \<Rightarrow> box \<Rightarrow> rat" where
  "drop_offset y b = y - box_top b - box_height b / 2"

definition closest_step :: "rat \<Rightarrow> (rat \<times> box) option \<Rightarrow> box \<Rightarrow> (rat \<times> box) option" where
  "closest_step y closest child =
     (let offset = drop_offset y child
      in if offset < 0 \<and> (case closest of None \<Rightarrow> True | Some (best, _) \<Rightarrow> offset > best)
         then Some (offset, child) else closest)"

definition getDragAfterElement :: "box list \<Rightarrow> rat \<Rightarrow> box option" where
  "getDragAfterElement container y =
     map_option snd (foldl (closest_step y) None (filter (\<lambda>b. \<not> dragging b) container))"

subsection \<open>The card branch of column.ondrop\<close>

text \<open>
  The index packed into the move: the position, in the target column of \<open>state\<close>, of
  the card the drop lands in front of, or the column's length.  \<open>afterId\<close> is
  \<open>afterElement.dataset.id\<close>.
\<close>

definition cardDropIndex :: "board \<Rightarrow> ident \<Rightarrow> ident option \<Rightarrow> js_error + int" where
  "cardDropIndex st colId afterId =
     (case List.find (\<lambda>c. col_id c = colId) (columns st) of
       None \<Rightarrow> Inl TypeError
     | Some c \<Rightarrow> Inr (case afterId of
                      Some a \<Rightarrow> findIndex (\<lambda>k. card_id k = a) (cards c)
                    | None \<Rightarrow> int (length (cards c))))"

definition dropAt :: "board \<Rightarrow> ident \<Rightarrow> ident \<Rightarrow> ident \<Rightarrow> ident option \<Rightarrow> (js_error \<times> board) + board" where
  "dropAt st fromColumn colId draggedId afterId =
     (case cardDropIndex st colId afterId of
       Inl e \<Rightarrow> Inl (e, st)
     | Inr index \<Rightarrow> moveCard fromColumn colId draggedId (Some index) st)"

definition dropCard :: "board \<Rightarrow> ident \<Rightarrow> ident \<Rightarrow> ident \<Rightarrow> box list \<Rightarrow> rat \<Rightarrow> (js_error \<times> board) + board" where
  "dropCard st fromColumn colId draggedId container y =
     dropAt st fromColumn colId draggedId (map_option el_id (getDragAfterElement container y))"

subsection \<open>Abstract specifications\<close>

text \<open>The drop target the spec describes: the first card below the pointer.\<close>

definition box_center :: "box \<Rightarrow> rat" where
  "box_center b = box_top b + box_height b / 2"

definition first_below :: "box list \<Rightarrow> rat \<Rightarrow> box option" where
  "first_below container y = List.find (\<lambda>b. y < box_center b) (filter (\<lambda>b. \<not> dragging b) container)"

text \<open>A card drop: out of the source column, in front of the card dropped on, or at the end.\<close>

fun insert_before :: "ident option \<Rightarrow> card \<Rightarrow> card list \<Rightarrow> card list" where
  "insert_before None d xs = xs @ [d]"
| "insert_before (Some a) d [] = [d]"
| "insert_before (Some a) d (x # xs) =
     (if card_id x = a then d # x # xs else x # insert_before (Some a) d xs)"

definition drop_spec :: "ident \<Rightarrow> ident \<Rightarrow> card \<Rightarrow> ident option \<Rightarrow> board \<Rightarrow> board" where
  "drop_spec fromId toId d afterId st =
     st\<lparr>columns := map (\<lambda>c.
        let cs = (if col_id c = fromId then filter (\<lambda>k. card_id k \<noteq> card_id d) (cards c) else cards c)
        in c\<lparr>cards := (if col_id c = toId then insert_before afterId d cs else cs)\<rparr>) (columns st)\<rparr>"

subsection \<open>Lemmas\<close>

lemma find_idx_remove_at:
  "find_idx p xs = Some j \<Longrightarrow> k < length xs \<Longrightarrow> \<not> p (xs ! k) \<Longrightarrow>
   find_idx p (take k xs @ drop (Suc k) xs) = Some (if k < j then j - 1 else j)"
proof (induction xs arbitrary: k j)
  case Nil
  then show ?case by simp
next
  case (Cons x xs)
  show ?case
  proof (cases k)
    case 0
    with Cons.prems show ?thesis by (auto split: if_splits)
  next
    case (Suc k')
    show ?thesis
    proof (cases "p x")
      case True
      with Cons.prems Suc show ?thesis by simp
    next
      case False
      with Cons.prems obtain j0 where j0: "find_idx p xs = Some j0" and j: "j = Suc j0" by auto
      from Cons.prems Suc have "k' < length xs" "\<not> p (xs ! k')" by auto
      with Cons.IH [OF j0] have "find_idx p (take k' xs @ drop (Suc k') xs) = Some (if k' < j0 then j0 - 1 else j0)"
        by blast
      with False Suc j show ?thesis by auto
    qed
  qed
qed

lemma insert_before_at:
  "find_idx (\<lambda>x. card_id x = a) ys = Some m \<Longrightarrow> take m ys @ d # drop m ys = insert_before (Some a) d ys"
proof (induction ys arbitrary: m)
  case Nil
  then show ?case by simp
next
  case (Cons y ys)
  then show ?case by (cases "card_id y = a") auto
qed

lemma find_idx_key:
  assumes "distinct (map f xs)" and "x \<in> set xs"
  obtains i where "find_idx (\<lambda>y. f y = f x) xs = Some i" and "i < length xs" and "xs ! i = x"
proof -
  from assms(2) obtain i where i: "i < length xs" "xs ! i = x" by (auto simp: in_set_conv_nth)
  with find_idx_distinct [OF assms(1) i(1)] show ?thesis using that by simp
qed

lemma moveCard_Some:
  assumes fi: "find_idx (\<lambda>c. col_id c = fromId) (columns st) = Some fi"
    and k: "find_idx (\<lambda>c. card_id c = cardId) (cards (columns st ! fi)) = Some k"
    and ti: "find_idx (\<lambda>c. col_id c = toId) (columns st) = Some ti"
  shows "moveCard fromId toId cardId toIndex st =
    (let xs = cards (columns st ! fi);
         cols1 = (columns st)[fi := (columns st ! fi)\<lparr>cards := take k xs @ drop (Suc k) xs\<rparr>];
         tc = cols1 ! ti;
         idx = (case final_index fromId toId k toIndex of None \<Rightarrow> int (length (cards tc)) | Some f \<Rightarrow> f)
     in Inr (st\<lparr>columns := cols1[ti := tc\<lparr>cards := snd (splice idx 0 [xs ! k] (cards tc))\<rparr>]\<rparr>))"
proof -
  let ?xs = "cards (columns st ! fi)"
  from find_idx_Some [OF k] have "k < length ?xs" by simp
  then have sp: "splice (int k) (Suc 0) [] ?xs = ([?xs ! k], take k ?xs @ drop (Suc k) ?xs)"
    using splice_remove_one by simp
  show ?thesis using fi k ti by (simp add: moveCard_def sp Let_def)
qed

lemma cardDropIndex_found:
  "find_idx (\<lambda>c. col_id c = cid) (columns st) = Some ti \<Longrightarrow>
   cardDropIndex st cid afterId = Inr (case afterId of
      Some a \<Rightarrow> findIndex (\<lambda>k. card_id k = a) (cards (columns st ! ti))
    | None \<Rightarrow> int (length (cards (columns st ! ti))))"
  by (simp add: cardDropIndex_def find_idx_find)

lemma after_index:
  assumes "pred_option (\<lambda>a. a \<noteq> card_id d \<and> a \<in> card_id ` set xs) afterId"
    and "afterId = Some a"
  obtains j where "find_idx (\<lambda>k. card_id k = a) xs = Some j" and "j < length xs" and "card_id (xs ! j) = a"
    and "a \<noteq> card_id d"
proof -
  from assms have "find_idx (\<lambda>k. card_id k = a) xs \<noteq> None" by (auto simp: find_idx_None_iff)
  then obtain j where j: "find_idx (\<lambda>k. card_id k = a) xs = Some j" by blast
  from find_idx_Some [OF j] assms show ?thesis using that j by auto
qed

lemma dropAt_same_column:
  assumes wf: "wf_board st"
    and fi: "find_idx (\<lambda>c. col_id c = cid) (columns st) = Some fi"
    and dist: "distinct (map card_id (cards (columns st ! fi)))"
    and k: "find_idx (\<lambda>c. card_id c = card_id d) (cards (columns st ! fi)) = Some k"
    and dk: "cards (columns st ! fi) ! k = d"
    and after: "pred_option (\<lambda>a. a \<noteq> card_id d \<and> a \<in> card_id ` set (cards (columns st ! fi))) afterId"
  shows "dropAt st cid cid (card_id d) afterId = Inr (drop_spec cid cid d afterId st)"
proof -
  define cols where "cols = columns st"
  define xs where "xs = cards (cols ! fi)"
  define ys where "ys = take k xs @ drop (Suc k) xs"
  define idx where "idx = (case afterId of Some a \<Rightarrow> findIndex (\<lambda>k. card_id k = a) xs | None \<Rightarrow> int (length xs))"
  define fidx where "fidx = (case final_index cid cid k (Some idx) of None \<Rightarrow> int (length ys) | Some f \<Rightarrow> f)"
  have fi_lt: "fi < length cols" and fi_id: "col_id (cols ! fi) = cid"
    using find_idx_Some [OF fi] by (auto simp: cols_def)
  have k_lt: "k < length xs" using find_idx_Some [OF k] by (simp add: xs_def cols_def)
  have dk': "xs ! k = d" using dk by (simp add: xs_def cols_def)
  have len: "length ys = length xs - 1" using k_lt by (simp add: ys_def)
  have ys: "ys = filter (\<lambda>x. card_id x \<noteq> card_id d) xs"
    using remove_at_filter [of card_id xs k] dist k_lt dk' by (simp add: ys_def xs_def cols_def)
  have new: "snd (splice fidx 0 [d] ys) = insert_before afterId d ys"
  proof (cases afterId)
    case None
    with k_lt len have "fidx = int (length ys)" by (simp add: fidx_def idx_def final_index_def)
    then show ?thesis using None splice_insert [of "length ys" ys d] by simp
  next
    case (Some a)
    with after obtain j where j: "find_idx (\<lambda>k. card_id k = a) xs = Some j" and "j < length xs"
      and "card_id (xs ! j) = a" and "a \<noteq> card_id d"
      unfolding xs_def cols_def by (rule after_index)
    with dk' have "j \<noteq> k" by auto
    define m where "m = (if k < j then j - 1 else j)"
    have m: "find_idx (\<lambda>x. card_id x = a) ys = Some m"
      using find_idx_remove_at [OF j k_lt] dk' \<open>a \<noteq> card_id d\<close> by (simp add: ys_def m_def)
    then have "m \<le> length ys" using find_idx_Some [OF m] by simp
    moreover have "fidx = int m"
      using Some j \<open>j \<noteq> k\<close> by (auto simp: fidx_def idx_def m_def final_index_def findIndex_Some)
    ultimately show ?thesis
      using Some splice_insert [of m ys d] insert_before_at [OF m] by simp
  qed
  have distinct_ids: "distinct (map col_id cols)" using wf by (simp add: wf_board_def col_ids_def cols_def)
  let ?g = "\<lambda>x. x\<lparr>cards := insert_before afterId d (filter (\<lambda>k. card_id k \<noteq> card_id d) (cards x))\<rparr>"
  have upd: "cols[fi := ?g (cols ! fi)] = map (\<lambda>x. if col_id x = col_id (cols ! fi) then ?g x else x) cols"
    by (rule update_by_key [OF distinct_ids fi_lt])
  have "moveCard cid cid (card_id d) (Some idx) st =
      Inr (st\<lparr>columns := cols[fi := (cols ! fi)\<lparr>cards := snd (splice fidx 0 [d] ys)\<rparr>]\<rparr>)"
    using moveCard_Some [OF fi k fi] dk fi_lt
    by (simp add: Let_def cols_def xs_def ys_def fidx_def cong: option.case_cong)
  also have "\<dots> = Inr (drop_spec cid cid d afterId st)"
    using new ys upd fi_id xs_def by (auto simp: drop_spec_def Let_def cols_def)
  finally show ?thesis
    by (simp add: dropAt_def cardDropIndex_found [OF fi] idx_def xs_def cols_def cong: option.case_cong)
qed

lemma key_index_iff:
  assumes "find_idx (\<lambda>c. f c = v) xs = Some i" and "distinct (map f xs)" and "j < length xs"
  shows "f (xs ! j) = v \<longleftrightarrow> j = i"
proof -
  from find_idx_Some [OF assms(1)] have "i < length xs" "f (xs ! i) = v" by auto
  with assms(2,3) show ?thesis by (auto simp: distinct_conv_nth)
qed

lemma dropAt_other_column:
  assumes wf: "wf_board st"
    and fi: "find_idx (\<lambda>c. col_id c = fromId) (columns st) = Some fi"
    and ti: "find_idx (\<lambda>c. col_id c = toId) (columns st) = Some ti"
    and ne: "fromId \<noteq> toId"
    and dist: "distinct (map card_id (cards (columns st ! fi)))"
    and k: "find_idx (\<lambda>c. card_id c = card_id d) (cards (columns st ! fi)) = Some k"
    and dk: "cards (columns st ! fi) ! k = d"
    and after: "pred_option (\<lambda>a. a \<noteq> card_id d \<and> a \<in> card_id ` set (cards (columns st ! ti))) afterId"
  shows "dropAt st fromId toId (card_id d) afterId = Inr (drop_spec fromId toId d afterId st)"
proof -
  define cols where "cols = columns st"
  define xs where "xs = cards (cols ! fi)"
  define zs where "zs = cards (cols ! ti)"
  define idx where "idx = (case afterId of Some a \<Rightarrow> findIndex (\<lambda>k. card_id k = a) zs | None \<Rightarrow> int (length zs))"
  have distinct_ids: "distinct (map col_id cols)" using wf by (simp add: wf_board_def col_ids_def cols_def)
  have fi_lt: "fi < length cols" and fi_id: "col_id (cols ! fi) = fromId"
    using find_idx_Some [OF fi] by (auto simp: cols_def)
  have ti_lt: "ti < length cols" and ti_id: "col_id (cols ! ti) = toId"
    using find_idx_Some [OF ti] by (auto simp: cols_def)
  have "fi \<noteq> ti" using fi_id ti_id ne by auto
  have k_lt: "k < length xs" using find_idx_Some [OF k] by (simp add: xs_def cols_def)
  have ys: "take k xs @ drop (Suc k) xs = filter (\<lambda>x. card_id x \<noteq> card_id d) xs"
    using remove_at_filter [of card_id xs k] dist k_lt dk by (simp add: xs_def cols_def)
  have new: "snd (splice idx 0 [d] zs) = insert_before afterId d zs"
  proof (cases afterId)
    case None
    then show ?thesis using splice_insert [of "length zs" zs d] by (simp add: idx_def)
  next
    case (Some a)
    with after obtain j where j: "find_idx (\<lambda>k. card_id k = a) zs = Some j" and "j < length zs"
      and "card_id (zs ! j) = a" and "a \<noteq> card_id d"
      unfolding zs_def cols_def by (rule after_index)
    then show ?thesis
      using Some splice_insert [of j zs d] insert_before_at [OF j] by (simp add: idx_def findIndex_Some)
  qed
  let ?h = "\<lambda>c. let cs = (if col_id c = fromId then filter (\<lambda>k. card_id k \<noteq> card_id d) (cards c) else cards c)
              in c\<lparr>cards := (if col_id c = toId then insert_before afterId d cs else cs)\<rparr>"
  have cols_eq: "cols[fi := (cols ! fi)\<lparr>cards := take k xs @ drop (Suc k) xs\<rparr>,
                  ti := (cols ! ti)\<lparr>cards := snd (splice idx 0 [d] zs)\<rparr>] = map ?h cols"
  proof (rule nth_equalityI)
    fix j
    assume "j < length (cols[fi := (cols ! fi)\<lparr>cards := take k xs @ drop (Suc k) xs\<rparr>,
                  ti := (cols ! ti)\<lparr>cards := snd (splice idx 0 [d] zs)\<rparr>])"
    then have j: "j < length cols" by simp
    have "col_id (cols ! j) = fromId \<longleftrightarrow> j = fi"
      using key_index_iff [OF fi [folded cols_def] distinct_ids j] .
    moreover have "col_id (cols ! j) = toId \<longleftrightarrow> j = ti"
      using key_index_iff [OF ti [folded cols_def] distinct_ids j] .
    ultimately show "cols[fi := (cols ! fi)\<lparr>cards := take k xs @ drop (Suc k) xs\<rparr>,
                  ti := (cols ! ti)\<lparr>cards := snd (splice idx 0 [d] zs)\<rparr>] ! j = map ?h cols ! j"
      using j \<open>fi \<noteq> ti\<close> ne ys new by (auto simp: xs_def zs_def Let_def)
  qed simp
  have "moveCard fromId toId (card_id d) (Some idx) st =
      Inr (st\<lparr>columns := cols[fi := (cols ! fi)\<lparr>cards := take k xs @ drop (Suc k) xs\<rparr>,
                  ti := (cols ! ti)\<lparr>cards := snd (splice idx 0 [d] zs)\<rparr>]\<rparr>)"
    using moveCard_Some [OF fi k ti] dk \<open>fi \<noteq> ti\<close> ne
    by (simp add: Let_def cols_def xs_def zs_def final_index_def)
  also have "\<dots> = Inr (drop_spec fromId toId d afterId st)"
    using cols_eq by (simp add: drop_spec_def cols_def)
  finally show ?thesis
    by (simp add: dropAt_def cardDropIndex_found [OF ti] idx_def zs_def cols_def cong: option.case_cong)
qed

text \<open>C1: Dropping a card on a column, with the drop index computed as column.ondrop does and applied by moveCard, removes the card from its source column and inserts it right before the card it was dropped in front of (or at the end), for the same column and across columns.\<close>

theorem dropAt_refines_drop_spec:
  assumes wf: "wf_board st" and cd: "card_ids_distinct st"
    and src: "src \<in> set (columns st)" "col_id src = fromId" "d \<in> set (cards src)"
    and tgt: "tgt \<in> set (columns st)" "col_id tgt = toId"
    and after: "pred_option (\<lambda>a. a \<noteq> card_id d \<and> a \<in> card_id ` set (cards tgt)) afterId"
  shows "dropAt st fromId toId (card_id d) afterId = Inr (drop_spec fromId toId d afterId st)"
proof -
  have ids: "distinct (map col_id (columns st))" using wf by (simp add: wf_board_def col_ids_def)
  obtain fi where fi: "find_idx (\<lambda>c. col_id c = fromId) (columns st) = Some fi" and fi_src: "columns st ! fi = src"
    using find_idx_key [OF ids src(1)] src(2) by metis
  obtain ti where ti: "find_idx (\<lambda>c. col_id c = toId) (columns st) = Some ti" and ti_tgt: "columns st ! ti = tgt"
    using find_idx_key [OF ids tgt(1)] tgt(2) by metis
  have dist: "distinct (map card_id (cards src))" using cd src(1) by (simp add: card_ids_distinct_def)
  obtain k where k: "find_idx (\<lambda>c. card_id c = card_id d) (cards src) = Some k" and dk: "cards src ! k = d"
    using find_idx_key [OF dist src(3)] by metis
  show ?thesis
  proof (cases "fromId = toId")
    case True
    with fi ti have "ti = fi" by simp
    with fi_src ti_tgt have "tgt = src" by simp
    have "dropAt st fromId fromId (card_id d) afterId = Inr (drop_spec fromId fromId d afterId st)"
      using dist k dk after fi_src \<open>tgt = src\<close> by (intro dropAt_same_column [OF wf fi]) simp_all
    with True show ?thesis by simp
  next
    case False
    show ?thesis
      using dropAt_other_column [OF wf fi ti False] fi_src ti_tgt dist k dk after by simp
  qed
qed

lemma drop_offset_center: "drop_offset y b = y - box_center b"
  by (simp add: drop_offset_def box_center_def)

lemma closest_step_keeps:
  "\<forall>b \<in> set bs. box_center b0 < box_center b \<Longrightarrow>
   foldl (closest_step y) (Some (drop_offset y b0, b0)) bs = Some (drop_offset y b0, b0)"
  by (induction bs) (auto simp: closest_step_def drop_offset_center)

lemma closest_fold_first:
  "sorted_wrt (<) (map box_center bs) \<Longrightarrow>
   map_option snd (foldl (closest_step y) None bs) = List.find (\<lambda>b. y < box_center b) bs"
proof (induction bs)
  case Nil
  then show ?case by simp
next
  case (Cons b bs)
  show ?case
  proof (cases "y < box_center b")
    case True
    then have "closest_step y None b = Some (drop_offset y b, b)"
      by (simp add: closest_step_def drop_offset_center)
    moreover have "\<forall>b' \<in> set bs. box_center b < box_center b'" using Cons.prems by simp
    ultimately show ?thesis using True closest_step_keeps by simp
  next
    case False
    then have "closest_step y None b = None" by (simp add: closest_step_def drop_offset_center)
    with False Cons show ?thesis by simp
  qed
qed

text \<open>C5: When the rendered cards are laid out top to bottom, the reduce in getDragAfterElement returns the first non-dragged card whose center lies below the drop point, or none.\<close>

theorem getDragAfterElement_first_below:
  assumes "sorted_wrt (<) (map box_center (filter (\<lambda>b. \<not> dragging b) container))"
  shows "getDragAfterElement container y = first_below container y"
  using closest_fold_first [OF assms] by (simp add: getDragAfterElement_def first_below_def)

text \<open>C22: moveCard with a source column id that is not in the webview state throws a TypeError before changing the state, instead of ignoring the stale id.\<close>

lemma moveCard_source_missing:
  "find_idx (\<lambda>c. col_id c = fromId) (columns st) = None \<Longrightarrow>
   moveCard fromId toId cardId toIndex st = Inl (TypeError, st)"
  by (simp add: moveCard_def)

lemma moveCard_card_missing:
  "find_idx (\<lambda>c. col_id c = fromId) (columns st) = Some fi \<Longrightarrow>
   find_idx (\<lambda>c. card_id c = cardId) (cards (columns st ! fi)) = None \<Longrightarrow>
   moveCard fromId toId cardId toIndex st = Inr st"
  by (simp add: moveCard_def)

lemma moveCard_cases:
  assumes "moveCard fromId toId cardId toIndex st = Inr st'"
  obtains (unchanged) "st' = st"
  | (moved) fi k ti where "find_idx (\<lambda>c. col_id c = fromId) (columns st) = Some fi"
      "find_idx (\<lambda>c. card_id c = cardId) (cards (columns st ! fi)) = Some k"
      "find_idx (\<lambda>c. col_id c = toId) (columns st) = Some ti"
proof (cases "find_idx (\<lambda>c. col_id c = fromId) (columns st)")
  case None
  with assms show ?thesis by (simp add: moveCard_def)
next
  case (Some fi)
  show ?thesis
  proof (cases "find_idx (\<lambda>c. card_id c = cardId) (cards (columns st ! fi))")
    case None
    with Some assms show ?thesis using unchanged by (simp add: moveCard_card_missing)
  next
    case (Some k)
    show ?thesis
    proof (cases "find_idx (\<lambda>c. col_id c = toId) (columns st)")
      case None
      with \<open>find_idx _ (columns st) = Some fi\<close> Some assms show ?thesis
        by (simp add: moveCard_def Let_def split: prod.splits)
    next
      case (Some ti)
      with \<open>find_idx _ (columns st) = Some fi\<close> \<open>find_idx _ _ = Some k\<close> show ?thesis by (rule moved)
    qed
  qed
qed

lemma moveCard_col_ids:
  assumes "moveCard fromId toId cardId toIndex st = Inr st'"
  shows "col_ids st' = col_ids st"
  using assms
proof (cases rule: moveCard_cases)
  case unchanged
  then show ?thesis by simp
next
  case (moved fi k ti)
  define cols1 where "cols1 = (columns st)[fi := (columns st ! fi)\<lparr>cards := take k (cards (columns st ! fi)) @ drop (Suc k) (cards (columns st ! fi))\<rparr>]"
  have fi_lt: "fi < length (columns st)" using find_idx_Some [OF moved(1)] by simp
  have ti_lt: "ti < length cols1" using find_idx_Some [OF moved(3)] by (simp add: cols1_def)
  have ids1: "map col_id cols1 = col_ids st" using col_ids_update [OF fi_lt] by (simp add: cols1_def)
  obtain newcards where "st' = st\<lparr>columns := cols1[ti := (cols1 ! ti)\<lparr>cards := newcards\<rparr>]\<rparr>"
    using assms moveCard_Some [OF moved] by (auto simp: Let_def cols1_def)
  then show ?thesis using ti_lt ids1 by (simp add: col_ids_def map_update) (metis list_update_id nth_map)
qed

lemma moveCard_mset:
  assumes "moveCard fromId toId cardId toIndex st = Inr st'"
  shows "mset (all_cards st') = mset (all_cards st)"
  using assms
proof (cases rule: moveCard_cases)
  case unchanged
  then show ?thesis by simp
next
  case (moved fi k ti)
  define cols where "cols = columns st"
  define xs where "xs = cards (cols ! fi)"
  define ys where "ys = take k xs @ drop (Suc k) xs"
  define cols1 where "cols1 = cols[fi := (cols ! fi)\<lparr>cards := ys\<rparr>]"
  define tc where "tc = cols1 ! ti"
  define idx where "idx = (case final_index fromId toId k toIndex of None \<Rightarrow> int (length (cards tc)) | Some f \<Rightarrow> f)"
  define new where "new = snd (splice idx 0 [xs ! k] (cards tc))"
  have fi_lt: "fi < length cols" using find_idx_Some [OF moved(1)] by (simp add: cols_def)
  have ti_lt: "ti < length cols1" using find_idx_Some [OF moved(3)] by (simp add: cols1_def cols_def)
  have k_lt: "k < length xs" using find_idx_Some [OF moved(2)] by (simp add: xs_def cols_def)
  have st': "st' = st\<lparr>columns := cols1[ti := tc\<lparr>cards := new\<rparr>]\<rparr>"
    using assms moveCard_Some [OF moved]
    by (simp add: Let_def cols_def xs_def ys_def cols1_def tc_def idx_def new_def cong: option.case_cong)
  have s1: "mset (concat (map cards cols1)) + mset xs = mset (concat (map cards cols)) + mset ys"
    using mset_concat_map_update [OF fi_lt, of cards] by (simp add: cols1_def xs_def)
  have s2: "mset (concat (map cards (cols1[ti := tc\<lparr>cards := new\<rparr>]))) + mset (cards tc) =
      mset (concat (map cards cols1)) + mset new"
    using mset_concat_map_update [OF ti_lt, of cards] by (simp add: tc_def)
  have s3: "mset new = mset (cards tc) + {#xs ! k#}"
    using splice_mset [of idx 0 "[xs ! k]" "cards tc"] by (simp add: new_def splice_def Let_def)
  have s4: "mset xs = mset ys + {#xs ! k#}"
  proof -
    have "mset (take k xs @ xs ! k # drop (Suc k) xs) = mset ys + {#xs ! k#}" by (simp add: ys_def)
    then show ?thesis by (metis id_take_nth_drop [OF k_lt])
  qed
  show ?thesis
    using s1 s2 s3 s4 by (simp add: st' all_cards_def cols_def add_ac)
qed

text \<open>C2: Whenever moveCard returns normally, the multiset of cards on the board is unchanged: no card is lost or duplicated.\<close>

theorem moveCard_conserves_cards:
  "moveCard fromId toId cardId toIndex st = Inr st' \<Longrightarrow> mset (all_cards st') = mset (all_cards st)"
  by (rule moveCard_mset)

lemma moveCard_same_column:
  assumes fi: "find_idx (\<lambda>c. col_id c = cid) (columns st) = Some fi"
    and i: "find_idx (\<lambda>c. card_id c = kid) (cards (columns st ! fi)) = Some i"
    and j: "j \<le> length (cards (columns st ! fi))"
  shows "moveCard cid cid kid (Some (int j)) st =
    (let xs = cards (columns st ! fi); ys = take i xs @ drop (Suc i) xs;
         m = (if i < j then j - 1 else j)
     in Inr (st\<lparr>columns := (columns st)[fi := (columns st ! fi)\<lparr>cards := take m ys @ xs ! i # drop m ys\<rparr>]\<rparr>))"
proof -
  define xs where "xs = cards (columns st ! fi)"
  define ys where "ys = take i xs @ drop (Suc i) xs"
  define m where "m = (if i < j then j - 1 else j)"
  have fi_lt: "fi < length (columns st)" using find_idx_Some [OF fi] by simp
  have i_lt: "i < length xs" using find_idx_Some [OF i] by (simp add: xs_def)
  have fidx: "(case final_index cid cid i (Some (int j)) of None \<Rightarrow> int (length ys) | Some f \<Rightarrow> f) = int m"
    by (auto simp: final_index_def m_def)
  have "m \<le> length ys" using i_lt j by (auto simp: m_def ys_def xs_def)
  then have ins: "snd (splice (int m) 0 [xs ! i] ys) = take m ys @ xs ! i # drop m ys"
    by (rule splice_insert)
  show ?thesis
    using moveCard_Some [OF fi i fi] fi_lt fidx ins
    by (simp add: Let_def xs_def ys_def m_def cong: option.case_cong)
qed

text \<open>C4: Moving a card at index i of a column to index j > i of the same column returns normally and leaves the card at index j-1 (the post-removal shift), with the column's length unchanged.\<close>

theorem moveCard_same_column_index:
  assumes fi: "find_idx (\<lambda>c. col_id c = cid) (columns st) = Some fi"
    and i: "find_idx (\<lambda>c. card_id c = kid) (cards (columns st ! fi)) = Some i"
    and ij: "i < j" and j: "j \<le> length (cards (columns st ! fi))"
  shows "\<exists>st'. moveCard cid cid kid (Some (int j)) st = Inr st' \<and>
           cards (columns st' ! fi) ! (j - 1) = cards (columns st ! fi) ! i \<and>
           length (cards (columns st' ! fi)) = length (cards (columns st ! fi))"
proof -
  define xs where "xs = cards (columns st ! fi)"
  define ys where "ys = take i xs @ drop (Suc i) xs"
  have fi_lt: "fi < length (columns st)" using find_idx_Some [OF fi] by simp
  have i_lt: "i < length xs" using find_idx_Some [OF i] by (simp add: xs_def)
  have len: "length ys = length xs - 1" using i_lt by (simp add: ys_def)
  have m: "j - 1 \<le> length ys" using j ij len by (simp add: xs_def)
  then have take_len: "length (take (j - 1) ys) = j - 1" by simp
  let ?new = "take (j - 1) ys @ xs ! i # drop (j - 1) ys"
  have "?new ! (j - 1) = xs ! i" using take_len by (metis nth_append_length)
  moreover have "length ?new = length xs" using m len i_lt by simp
  moreover have "moveCard cid cid kid (Some (int j)) st =
      Inr (st\<lparr>columns := (columns st)[fi := (columns st ! fi)\<lparr>cards := ?new\<rparr>]\<rparr>)"
    using moveCard_same_column [OF fi i j] ij by (simp add: Let_def xs_def ys_def)
  ultimately show ?thesis using fi_lt by (simp add: xs_def)
qed

theorem moveCard_same_column_index_witness:
  "\<exists>st'. moveCard ''a'' ''a'' ''c1'' (Some 2) scenario_board = Inr st' \<and>
      cards (columns st' ! 0) ! 1 = \<lparr>card_id = ''c1'', card_title = ''X''\<rparr>"
proof -
  have h1: "find_idx (\<lambda>c. col_id c = ''a'') (columns scenario_board) = Some 0"
    by (simp add: scenario_board_def)
  have h2: "find_idx (\<lambda>c. card_id c = ''c1'') (cards (columns scenario_board ! 0)) = Some 0"
    by (simp add: scenario_board_def)
  have h4: "2 \<le> length (cards (columns scenario_board ! 0))"
    by (simp add: scenario_board_def)
  have "\<exists>st'. moveCard ''a'' ''a'' ''c1'' (Some (int 2)) scenario_board = Inr st' \<and>
      cards (columns st' ! 0) ! (2 - 1) = cards (columns scenario_board ! 0) ! 0 \<and>
      length (cards (columns st' ! 0)) = length (cards (columns scenario_board ! 0))"
    by (rule moveCard_same_column_index [OF h1 h2 _ h4]) simp
  then show ?thesis by (simp add: scenario_board_def) blast
qed


theorem dropAt_refines_drop_spec_witness:
  "dropAt scenario_board ''a'' ''b'' ''c1'' None =
   Inr (drop_spec ''a'' ''b'' \<lparr>card_id = ''c1'', card_title = ''X''\<rparr> None scenario_board)"
proof -
  let ?src = "\<lparr>col_id = ''a'', col_title = ''A'',
               cards = [\<lparr>card_id = ''c1'', card_title = ''X''\<rparr>, \<lparr>card_id = ''c2'', card_title = ''Y''\<rparr>]\<rparr>"
  let ?tgt = "\<lparr>col_id = ''b'', col_title = ''B'', cards = []\<rparr> :: column"
  have "wf_board scenario_board" and "card_ids_distinct scenario_board"
    and "?src \<in> set (columns scenario_board)" and "?tgt \<in> set (columns scenario_board)"
    by (simp_all add: scenario_board_def wf_board_def col_ids_def card_ids_distinct_def)
  from dropAt_refines_drop_spec [OF this(1,2,3) _ _ this(4), of "''a''" "\<lparr>card_id = ''c1'', card_title = ''X''\<rparr>" "''b''" None]
  show ?thesis by simp
qed

theorem getDragAfterElement_first_below_witness:
  "getDragAfterElement
     [\<lparr>el_id = ''c1'', box_top = 0, box_height = 20, dragging = False\<rparr>,
      \<lparr>el_id = ''c2'', box_top = 20, box_height = 20, dragging = True\<rparr>,
      \<lparr>el_id = ''c3'', box_top = 40, box_height = 20, dragging = False\<rparr>] 15 =
   Some \<lparr>el_id = ''c3'', box_top = 40, box_height = 20, dragging = False\<rparr>"
proof -
  let ?c = "[\<lparr>el_id = ''c1'', box_top = 0, box_height = 20, dragging = False\<rparr>,
      \<lparr>el_id = ''c2'', box_top = 20, box_height = 20, dragging = True\<rparr>,
      \<lparr>el_id = ''c3'', box_top = 40, box_height = 20, dragging = False\<rparr>] :: box list"
  have "sorted_wrt (<) (map box_center (filter (\<lambda>b. \<not> dragging b) ?c))"
    by (simp add: box_center_def)
  from getDragAfterElement_first_below [OF this, of 15]
  show ?thesis by (simp add: first_below_def box_center_def)
qed

theorem moveCard_conserves_cards_witness:
  "\<exists>st'. moveCard ''a'' ''b'' ''c1'' (Some 0) scenario_board = Inr st' \<and>
         mset (all_cards st') = mset (all_cards scenario_board)"
proof -
  define st' where "st' =
     \<lparr>columns = [\<lparr>col_id = ''a'', col_title = ''A'', cards = [\<lparr>card_id = ''c2'', card_title = ''Y''\<rparr>]\<rparr>,
                 \<lparr>col_id = ''b'', col_title = ''B'', cards = [\<lparr>card_id = ''c1'', card_title = ''X''\<rparr>]\<rparr>]\<rparr>"
  have run: "moveCard ''a'' ''b'' ''c1'' (Some 0) scenario_board = Inr st'"
    by (simp add: moveCard_def scenario_board_def st'_def splice_def final_index_def rel_start_def)
  with moveCard_conserves_cards [OF run] show ?thesis by blast
qed

theorem moveCard_source_missing_witness:
  "moveCard ''z'' ''a'' ''c1'' (Some 0) scenario_board = Inl (TypeError, scenario_board)"
proof -
  have "find_idx (\<lambda>c. col_id c = ''z'') (columns scenario_board) = None"
    by (simp add: scenario_board_def)
  then show ?thesis by (rule moveCard_source_missing)
qed

end
