(* ===== verification/Dispatcher.thy ===== *)
theory Dispatcher
  imports Board
begin

text \<open>
  The mutation dispatcher: the handler that \<open>TodoBoardEditor.resolveCustomTextEditor\<close>
  registers with \<open>panel.webview.onDidReceiveMessage\<close>.  It parses the document text,
  applies one typed message from the webview to the parsed board and, when the board
  changed (\<open>dirty\<close>), replaces the whole document with \<open>JSON.stringify(data, null, 2)\<close>
  and saves it.

  The document as the handler sees it is a \<open>doc_view\<close>: text that \<open>JSON.parse\<close>
  rejects (the handler returns at once), a JSON value with no \<open>columns\<close> array (every
  access to \<open>data.columns\<close> throws a TypeError, which rejects the handler's promise
  before any effect), or a board.  The handler's effects are a list: \<open>SendData\<close> is the
  call of \<open>sendData()\<close> (which posts whatever the document holds at that moment),
  \<open>ApplyEdit b\<close> the \<open>WorkspaceEdit\<close> replacing the text by the serialised \<open>b\<close>,
  \<open>Save\<close> the \<open>document.save()\<close> of \<open>src/unnamed/part_000\<close>.

  The handler awaits \<open>showInputBox\<close> for \<open>add-column\<close> and \<open>add-card\<close>; it is
  therefore two steps: \<open>receive_start\<close> runs up to the prompt and returns the data it
  captured (\<open>awaiting\<close>), \<open>receive_resume\<close> runs from the prompt's answer
  (\<open>None\<close> when the user cancels) and \<open>Date.now()\<close>.  Every branch operation on the
  board is a function returning \<open>None\<close> when it leaves the board unchanged
  (\<open>dirty\<close> stays false).
\<close>

datatype msg =
    Update board
  | DeleteColumn ident
  | RenameColumn ident string
  | AddColumn
  | AddCard ident
  | DeleteCard ident ident
  | MoveColumn ident ident
  | OtherMsg

datatype doc_view = Unparsable | NoColumns | Parsed board

datatype effect = SendData | ApplyEdit board | Save

datatype awaiting = AwaitColumnTitle doc_view | AwaitCardTitle doc_view ident

datatype started = Finished "js_error + effect list" | Prompt awaiting

subsection \<open>The branch operations\<close>

definition deleteColumn :: "ident \<Rightarrow> board \<Rightarrow> board option" where
  "deleteColumn cid b =
     (case find_idx (\<lambda>c. col_id c = cid) (columns b) of
       None \<Rightarrow> None
     | Some index \<Rightarrow> Some (b\<lparr>columns := snd (splice (int index) 1 [] (columns b))\<rparr>))"

definition renameColumn :: "ident \<Rightarrow> string \<Rightarrow> board \<Rightarrow> board option" where
  "renameColumn cid newTitle b =
     (case find_idx (\<lambda>c. col_id c = cid) (columns b) of
       None \<Rightarrow> None
     | Some i \<Rightarrow> Some (b\<lparr>columns := (columns b)[i := (columns b ! i)\<lparr>col_title := newTitle\<rparr>]\<rparr>))"

text \<open>\<open>title.toLowerCase().replace(/[^a-z0-9]/g, '-') + '-' + Date.now()\<close>\<close>

definition slug_char :: "char \<Rightarrow> char" where
  "slug_char c = (if c \<in> set ''abcdefghijklmnopqrstuvwxyz0123456789'' then c else CHR ''-'')"

definition new_column_id :: "string \<Rightarrow> nat \<Rightarrow> ident" where
  "new_column_id title now = map slug_char (toLowerCase title) @ ''-'' @ num_str now"

definition addColumn :: "string \<Rightarrow> nat \<Rightarrow> board \<Rightarrow> board" where
  "addColumn title now b =
     b\<lparr>columns := columns b @ [\<lparr>col_id = new_column_id title now, col_title = title, cards = []\<rparr>]\<rparr>"

definition addCard :: "ident \<Rightarrow> string \<Rightarrow> nat \<Rightarrow> board \<Rightarrow> board option" where
  "addCard cid title now b =
     (case find_idx (\<lambda>c. col_id c = cid) (columns b) of
       None \<Rightarrow> None
     | Some i \<Rightarrow> Some (b\<lparr>columns := (columns b)[i := (columns b ! i)\<lparr>cards :=
                   cards (columns b ! i) @ [\<lparr>card_id = ''card-'' @ num_str now, card_title = title\<rparr>]\<rparr>]\<rparr>))"

definition deleteCard :: "ident \<Rightarrow> ident \<Rightarrow> board \<Rightarrow> board option" where
  "deleteCard cid kid b =
     (case find_idx (\<lambda>c. col_id c = cid) (columns b) of
       None \<Rightarrow> None
     | Some i \<Rightarrow>
         (case find_idx (\<lambda>c. card_id c = kid) (cards (columns b ! i)) of
           None \<Rightarrow> None
         | Some idx \<Rightarrow> Some (b\<lparr>columns := (columns b)[i := (columns b ! i)\<lparr>cards :=
                           snd (splice (int idx) 1 [] (cards (columns b ! i)))\<rparr>]\<rparr>)))"

definition moveColumn :: "ident \<Rightarrow> ident \<Rightarrow> board \<Rightarrow> board option" where
  "moveColumn fromId toId b =
     (let fromIndex = findIndex (\<lambda>c. col_id c = fromId) (columns b);
          toIndex = findIndex (\<lambda>c. col_id c = toId) (columns b)
      in if fromIndex \<noteq> -1 \<and> toIndex \<noteq> -1 \<and> fromIndex \<noteq> toIndex
         then (case splice fromIndex 1 [] (columns b) of
                (removed, rest) \<Rightarrow> Some (b\<lparr>columns := snd (splice toIndex 0 [hd removed] rest)\<rparr>))
         else None)"

text \<open>The edits of the messages that need no prompt; \<open>None\<close> for a message no branch handles.\<close>

fun structural_edit :: "msg \<Rightarrow> board \<Rightarrow> board option" where
  "structural_edit (DeleteColumn cid) b = deleteColumn cid b"
| "structural_edit (RenameColumn cid t) b = renameColumn cid t b"
| "structural_edit (DeleteCard cid kid) b = deleteCard cid kid b"
| "structural_edit (MoveColumn f t) b = moveColumn f t b"
| "structural_edit _ b = None"

subsection \<open>The handler\<close>

definition commit :: "board \<Rightarrow> effect list" where
  "commit data = [ApplyEdit data, Save]"

definition receive_start :: "doc_view \<Rightarrow> msg \<Rightarrow> started" where
  "receive_start dv m =
     (case dv of
       Unparsable \<Rightarrow> Finished (Inr [])
     | _ \<Rightarrow> (case m of
         Update d \<Rightarrow> Finished (Inr (commit d))
       | AddColumn \<Rightarrow> Prompt (AwaitColumnTitle dv)
       | AddCard cid \<Rightarrow> Prompt (AwaitCardTitle dv cid)
       | OtherMsg \<Rightarrow> Finished (Inr [])
       | _ \<Rightarrow> (case dv of
           Parsed b \<Rightarrow> Finished (Inr (case structural_edit m b of None \<Rightarrow> [] | Some b' \<Rightarrow> commit b'))
         | _ \<Rightarrow> Finished (Inl TypeError))))"

text \<open>
  The two awaited branches; \<open>write\<close> is the code after the if-chain that writes a dirty
  board (\<open>commit\<close> here, without the save in the older version of \<open>Legacy\<close>).
\<close>

fun receive_resume :: "(board \<Rightarrow> effect list) \<Rightarrow> awaiting \<Rightarrow> string option \<Rightarrow> nat \<Rightarrow> js_error + effect list" where
  "receive_resume write (AwaitColumnTitle dv) title now =
     (case title of
       None \<Rightarrow> Inr []
     | Some t \<Rightarrow> if t = [] then Inr []
                 else (case dv of
                   Parsed b \<Rightarrow> Inr (SendData # write (addColumn t now b))
                 | _ \<Rightarrow> Inl TypeError))"
| "receive_resume write (AwaitCardTitle dv cid) title now =
     (case title of
       None \<Rightarrow> Inr []
     | Some t \<Rightarrow> if t = [] then Inr []
                 else (case dv of
                   Parsed b \<Rightarrow> (case addCard cid t now b of None \<Rightarrow> Inr [] | Some b' \<Rightarrow> Inr (SendData # write b'))
                 | _ \<Rightarrow> Inl TypeError))"

text \<open>One message handled without interleaving: the prompt answers \<open>title\<close> at time \<open>now\<close>.\<close>

definition onDidReceiveMessage :: "doc_view \<Rightarrow> msg \<Rightarrow> string option \<Rightarrow> nat \<Rightarrow> js_error + effect list" where
  "onDidReceiveMessage dv m title now =
     (case receive_start dv m of Finished r \<Rightarrow> r | Prompt a \<Rightarrow> receive_resume commit a title now)"

subsection \<open>What a message promises\<close>

text \<open>
  The references of a message resolve in the board: the validation step of the spec.
  \<open>update\<close> and \<open>add-column\<close> name no entity.
\<close>

fun resolves :: "msg \<Rightarrow> board \<Rightarrow> bool" where
  "resolves (Update d) b = True"
| "resolves AddColumn b = True"
| "resolves (DeleteColumn cid) b = (cid \<in> set (col_ids b))"
| "resolves (RenameColumn cid t) b = (cid \<in> set (col_ids b))"
| "resolves (AddCard cid) b = (cid \<in> set (col_ids b))"
| "resolves (DeleteCard cid kid) b =
     (case List.find (\<lambda>c. col_id c = cid) (columns b) of
       None \<Rightarrow> False
     | Some c \<Rightarrow> kid \<in> card_id ` set (cards c))"
| "resolves (MoveColumn f t) b = (f \<in> set (col_ids b) \<and> t \<in> set (col_ids b))"
| "resolves OtherMsg b = False"

text \<open>
  What the invariant needs of a message: the board an \<open>update\<close> carries is well formed
  and the identifier \<open>add-column\<close> generates is not taken.
\<close>

fun admissible :: "board \<Rightarrow> msg \<Rightarrow> string option \<Rightarrow> nat \<Rightarrow> bool" where
  "admissible b (Update d) title now = wf_board d"
| "admissible b AddColumn title now = (\<forall>t. title = Some t \<longrightarrow> new_column_id t now \<notin> set (col_ids b))"
| "admissible b _ title now = True"

subsection \<open>Lemmas\<close>

lemma find_col_None: "cid \<notin> set (col_ids b) \<Longrightarrow> find_idx (\<lambda>c. col_id c = cid) (columns b) = None"
  by (auto simp: find_idx_None_iff col_ids_def)

lemma find_col_Some:
  assumes "cid \<in> set (col_ids b)"
  obtains i where "find_idx (\<lambda>c. col_id c = cid) (columns b) = Some i"
    and "i < length (columns b)" and "col_id (columns b ! i) = cid"
proof -
  from assms have "find_idx (\<lambda>c. col_id c = cid) (columns b) \<noteq> None"
    by (auto simp: find_idx_None_iff col_ids_def)
  then obtain i where i: "find_idx (\<lambda>c. col_id c = cid) (columns b) = Some i" by blast
  with find_idx_Some [OF i] show ?thesis using that by blast
qed

lemma start_Parsed:
  "receive_start (Parsed b) m =
     (case m of
       Update d \<Rightarrow> Finished (Inr (commit d))
     | AddColumn \<Rightarrow> Prompt (AwaitColumnTitle (Parsed b))
     | AddCard cid \<Rightarrow> Prompt (AwaitCardTitle (Parsed b) cid)
     | OtherMsg \<Rightarrow> Finished (Inr [])
     | _ \<Rightarrow> Finished (Inr (case structural_edit m b of None \<Rightarrow> [] | Some b' \<Rightarrow> commit b')))"
  by (cases m) (simp_all add: receive_start_def)

text \<open>C11: A message whose column or card ids do not resolve in the current board is dropped: the handler performs no effect.\<close>

theorem stale_message_noop:
  assumes "\<not> resolves m b"
  shows "onDidReceiveMessage (Parsed b) m title now = Inr []"
proof (cases m)
  case (DeleteColumn cid)
  with assms show ?thesis
    by (simp add: onDidReceiveMessage_def start_Parsed deleteColumn_def find_col_None)
next
  case (RenameColumn cid t)
  with assms show ?thesis
    by (simp add: onDidReceiveMessage_def start_Parsed renameColumn_def find_col_None)
next
  case (AddCard cid)
  with assms show ?thesis
    by (simp add: onDidReceiveMessage_def start_Parsed addCard_def find_col_None split: option.splits)
next
  case (DeleteCard cid kid)
  show ?thesis
  proof (cases "find_idx (\<lambda>c. col_id c = cid) (columns b)")
    case None
    with DeleteCard show ?thesis by (simp add: onDidReceiveMessage_def start_Parsed deleteCard_def)
  next
    case (Some i)
    with assms DeleteCard have "kid \<notin> card_id ` set (cards (columns b ! i))"
      by (simp add: find_idx_find)
    then have "find_idx (\<lambda>c. card_id c = kid) (cards (columns b ! i)) = None"
      by (auto simp: find_idx_None_iff)
    with Some DeleteCard show ?thesis by (simp add: onDidReceiveMessage_def start_Parsed deleteCard_def)
  qed
next
  case (MoveColumn f t)
  with assms show ?thesis
    by (auto simp: onDidReceiveMessage_def start_Parsed moveColumn_def find_col_None findIndex_None)
qed (use assms in \<open>simp_all add: onDidReceiveMessage_def start_Parsed\<close>)

theorem stale_message_noop_witness:
  "onDidReceiveMessage (Parsed scenario_board) (DeleteCard ''a'' ''c9'') None 0 = Inr []"
proof -
  have "\<not> resolves (DeleteCard ''a'' ''c9'') scenario_board" by (simp add: scenario_board_def)
  then show ?thesis by (rule stale_message_noop)
qed

text \<open>C12: delete-column on a board with unique column ids writes and saves the board without that column; all other columns are untouched.\<close>

theorem delete_column_removes:
  assumes wf: "wf_board b" and cid: "cid \<in> set (col_ids b)"
  shows "onDidReceiveMessage (Parsed b) (DeleteColumn cid) title now =
         Inr (commit (b\<lparr>columns := filter (\<lambda>c. col_id c \<noteq> cid) (columns b)\<rparr>))"
proof -
  obtain i where i: "find_idx (\<lambda>c. col_id c = cid) (columns b) = Some i"
    and lt: "i < length (columns b)" and ci: "col_id (columns b ! i) = cid"
    using cid by (rule find_col_Some)
  have "distinct (map col_id (columns b))" using wf by (simp add: wf_board_def col_ids_def)
  from remove_at_filter [OF this lt] ci
  have "take i (columns b) @ drop (Suc i) (columns b) = filter (\<lambda>c. col_id c \<noteq> cid) (columns b)"
    by simp
  with i lt show ?thesis
    by (simp add: onDidReceiveMessage_def start_Parsed deleteColumn_def js_array)
qed

text \<open>rename-column of an existing column writes and saves the board with that column's title replaced by newTitle, whatever newTitle is.\<close>

theorem rename_column_sets_title:
  assumes wf: "wf_board b" and cid: "cid \<in> set (col_ids b)"
  shows "onDidReceiveMessage (Parsed b) (RenameColumn cid newTitle) title now =
         Inr (commit (b\<lparr>columns := map (\<lambda>c. if col_id c = cid then c\<lparr>col_title := newTitle\<rparr> else c) (columns b)\<rparr>))"
proof -
  obtain i where i: "find_idx (\<lambda>c. col_id c = cid) (columns b) = Some i"
    and lt: "i < length (columns b)" and ci: "col_id (columns b ! i) = cid"
    using cid by (rule find_col_Some)
  have "distinct (map col_id (columns b))" using wf by (simp add: wf_board_def col_ids_def)
  from update_by_key [OF this lt, of "\<lambda>c. c\<lparr>col_title := newTitle\<rparr>"] ci
  have "(columns b)[i := (columns b ! i)\<lparr>col_title := newTitle\<rparr>] =
        map (\<lambda>c. if col_id c = cid then c\<lparr>col_title := newTitle\<rparr> else c) (columns b)"
    by simp
  with i show ?thesis
    by (simp add: onDidReceiveMessage_def start_Parsed renameColumn_def)
qed

text \<open>The handler accepts a whitespace-only newTitle: rename-column of column a to three spaces writes a board whose column a has the blank title.\<close>

theorem rename_column_accepts_blank:
  "\<exists>b'. onDidReceiveMessage (Parsed scenario_board) (RenameColumn ''a'' ''   '') None 0 = Inr (commit b') \<and>
        col_title (columns b' ! 0) = ''   ''"
  by (simp add: onDidReceiveMessage_def start_Parsed renameColumn_def scenario_board_def commit_def)

lemma moveColumn_Some:
  assumes fi: "find_idx (\<lambda>c. col_id c = f) (columns b) = Some fi"
    and ti: "find_idx (\<lambda>c. col_id c = t) (columns b) = Some ti"
    and ne: "fi \<noteq> ti"
  shows "moveColumn f t b =
    Some (b\<lparr>columns := (let rest = take fi (columns b) @ drop (Suc fi) (columns b)
                        in take ti rest @ columns b ! fi # drop ti rest)\<rparr>)"
proof -
  let ?rest = "take fi (columns b) @ drop (Suc fi) (columns b)"
  have fi_lt: "fi < length (columns b)" using find_idx_Some [OF fi] by simp
  have ti_lt: "ti < length (columns b)" using find_idx_Some [OF ti] by simp
  have "ti \<le> length ?rest" using fi_lt ti_lt by simp
  then have "snd (splice (int ti) 0 [columns b ! fi] ?rest) = take ti ?rest @ columns b ! fi # drop ti ?rest"
    by (rule splice_insert)
  with fi ti ne fi_lt show ?thesis
    by (simp add: moveColumn_def findIndex_Some js_array Let_def)
qed

text \<open>C14: move-column with two distinct resolving ids writes a permutation of the columns in which the moved column sits at the original index of the column it was dropped on.\<close>

theorem move_column_lands_at_target:
  assumes fi: "find_idx (\<lambda>c. col_id c = f) (columns b) = Some fi"
    and ti: "find_idx (\<lambda>c. col_id c = t) (columns b) = Some ti"
    and ne: "fi \<noteq> ti"
  shows "\<exists>b'. onDidReceiveMessage (Parsed b) (MoveColumn f t) title now = Inr (commit b') \<and>
              columns b' ! ti = columns b ! fi \<and> mset (columns b') = mset (columns b)"
proof -
  define rest where "rest = take fi (columns b) @ drop (Suc fi) (columns b)"
  have fi_lt: "fi < length (columns b)" using find_idx_Some [OF fi] by simp
  have ti_lt: "ti < length (columns b)" using find_idx_Some [OF ti] by simp
  have len: "length (take ti rest) = ti" using fi_lt ti_lt by (simp add: rest_def)
  have "mset (columns b) = mset rest + {#columns b ! fi#}"
  proof -
    have "mset (take fi (columns b) @ columns b ! fi # drop (Suc fi) (columns b)) = mset rest + {#columns b ! fi#}"
      by (simp add: rest_def)
    then show ?thesis by (metis id_take_nth_drop [OF fi_lt])
  qed
  then have "mset (take ti rest @ columns b ! fi # drop ti rest) = mset (columns b)"
    by (metis add_mset_add_single append_take_drop_id mset.simps(2) mset_append union_mset_add_mset_right)
  moreover have "(take ti rest @ columns b ! fi # drop ti rest) ! ti = columns b ! fi"
    using len by (metis nth_append_length)
  moreover have "moveColumn f t b = Some (b\<lparr>columns := take ti rest @ columns b ! fi # drop ti rest\<rparr>)"
    using moveColumn_Some [OF fi ti ne] by (simp add: rest_def Let_def)
  ultimately show ?thesis
    by (simp add: onDidReceiveMessage_def start_Parsed commit_def)
qed

text \<open>A move-column with fromId equal to toId performs no effect.\<close>

theorem move_column_self_noop:
  "onDidReceiveMessage (Parsed b) (MoveColumn c c) title now = Inr []"
  by (simp add: onDidReceiveMessage_def start_Parsed moveColumn_def)

text \<open>C15: When the title prompt of add-column or add-card is cancelled or answered with an empty string, the handler performs no effect, whatever the document holds.\<close>

theorem prompt_cancelled_noop:
  assumes "title = None \<or> title = Some []"
  shows "onDidReceiveMessage dv AddColumn title now = Inr [] \<and>
         onDidReceiveMessage dv (AddCard cid) title now = Inr []"
  using assms by (cases dv) (auto simp: onDidReceiveMessage_def receive_start_def)

text \<open>C20: A confirmed add-column appends a column with id slug(title)-now, and calls sendData before the edit is applied, so the forced refresh posts the pre-edit document.\<close>

theorem add_column_refresh_before_edit:
  assumes "t \<noteq> []"
  shows "onDidReceiveMessage (Parsed b) AddColumn (Some t) now =
         Inr [SendData, ApplyEdit (b\<lparr>columns := columns b @ [\<lparr>col_id = new_column_id t now, col_title = t, cards = []\<rparr>]\<rparr>), Save]"
  using assms by (simp add: onDidReceiveMessage_def start_Parsed commit_def addColumn_def)

lemma mset_reinsert:
  assumes "i < length xs"
  shows "mset (take j (take i xs @ drop (Suc i) xs) @ xs ! i # drop j (take i xs @ drop (Suc i) xs)) = mset xs"
proof -
  let ?rest = "take i xs @ drop (Suc i) xs"
  have "mset (take i xs @ xs ! i # drop (Suc i) xs) = mset ?rest + {#xs ! i#}" by simp
  then have "mset xs = mset ?rest + {#xs ! i#}" by (metis id_take_nth_drop [OF assms])
  moreover have "mset (take j ?rest @ xs ! i # drop j ?rest) = mset ?rest + {#xs ! i#}"
    by (metis add_mset_add_single append_take_drop_id mset.simps(2) mset_append union_mset_add_mset_right)
  ultimately show ?thesis by simp
qed

lemma findIndex_not_minus_one:
  assumes "findIndex p xs \<noteq> -1"
  obtains i where "find_idx p xs = Some i" and "findIndex p xs = int i"
  using assms by (cases "find_idx p xs") (auto simp: findIndex_def)

lemma moveColumn_mset:
  assumes "moveColumn f t b = Some b'"
  shows "mset (columns b') = mset (columns b)"
proof -
  from assms have "findIndex (\<lambda>c. col_id c = f) (columns b) \<noteq> -1"
    and "findIndex (\<lambda>c. col_id c = t) (columns b) \<noteq> -1"
    and ne: "findIndex (\<lambda>c. col_id c = f) (columns b) \<noteq> findIndex (\<lambda>c. col_id c = t) (columns b)"
    by (auto simp: moveColumn_def Let_def split: if_splits)
  then obtain fi ti where fi: "find_idx (\<lambda>c. col_id c = f) (columns b) = Some fi"
    and ti: "find_idx (\<lambda>c. col_id c = t) (columns b) = Some ti" and "fi \<noteq> ti"
    by (metis findIndex_not_minus_one)
  define rest where "rest = take fi (columns b) @ drop (Suc fi) (columns b)"
  have lt: "fi < length (columns b)" using find_idx_Some [OF fi] by simp
  have "moveColumn f t b = Some (b\<lparr>columns := take ti rest @ columns b ! fi # drop ti rest\<rparr>)"
    using moveColumn_Some [OF fi ti \<open>fi \<noteq> ti\<close>] by (simp only: rest_def Let_def)
  with assms have "columns b' = take ti rest @ columns b ! fi # drop ti rest" by auto
  with mset_reinsert [OF lt, of ti] show ?thesis by (simp only: rest_def)
qed

lemma wf_board_mset_columns:
  "mset (columns b') = mset (columns b) \<Longrightarrow> wf_board b' = wf_board b"
  unfolding wf_board_def col_ids_def by (metis mset_eq_imp_distinct_iff mset_map)

lemma col_ids_update_some:
  assumes i: "find_idx (\<lambda>c. col_id c = cid) (columns b) = Some i" and c: "col_id c = col_id (columns b ! i)"
  shows "col_ids (b\<lparr>columns := (columns b)[i := c]\<rparr>) = col_ids b"
proof -
  have "i < length (columns b)" using find_idx_Some [OF i] by simp
  from col_ids_update [OF this c] show ?thesis by (simp add: col_ids_def)
qed

lemma deleteColumn_wf:
  assumes "deleteColumn cid b = Some b'" and wf: "wf_board b"
  shows "wf_board b'"
proof -
  from assms obtain i where i: "find_idx (\<lambda>c. col_id c = cid) (columns b) = Some i"
    and b': "b' = b\<lparr>columns := snd (splice (int i) 1 [] (columns b))\<rparr>"
    by (auto simp: deleteColumn_def split: option.splits)
  have lt: "i < length (columns b)" using find_idx_Some [OF i] by simp
  have dist: "distinct (map col_id (columns b))" using wf by (simp add: wf_board_def col_ids_def)
  have "columns b' = take i (columns b) @ drop (Suc i) (columns b)"
    using b' splice_remove_one [OF lt] by simp
  also have "\<dots> = filter (\<lambda>c. col_id c \<noteq> col_id (columns b ! i)) (columns b)"
    by (rule remove_at_filter [OF dist lt])
  finally show ?thesis using dist by (simp add: wf_board_def col_ids_def distinct_map_filter)
qed

lemma renameColumn_col_ids: "renameColumn cid t b = Some b' \<Longrightarrow> col_ids b' = col_ids b"
  by (auto simp: renameColumn_def col_ids_update_some split: option.splits)

lemma deleteCard_col_ids: "deleteCard cid kid b = Some b' \<Longrightarrow> col_ids b' = col_ids b"
  by (auto simp: deleteCard_def col_ids_update_some split: option.splits)

lemma addCard_col_ids: "addCard cid t now b = Some b' \<Longrightarrow> col_ids b' = col_ids b"
  by (auto simp: addCard_def col_ids_update_some split: option.splits)

lemma structural_edit_wf:
  assumes "structural_edit m b = Some b'" and wf: "wf_board b"
  shows "wf_board b'"
  using assms
proof (cases m)
  case (DeleteColumn cid)
  with assms show ?thesis using deleteColumn_wf by simp
next
  case (RenameColumn cid t)
  with assms show ?thesis using renameColumn_col_ids by (simp add: wf_board_def)
next
  case (DeleteCard cid kid)
  with assms show ?thesis using deleteCard_col_ids by (simp add: wf_board_def)
next
  case (MoveColumn f t)
  with assms have "mset (columns b') = mset (columns b)" by (simp add: moveColumn_mset)
  with wf show ?thesis by (metis wf_board_mset_columns)
qed simp_all

lemma structural_effects:
  assumes "onDidReceiveMessage (Parsed b) m title now = Inr effs" and "ApplyEdit b' \<in> set effs"
    and "m \<notin> range Update" and "m \<noteq> AddColumn" and "m \<notin> range AddCard"
  shows "structural_edit m b = Some b'"
  using assms by (cases m) (auto simp: onDidReceiveMessage_def start_Parsed commit_def split: option.splits)

text \<open>C6: Every board the message handler writes to the document has unique column ids, given that the document's board has, an update carries a well-formed board and the generated column id is fresh.\<close>

theorem handler_preserves_wf:
  assumes wf: "wf_board b" and adm: "admissible b m title now"
    and run: "onDidReceiveMessage (Parsed b) m title now = Inr effs" and edit: "ApplyEdit b' \<in> set effs"
  shows "wf_board b'"
proof (cases m)
  case (Update d)
  with run edit adm show ?thesis by (auto simp: onDidReceiveMessage_def start_Parsed commit_def)
next
  case AddColumn
  with run edit obtain t where "title = Some t" "t \<noteq> []" "b' = addColumn t now b"
    by (auto simp: onDidReceiveMessage_def start_Parsed commit_def split: option.splits if_splits)
  with adm AddColumn wf show ?thesis
    by (simp add: addColumn_def wf_board_def col_ids_def)
next
  case (AddCard cid)
  with run edit have "addCard cid (the title) now b = Some b'"
    by (auto simp: onDidReceiveMessage_def start_Parsed commit_def split: option.splits if_splits)
  with wf show ?thesis
    by (auto simp: addCard_def wf_board_def col_ids_update_some split: option.splits)
next
  case OtherMsg
  with run edit show ?thesis by (simp add: onDidReceiveMessage_def start_Parsed)
qed (use structural_effects [OF run edit] structural_edit_wf wf in blast)+

theorem handler_preserves_wf_witness:
  "onDidReceiveMessage (Parsed scenario_board) AddColumn (Some ''Z'') 1 =
     Inr [SendData, ApplyEdit (addColumn ''Z'' 1 scenario_board), Save] \<and>
   wf_board (addColumn ''Z'' 1 scenario_board)"
proof -
  have wf: "wf_board scenario_board" by (simp add: scenario_board_def wf_board_def col_ids_def)
  have adm: "admissible scenario_board AddColumn (Some ''Z'') 1"
    by (simp add: scenario_board_def col_ids_def new_column_id_def slug_char_def js_string_eval)
  have run: "onDidReceiveMessage (Parsed scenario_board) AddColumn (Some ''Z'') 1 =
     Inr [SendData, ApplyEdit (addColumn ''Z'' 1 scenario_board), Save]"
    by (simp add: onDidReceiveMessage_def start_Parsed commit_def)
  have "wf_board (addColumn ''Z'' 1 scenario_board)"
    by (rule handler_preserves_wf [OF wf adm run]) simp
  with run show ?thesis by simp
qed

text \<open>C21: The generated column id is not checked against existing ids: on every board that already has a column with id slug(title)-now, a confirmed add-column writes a board in which two columns share that id.\<close>

theorem add_column_duplicate_id:
  assumes "new_column_id t now \<in> set (col_ids b)" and "t \<noteq> []"
  shows "\<exists>b'. onDidReceiveMessage (Parsed b) AddColumn (Some t) now = Inr [SendData, ApplyEdit b', Save] \<and>
           \<not> wf_board b'"
  using assms by (simp add: onDidReceiveMessage_def start_Parsed commit_def addColumn_def wf_board_def col_ids_def)

theorem delete_column_removes_witness:
  "onDidReceiveMessage (Parsed scenario_board) (DeleteColumn ''a'') None 0 =
   Inr (commit \<lparr>columns = [\<lparr>col_id = ''b'', col_title = ''B'', cards = []\<rparr>]\<rparr>)"
proof -
  have "wf_board scenario_board" and "''a'' \<in> set (col_ids scenario_board)"
    by (simp_all add: scenario_board_def wf_board_def col_ids_def)
  from delete_column_removes [OF this, of None 0] show ?thesis by (simp add: scenario_board_def)
qed

theorem rename_column_sets_title_witness:
  "onDidReceiveMessage (Parsed scenario_board) (RenameColumn ''b'' ''Done'') None 0 =
   Inr (commit (scenario_board\<lparr>columns := [columns scenario_board ! 0,
                  \<lparr>col_id = ''b'', col_title = ''Done'', cards = []\<rparr>]\<rparr>))"
proof -
  have "wf_board scenario_board" and "''b'' \<in> set (col_ids scenario_board)"
    by (simp_all add: scenario_board_def wf_board_def col_ids_def)
  from rename_column_sets_title [OF this, of "''Done''" None 0] show ?thesis by (simp add: scenario_board_def)
qed

theorem move_column_lands_at_target_witness:
  "\<exists>b'. onDidReceiveMessage (Parsed scenario_board) (MoveColumn ''a'' ''b'') None 0 = Inr (commit b') \<and>
        columns b' ! 1 = columns scenario_board ! 0"
proof -
  have "find_idx (\<lambda>c. col_id c = ''a'') (columns scenario_board) = Some 0"
    and "find_idx (\<lambda>c. col_id c = ''b'') (columns scenario_board) = Some 1"
    by (simp_all add: scenario_board_def)
  from move_column_lands_at_target [OF this, of None 0] show ?thesis by auto
qed

theorem prompt_cancelled_noop_witness:
  "onDidReceiveMessage (Parsed scenario_board) AddColumn None 0 = Inr [] \<and>
   onDidReceiveMessage (Parsed scenario_board) (AddCard ''a'') (Some []) 0 = Inr []"
  using prompt_cancelled_noop [of None "Parsed scenario_board" 0 "''a''"]
        prompt_cancelled_noop [of "Some []" "Parsed scenario_board" 0 "''a''"] by simp

theorem add_column_refresh_before_edit_witness:
  "onDidReceiveMessage (Parsed scenario_board) AddColumn (Some ''Z'') 1 =
   Inr [SendData, ApplyEdit (scenario_board\<lparr>columns := columns scenario_board @
          [\<lparr>col_id = new_column_id ''Z'' 1, col_title = ''Z'', cards = []\<rparr>]\<rparr>), Save]"
  by (rule add_column_refresh_before_edit) simp

theorem add_column_duplicate_id_witness:
  "\<exists>b'. onDidReceiveMessage (Parsed \<lparr>columns = [\<lparr>col_id = ''x-5'', col_title = ''x'', cards = []\<rparr>]\<rparr>)
          AddColumn (Some ''X'') 5 = Inr [SendData, ApplyEdit b', Save] \<and> \<not> wf_board b'"
proof -
  have "new_column_id ''X'' 5 \<in> set (col_ids \<lparr>columns = [\<lparr>col_id = ''x-5'', col_title = ''x'', cards = []\<rparr>]\<rparr>)"
    by (simp add: new_column_id_def slug_char_def js_string_eval col_ids_def)
  from add_column_duplicate_id [OF this] show ?thesis by simp
qed

end
