(* ===== verification/Legacy.thy ===== *)
theory Legacy
  imports Reorder Dispatcher
begin

text \<open>
  The older versions of the extension.  \<open>src/extension.js\<close> has the same handler as
  \<open>src/unnamed/part_000\<close> without the \<open>move-column\<close> branch and without
  \<open>document.save()\<close>, and a webview \<open>moveCard(fromId, toId, cardId)\<close> that only appends
  to another column (its drop handler is in \<open>Webview\<close>).  The oldest version (the second file of \<open>src/unnamed/part_001\<close>)
  handles only \<open>update\<close> and its \<open>moveCard\<close> has no \<open>index === -1\<close> guard.  The
  theorems relate each to the newest version where they agree and show where they
  differ.
\<close>

subsection \<open>The handler of src/extension.js\<close>

definition commit_v2 :: "board \<Rightarrow> effect list" where
  "commit_v2 data = [ApplyEdit data]"

fun structural_edit_v2 :: "msg \<Rightarrow> board \<Rightarrow> board option" where
  "structural_edit_v2 (DeleteColumn cid) b = deleteColumn cid b"
| "structural_edit_v2 (RenameColumn cid t) b = renameColumn cid t b"
| "structural_edit_v2 (DeleteCard cid kid) b = deleteCard cid kid b"
| "structural_edit_v2 _ b = None"

definition receive_start_v2 :: "doc_view \<Rightarrow> msg \<Rightarrow> started" where
  "receive_start_v2 dv m =
     (case dv of
       Unparsable \<Rightarrow> Finished (Inr [])
     | _ \<Rightarrow> (case m of
         Update d \<Rightarrow> Finished (Inr (commit_v2 d))
       | AddColumn \<Rightarrow> Prompt (AwaitColumnTitle dv)
       | AddCard cid \<Rightarrow> Prompt (AwaitCardTitle dv cid)
       | MoveColumn f t \<Rightarrow> Finished (Inr [])
       | OtherMsg \<Rightarrow> Finished (Inr [])
       | _ \<Rightarrow> (case dv of
           Parsed b \<Rightarrow> Finished (Inr (case structural_edit_v2 m b of None \<Rightarrow> [] | Some b' \<Rightarrow> commit_v2 b'))
         | _ \<Rightarrow> Finished (Inl TypeError))))"

definition onDidReceiveMessage_v2 :: "doc_view \<Rightarrow> msg \<Rightarrow> string option \<Rightarrow> nat \<Rightarrow> js_error + effect list" where
  "onDidReceiveMessage_v2 dv m title now =
     (case receive_start_v2 dv m of Finished r \<Rightarrow> r | Prompt a \<Rightarrow> receive_resume commit_v2 a title now)"

subsection \<open>The webview moveCard of src/extension.js\<close>

definition moveCard_v2 :: "ident \<Rightarrow> ident \<Rightarrow> ident \<Rightarrow> board \<Rightarrow> (js_error \<times> board) + board" where
  "moveCard_v2 fromId toId cardId st =
     (if fromId = toId then Inr st
      else let cols = columns st;
               fromCol = find_idx (\<lambda>c. col_id c = fromId) cols;
               toCol = find_idx (\<lambda>c. col_id c = toId) cols
           in case fromCol of
             None \<Rightarrow> Inl (TypeError, st)
           | Some fi \<Rightarrow>
               (case find_idx (\<lambda>c. card_id c = cardId) (cards (cols ! fi)) of
                 None \<Rightarrow> Inr st
               | Some index \<Rightarrow>
                   (case splice (int index) 1 [] (cards (cols ! fi)) of
                     (removed, rest) \<Rightarrow>
                       (let cols1 = cols[fi := (cols ! fi)\<lparr>cards := rest\<rparr>]
                        in case toCol of
                          None \<Rightarrow> Inl (TypeError, st\<lparr>columns := cols1\<rparr>)
                        | Some ti \<Rightarrow> Inr (st\<lparr>columns := cols1[ti := (cols1 ! ti)\<lparr>cards := cards (cols1 ! ti) @ [hd removed]\<rparr>]\<rparr>)))))"

subsection \<open>The oldest version (second file of src/unnamed/part_001)\<close>

definition onDidReceiveMessage_v1 :: "msg \<Rightarrow> effect list" where
  "onDidReceiveMessage_v1 m = (case m of Update d \<Rightarrow> [ApplyEdit d] | _ \<Rightarrow> [])"

text \<open>
  Without the guard, \<open>findIndex\<close>'s \<open>-1\<close> goes to \<open>splice\<close>, which then removes the
  last card.  On an empty source column nothing is removed and \<open>undefined\<close> is pushed;
  the typed model stops there with an error value.
\<close>

definition moveCard_v1 :: "ident \<Rightarrow> ident \<Rightarrow> ident \<Rightarrow> board \<Rightarrow> (js_error \<times> board) + board" where
  "moveCard_v1 fromId toId cardId st =
     (if fromId = toId then Inr st
      else let cols = columns st;
               fromCol = find_idx (\<lambda>c. col_id c = fromId) cols;
               toCol = find_idx (\<lambda>c. col_id c = toId) cols
           in case fromCol of
             None \<Rightarrow> Inl (TypeError, st)
           | Some fi \<Rightarrow>
               (let index = findIndex (\<lambda>c. card_id c = cardId) (cards (cols ! fi))
                in case splice index 1 [] (cards (cols ! fi)) of
                  (removed, rest) \<Rightarrow>
                    (let cols1 = cols[fi := (cols ! fi)\<lparr>cards := rest\<rparr>]
                     in case (toCol, removed) of
                       (None, _) \<Rightarrow> Inl (TypeError, st\<lparr>columns := cols1\<rparr>)
                     | (Some ti, [moved]) \<Rightarrow> Inr (st\<lparr>columns := cols1[ti := (cols1 ! ti)\<lparr>cards := cards (cols1 ! ti) @ [moved]\<rparr>]\<rparr>)
                     | (Some ti, _) \<Rightarrow> Inl (TypeError, st\<lparr>columns := cols1\<rparr>))))"

subsection \<open>The older handler against the newest\<close>

lemma commit_v2_filter: "filter (\<lambda>e. e \<noteq> Save) (commit b) = commit_v2 b"
  by (simp add: commit_def commit_v2_def)

lemma receive_resume_filter:
  "receive_resume (\<lambda>b. filter (\<lambda>e. e \<noteq> Save) (w b)) a t n =
   map_sum id (filter (\<lambda>e. e \<noteq> Save)) (receive_resume w a t n)"
  by (cases a) (auto split: option.splits doc_view.splits)

text \<open>The handler of src/extension.js ignores move-column and on every other message produces exactly the effects of the newest handler with the document save removed.\<close>

theorem legacy_handler_is_newest_without_save:
  "onDidReceiveMessage_v2 dv m title now =
     (case m of
       MoveColumn f t \<Rightarrow> Inr []
     | _ \<Rightarrow> map_sum id (filter (\<lambda>e. e \<noteq> Save)) (onDidReceiveMessage dv m title now))"
proof -
  have resume: "receive_resume commit_v2 a title now =
      map_sum id (filter (\<lambda>e. e \<noteq> Save)) (receive_resume commit a title now)" for a
    using receive_resume_filter [of commit a title now] by (simp add: commit_v2_filter)
  show ?thesis
    by (cases m; cases dv)
       (simp_all add: onDidReceiveMessage_v2_def onDidReceiveMessage_def receive_start_v2_def
                      receive_start_def resume commit_v2_filter split: option.splits)
qed

subsection \<open>The older moveCard against the newest\<close>

lemma splice_append [js_array]: "snd (splice (int (length xs)) 0 [x] xs) = xs @ [x]"
  by (simp add: splice_def)

lemma moveCard_v2_eq:
  "moveCard_v2 fromId toId cardId st = (if fromId = toId then Inr st else moveCard fromId toId cardId None st)"
  by (simp add: moveCard_v2_def moveCard_def final_index_def splice_append Let_def split: option.splits prod.splits)

lemma moveCard_v2_mset:
  "moveCard_v2 fromId toId cardId st = Inr st' \<Longrightarrow> mset (all_cards st') = mset (all_cards st)"
  by (auto simp: moveCard_v2_eq split: if_splits dest: moveCard_mset)

lemma moveCard_v2_col_ids:
  "moveCard_v2 fromId toId cardId st = Inr st' \<Longrightarrow> col_ids st' = col_ids st"
  by (auto simp: moveCard_v2_eq split: if_splits dest: moveCard_col_ids)

text \<open>Across two different columns, the moveCard of src/extension.js is the newest moveCard with no index given: the card is appended to the end of the target column.\<close>

theorem moveCard_v2_appends:
  "fromId \<noteq> toId \<Longrightarrow> moveCard_v2 fromId toId cardId st = moveCard fromId toId cardId None st"
  by (simp add: moveCard_v2_eq)

text \<open>C29: The oldest moveCard has no index guard: given a card id its source column no longer holds, findIndex's -1 makes splice remove the column's last card, which is moved to the target column instead.\<close>

theorem moveCard_v1_moves_last_card:
  assumes ne: "fromId \<noteq> toId"
    and fi: "find_idx (\<lambda>c. col_id c = fromId) (columns st) = Some fi"
    and missing: "find_idx (\<lambda>c. card_id c = cardId) (cards (columns st ! fi)) = None"
    and last: "cards (columns st ! fi) = xs @ [c]"
    and ti: "find_idx (\<lambda>c. col_id c = toId) (columns st) = Some ti"
  shows "moveCard_v1 fromId toId cardId st =
    (let cols1 = (columns st)[fi := (columns st ! fi)\<lparr>cards := xs\<rparr>]
     in Inr (st\<lparr>columns := cols1[ti := (cols1 ! ti)\<lparr>cards := cards (cols1 ! ti) @ [c]\<rparr>]\<rparr>))"
proof -
  have "splice (-1) 1 [] (xs @ [c]) = ([c], xs)"
    by (simp add: splice_def rel_start_def)
  with fi missing last ti ne show ?thesis
    by (simp add: moveCard_v1_def findIndex_None Let_def)
qed

text \<open>When the dragged card is found in its source column, the oldest moveCard and the one of src/extension.js give the same result.\<close>

theorem moveCard_v1_agrees_when_found:
  assumes "find_idx (\<lambda>c. col_id c = fromId) (columns st) = Some fi"
    and "find_idx (\<lambda>c. card_id c = cardId) (cards (columns st ! fi)) = Some k"
  shows "moveCard_v1 fromId toId cardId st = moveCard_v2 fromId toId cardId st"
proof -
  from assms(2) have k: "k < length (cards (columns st ! fi))" by (simp add: find_idx_Some_iff)
  with assms show ?thesis
    by (simp add: moveCard_v1_def moveCard_v2_def findIndex_Some splice_remove_Suc0 Let_def
             split: option.splits)
qed

subsection \<open>Witnesses\<close>

theorem moveCard_v2_appends_witness:
  "''a'' \<noteq> ''b'' \<and>
   moveCard_v2 ''a'' ''b'' ''c1'' scenario_board = moveCard ''a'' ''b'' ''c1'' None scenario_board"
  using moveCard_v2_appends [of "''a''" "''b''" "''c1''" scenario_board] by simp

theorem moveCard_v1_moves_last_card_witness:
  "''a'' \<noteq> ''b'' \<and>
   find_idx (\<lambda>c. col_id c = ''a'') (columns scenario_board) = Some 0 \<and>
   find_idx (\<lambda>c. card_id c = ''zz'') (cards (columns scenario_board ! 0)) = None \<and>
   find_idx (\<lambda>c. col_id c = ''b'') (columns scenario_board) = Some 1 \<and>
   moveCard_v1 ''a'' ''b'' ''zz'' scenario_board =
     Inr \<lparr>columns = [\<lparr>col_id = ''a'', col_title = ''A'', cards = [\<lparr>card_id = ''c1'', card_title = ''X''\<rparr>]\<rparr>,
                     \<lparr>col_id = ''b'', col_title = ''B'', cards = [\<lparr>card_id = ''c2'', card_title = ''Y''\<rparr>]\<rparr>]\<rparr>"
proof -
  have fi: "find_idx (\<lambda>c. col_id c = ''a'') (columns scenario_board) = Some 0"
    and missing: "find_idx (\<lambda>c. card_id c = ''zz'') (cards (columns scenario_board ! 0)) = None"
    and last: "cards (columns scenario_board ! 0) = [\<lparr>card_id = ''c1'', card_title = ''X''\<rparr>] @ [\<lparr>card_id = ''c2'', card_title = ''Y''\<rparr>]"
    and ti: "find_idx (\<lambda>c. col_id c = ''b'') (columns scenario_board) = Some 1"
    by (simp_all add: scenario_board_def)
  from moveCard_v1_moves_last_card [OF _ fi missing last ti] fi missing ti show ?thesis
    by (simp add: scenario_board_def)
qed

theorem moveCard_v1_agrees_when_found_witness:
  "find_idx (\<lambda>c. col_id c = ''a'') (columns scenario_board) = Some 0 \<and>
   find_idx (\<lambda>c. card_id c = ''c2'') (cards (columns scenario_board ! 0)) = Some 1 \<and>
   moveCard_v1 ''a'' ''b'' ''c2'' scenario_board = moveCard_v2 ''a'' ''b'' ''c2'' scenario_board"
proof -
  have fi: "find_idx (\<lambda>c. col_id c = ''a'') (columns scenario_board) = Some 0"
    and k: "find_idx (\<lambda>c. card_id c = ''c2'') (cards (columns scenario_board ! 0)) = Some 1"
    by (simp_all add: scenario_board_def)
  with moveCard_v1_agrees_when_found [OF fi k] show ?thesis by simp
qed

end
