(* ===== verification/Webview.thy ===== *)
theory Webview
  imports Legacy
begin

text \<open>
  The webview script inside \<open>getHtml\<close> (the Render Mirror of the spec).  The page keeps
  \<open>state\<close> (the board last posted by the host, mutated in place by \<open>moveCard\<close>), the DOM
  built by the last \<open>render()\<close>, and the drag context.  The DOM is represented by the
  columns it was rendered from: every handler \<open>render()\<close> attaches is a closure over the
  \<open>col\<close> and \<open>card\<close> objects of that render and reads only their \<open>id\<close> and \<open>title\<close>,
  which no code of the page changes, so the list of rendered columns determines what
  each element does.  An event names an element by its position in that DOM.

  Each event is one step: it returns the page and the messages posted to the host, or
  the exception a handler throws with the page as it was at the throw.  A handler that
  throws does not stop the page; the run \<open>wv_run\<close> goes on with the next event.  This
  theory models the scripts of \<open>src/extension.js\<close> (\<open>webview_step_v2\<close>) and of the
  second file of \<open>src/unnamed/part_001\<close> (\<open>webview_step_v1\<close>); \<open>Webview_Main\<close> the
  pages with column drags.
\<close>

subsection \<open>Page state and events\<close>

record ('d, 'f) page =
  state :: "board option"
  rendered :: "column list option"
  dragged :: 'd
  fromColumn :: 'f

text \<open>The page of src/extension.js: \<open>let dragged = null; let fromColumn = null;\<close>\<close>

type_synonym page_v2 = "(card option, ident option) page"

text \<open>
  \<open>rendered = None\<close>: the board element is empty (nothing rendered yet, or the last
  \<open>render()\<close> threw right after clearing it), so no element exists, not even the
  add-column button.  A posted object without a \<open>columns\<close> array is stored as
  \<open>state = None\<close>: \<open>render()\<close> throws on it and nothing reads \<open>state\<close> before the next
  message.
\<close>

definition init_page :: page_v2 where
  "init_page = \<lparr>state = None, rendered = None, dragged = None, fromColumn = None\<rparr>"

datatype wv_event =
    DataMessage "board option"
  | TitleBlur nat string
  | DeleteColumnClick nat
  | DeleteCardClick nat nat
  | CardDragStart nat nat
  | ColumnDragStart nat
  | DragEnd nat
  | ColumnDrop nat "box list" rat
  | AddCardClick nat
  | AddColumnClick

text \<open>
  \<open>TitleBlur i t\<close>: the title of the \<open>i\<close>-th column loses focus (blur, or Enter) holding
  the text \<open>t\<close>.  \<open>DragEnd i\<close>: a dragend reaches the \<open>i\<close>-th column's handler, from the
  column or bubbled from one of its cards.  \<open>ColumnDrop i boxes y\<close>: a drop on the
  \<open>i\<close>-th column at height \<open>y\<close>, with the bounding boxes of its card elements.
\<close>

subsection \<open>Handlers shared by the versions\<close>

definition render :: "board option \<Rightarrow> js_error + column list" where
  "render st = (case st of None \<Rightarrow> Inl TypeError | Some b \<Rightarrow> Inr (columns b))"

definition onMessage ::
  "('d, 'f, 'z) page_scheme \<Rightarrow> board option \<Rightarrow> (js_error \<times> ('d, 'f, 'z) page_scheme) + (('d, 'f, 'z) page_scheme \<times> msg list)" where
  "onMessage p d =
     (let p1 = p\<lparr>state := d\<rparr>
      in case render d of
        Inl e \<Rightarrow> Inl (e, p1\<lparr>rendered := None\<rparr>)
      | Inr cols \<Rightarrow> Inr (p1\<lparr>rendered := Some cols\<rparr>, []))"

definition dom_column :: "column list option \<Rightarrow> nat \<Rightarrow> column option" where
  "dom_column r i = (case r of None \<Rightarrow> None | Some cols \<Rightarrow> if i < length cols then Some (cols ! i) else None)"

definition dom_card :: "column list option \<Rightarrow> nat \<Rightarrow> nat \<Rightarrow> (column \<times> card) option" where
  "dom_card r i j =
     (case dom_column r i of
       None \<Rightarrow> None
     | Some col \<Rightarrow> if j < length (cards col) then Some (col, cards col ! j) else None)"

definition saveRename :: "column \<Rightarrow> string \<Rightarrow> msg list" where
  "saveRename col text =
     (let newTitle = trim text
      in if newTitle \<noteq> [] \<and> newTitle \<noteq> col_title col then [RenameColumn (col_id col) newTitle] else [])"

text \<open>
  \<open>column.ondrop\<close> of src/extension.js.  \<open>dragged\<close> and \<open>fromColumn\<close> are set and reset
  together, and a column is rendered only from a board, so the last branch (a drag
  with no source column, or no state) is not reached from \<open>init_page\<close>.
\<close>

definition ondrop_v2 :: "page_v2 \<Rightarrow> ident \<Rightarrow> (js_error \<times> page_v2) + (page_v2 \<times> msg list)" where
  "ondrop_v2 p colId =
     (case dragged p of
       None \<Rightarrow> Inr (p, [])
     | Some d \<Rightarrow>
         (case (fromColumn p, state p) of
           (Some f, Some st) \<Rightarrow>
             (case moveCard_v2 f colId (card_id d) st of
               Inl (e, st') \<Rightarrow> Inl (e, p\<lparr>state := Some st'\<rparr>)
             | Inr st' \<Rightarrow> Inr (p\<lparr>state := Some st', dragged := None, fromColumn := None\<rparr>, [Update st']))
         | _ \<Rightarrow> Inl (TypeError, p)))"

subsection \<open>The page of src/extension.js\<close>

fun webview_step_v2 :: "page_v2 \<Rightarrow> wv_event \<Rightarrow> (js_error \<times> page_v2) + (page_v2 \<times> msg list)" where
  "webview_step_v2 p (DataMessage d) = onMessage p d"
| "webview_step_v2 p (TitleBlur i t) =
     (case dom_column (rendered p) i of None \<Rightarrow> Inr (p, []) | Some col \<Rightarrow> Inr (p, saveRename col t))"
| "webview_step_v2 p (DeleteColumnClick i) =
     (case dom_column (rendered p) i of None \<Rightarrow> Inr (p, []) | Some col \<Rightarrow> Inr (p, [DeleteColumn (col_id col)]))"
| "webview_step_v2 p (DeleteCardClick i j) =
     (case dom_card (rendered p) i j of
       None \<Rightarrow> Inr (p, [])
     | Some (col, c) \<Rightarrow> Inr (p, [DeleteCard (col_id col) (card_id c)]))"
| "webview_step_v2 p (CardDragStart i j) =
     (case dom_card (rendered p) i j of
       None \<Rightarrow> Inr (p, [])
     | Some (col, c) \<Rightarrow> Inr (p\<lparr>dragged := Some c, fromColumn := Some (col_id col)\<rparr>, []))"
| "webview_step_v2 p (ColumnDragStart i) = Inr (p, [])"
| "webview_step_v2 p (DragEnd i) = Inr (p, [])"
| "webview_step_v2 p (ColumnDrop i boxes y) =
     (case dom_column (rendered p) i of None \<Rightarrow> Inr (p, []) | Some col \<Rightarrow> ondrop_v2 p (col_id col))"
| "webview_step_v2 p (AddCardClick i) =
     (case dom_column (rendered p) i of
       None \<Rightarrow> Inr (p, [])
     | Some col \<Rightarrow> if i = 0 then Inr (p, [AddCard (col_id col)]) else Inr (p, []))"
| "webview_step_v2 p AddColumnClick = (if rendered p = None then Inr (p, []) else Inr (p, [AddColumn]))"

subsection \<open>The page of the second file of src/unnamed/part_001\<close>

text \<open>
  The oldest page: columns show their title and cards only, a card can be dragged to
  another column, and the drop calls the \<open>moveCard\<close> without the index guard.
\<close>

definition ondrop_v1 :: "page_v2 \<Rightarrow> ident \<Rightarrow> (js_error \<times> page_v2) + (page_v2 \<times> msg list)" where
  "ondrop_v1 p colId =
     (case dragged p of
       None \<Rightarrow> Inr (p, [])
     | Some d \<Rightarrow>
         (case (fromColumn p, state p) of
           (Some f, Some st) \<Rightarrow>
             (case moveCard_v1 f colId (card_id d) st of
               Inl (e, st') \<Rightarrow> Inl (e, p\<lparr>state := Some st'\<rparr>)
             | Inr st' \<Rightarrow> Inr (p\<lparr>state := Some st', dragged := None, fromColumn := None\<rparr>, [Update st']))
         | _ \<Rightarrow> Inl (TypeError, p)))"

fun webview_step_v1 :: "page_v2 \<Rightarrow> wv_event \<Rightarrow> (js_error \<times> page_v2) + (page_v2 \<times> msg list)" where
  "webview_step_v1 p (DataMessage d) = onMessage p d"
| "webview_step_v1 p (CardDragStart i j) =
     (case dom_card (rendered p) i j of
       None \<Rightarrow> Inr (p, [])
     | Some (col, c) \<Rightarrow> Inr (p\<lparr>dragged := Some c, fromColumn := Some (col_id col)\<rparr>, []))"
| "webview_step_v1 p (ColumnDrop i boxes y) =
     (case dom_column (rendered p) i of None \<Rightarrow> Inr (p, []) | Some col \<Rightarrow> ondrop_v1 p (col_id col))"
| "webview_step_v1 p _ = Inr (p, [])"

subsection \<open>Runs\<close>

definition step_page :: "(js_error \<times> 'p) + ('p \<times> msg list) \<Rightarrow> 'p" where
  "step_page r = (case r of Inl (_, p) \<Rightarrow> p | Inr (p, _) \<Rightarrow> p)"

definition step_msgs :: "(js_error \<times> 'p) + ('p \<times> msg list) \<Rightarrow> msg list" where
  "step_msgs r = (case r of Inl _ \<Rightarrow> [] | Inr (_, ms) \<Rightarrow> ms)"

fun wv_run :: "('p \<Rightarrow> wv_event \<Rightarrow> (js_error \<times> 'p) + ('p \<times> msg list)) \<Rightarrow> 'p \<Rightarrow> wv_event list \<Rightarrow> 'p \<times> msg list" where
  "wv_run step p [] = (p, [])"
| "wv_run step p (e # es) =
     (let r = step p e; rest = wv_run step (step_page r) es in (fst rest, step_msgs r @ snd rest))"

subsection \<open>The page invariant\<close>

text \<open>
  The drag context is set and reset as a pair, and a rendered DOM comes with a state.
\<close>

definition page_inv :: "page_v2 \<Rightarrow> bool" where
  "page_inv p \<longleftrightarrow> (dragged p = None \<longleftrightarrow> fromColumn p = None) \<and> (rendered p \<noteq> None \<longrightarrow> state p \<noteq> None)"

subsection \<open>Lemmas on runs\<close>

lemma wv_run_Cons [simp]:
  "fst (wv_run step p (e # es)) = fst (wv_run step (step_page (step p e)) es)"
  "snd (wv_run step p (e # es)) = step_msgs (step p e) @ snd (wv_run step (step_page (step p e)) es)"
  by (simp_all add: Let_def)

declare wv_run.simps(2) [simp del]

lemma wv_run_inv:
  assumes step: "\<And>p e. I p \<Longrightarrow> I (step_page (step p e))"
  shows "I p \<Longrightarrow> I (fst (wv_run step p es))"
  by (induction es arbitrary: p) (simp_all add: step)

lemma wv_run_msgs:
  assumes step: "\<And>p e. I p \<Longrightarrow> I (step_page (step p e))"
    and msgs: "\<And>p e m. I p \<Longrightarrow> m \<in> set (step_msgs (step p e)) \<Longrightarrow> Q m"
  shows "I p \<Longrightarrow> m \<in> set (snd (wv_run step p es)) \<Longrightarrow> Q m"
  by (induction es arbitrary: p) (auto intro: msgs step)

lemma dom_column_Some:
  "dom_column r i = Some col \<longleftrightarrow> (\<exists>cols. r = Some cols \<and> i < length cols \<and> col = cols ! i)"
  by (auto simp: dom_column_def split: option.splits)

lemma ondrop_v2_cases:
  assumes "ondrop_v2 p colId = Inr (p', ms)"
  obtains (none) "dragged p = None" "p' = p" "ms = []"
  | (moved) d f st st' where "dragged p = Some d" "fromColumn p = Some f" "state p = Some st"
      "moveCard_v2 f colId (card_id d) st = Inr st'"
      "p' = p\<lparr>state := Some st', dragged := None, fromColumn := None\<rparr>" "ms = [Update st']"
  using assms
  by (auto simp: ondrop_v2_def split: option.splits sum.splits prod.splits)

lemma page_inv_step_v2:
  assumes "page_inv p"
  shows "page_inv (step_page (webview_step_v2 p e))"
  using assms
proof (cases e)
  case (DataMessage d)
  with assms show ?thesis by (cases d) (simp_all add: page_inv_def step_page_def onMessage_def render_def)
next
  case (CardDragStart i j)
  with assms show ?thesis
    by (auto simp: page_inv_def step_page_def dom_card_def split: option.splits)
next
  case (ColumnDrop i bs y)
  with assms show ?thesis
    by (auto simp: page_inv_def step_page_def ondrop_v2_def split: option.splits sum.splits prod.splits)
qed (auto simp: page_inv_def step_page_def split: option.splits)

subsection \<open>Properties of the page of src/extension.js\<close>

lemma saveRename_trimmed: "RenameColumn c t \<in> set (saveRename col x) \<Longrightarrow> t \<noteq> [] \<and> trim t = t"
  by (auto simp: saveRename_def Let_def trim_idem split: if_splits)

lemma webview_step_v2_rename:
  assumes "RenameColumn c t \<in> set (step_msgs (webview_step_v2 p e))"
  shows "t \<noteq> [] \<and> trim t = t"
proof (cases e)
  case (DataMessage d)
  with assms show ?thesis by (cases d) (simp_all add: step_msgs_def onMessage_def render_def)
next
  case (TitleBlur i x)
  with assms show ?thesis
    by (cases "dom_column (rendered p) i") (auto simp: step_msgs_def dest: saveRename_trimmed)
next
  case (DeleteColumnClick i)
  with assms show ?thesis by (cases "dom_column (rendered p) i") (simp_all add: step_msgs_def)
next
  case (DeleteCardClick i j)
  with assms show ?thesis by (cases "dom_card (rendered p) i j") (auto simp: step_msgs_def)
next
  case (CardDragStart i j)
  with assms show ?thesis by (cases "dom_card (rendered p) i j") (auto simp: step_msgs_def)
next
  case (ColumnDrop i bs y)
  with assms show ?thesis
    by (cases "dom_column (rendered p) i")
       (auto simp: step_msgs_def ondrop_v2_def split: option.splits sum.splits prod.splits)
next
  case (AddCardClick i)
  with assms show ?thesis by (cases "dom_column (rendered p) i") (auto simp: step_msgs_def split: if_splits)
qed (use assms in \<open>auto simp: step_msgs_def split: if_splits\<close>)

text \<open>C30: On every run of the webview of src/extension.js from page load, dragged and fromColumn are set and cleared together, and whenever a DOM is rendered the page holds a board in state.\<close>

theorem webview_page_inv:
  "page_inv (fst (wv_run webview_step_v2 init_page es))"
proof (rule wv_run_inv [where I = page_inv])
  show "page_inv p \<Longrightarrow> page_inv (step_page (webview_step_v2 p e))" for p e
    by (rule page_inv_step_v2)
  show "page_inv init_page" by (simp add: page_inv_def init_page_def)
qed

text \<open>Every rename-column message the webview of src/extension.js posts, on any run, carries a non-empty title with no leading or trailing white space (saveRename trims and drops blank titles).\<close>

theorem webview_rename_trimmed:
  assumes "RenameColumn c t \<in> set (snd (wv_run webview_step_v2 p es))"
  shows "t \<noteq> [] \<and> trim t = t"
proof -
  have "(\<lambda>m. \<forall>c t. m = RenameColumn c t \<longrightarrow> t \<noteq> [] \<and> trim t = t) (RenameColumn c t)"
    by (rule wv_run_msgs [where I = "\<lambda>_. True", OF _ _ _ assms]) (auto dest: webview_step_v2_rename)
  then show ?thesis by simp
qed

text \<open>When a card drop in the webview of src/extension.js posts an update, the posted board is the new state, the drag context is cleared, and the board has the same cards and the same column ids as the state before the drop.\<close>

theorem webview_drop_posts_state:
  assumes st: "state p = Some st"
    and run: "webview_step_v2 p (ColumnDrop i bs y) = Inr (p', ms)"
    and upd: "Update b \<in> set ms"
  shows "state p' = Some b \<and> dragged p' = None \<and> fromColumn p' = None \<and>
         mset (all_cards b) = mset (all_cards st) \<and> col_ids b = col_ids st"
proof -
  obtain col where col: "dom_column (rendered p) i = Some col"
    using run upd by (cases "dom_column (rendered p) i") auto
  with run have "ondrop_v2 p (col_id col) = Inr (p', ms)" by simp
  then show ?thesis
  proof (cases rule: ondrop_v2_cases)
    case none
    with upd show ?thesis by simp
  next
    case (moved d f st0 st')
    with st upd show ?thesis by (auto dest: moveCard_v2_mset moveCard_v2_col_ids)
  qed
qed

text \<open>C28: In the webview of src/extension.js a card dragged from a column and dropped on the same column stays where it is; the drag context is cleared and the unchanged board is still posted as an update.\<close>

theorem webview_same_column_drop_noop:
  assumes "dom_column (rendered p) i = Some col" and "dragged p = Some d"
    and "fromColumn p = Some (col_id col)" and "state p = Some st"
  shows "webview_step_v2 p (ColumnDrop i bs y) = Inr (p\<lparr>dragged := None, fromColumn := None\<rparr>, [Update st])"
proof -
  have "p\<lparr>state := Some st\<rparr> = p" using assms(4) by simp
  with assms show ?thesis by (simp add: ondrop_v2_def moveCard_v2_def)
qed

text \<open>
  A card drag that spans an edit of the document: \<open>c1\<close> is dragged from column \<open>a\<close>,
  meanwhile the file is edited so that \<open>c1\<close> is in \<open>b\<close> and \<open>a\<close> holds \<open>c2, c3\<close>, and the
  card is dropped on \<open>b\<close>.
\<close>

text \<open>If the document changes during a card drag so that the dragged card is no longer in its source column, the oldest webview (second file of part_001) posts a board in which the last card of the source column has been moved instead, while the webview of src/extension.js posts the board unchanged.\<close>

theorem stale_drag_moves_last_card:
  "snd (wv_run webview_step_v1 init_page
      [DataMessage (Some scenario_board), CardDragStart 0 0,
       DataMessage (Some \<lparr>columns = [\<lparr>col_id = ''a'', col_title = ''A'',
                                      cards = [\<lparr>card_id = ''c2'', card_title = ''Y''\<rparr>, \<lparr>card_id = ''c3'', card_title = ''Z''\<rparr>]\<rparr>,
                                     \<lparr>col_id = ''b'', col_title = ''B'', cards = [\<lparr>card_id = ''c1'', card_title = ''X''\<rparr>]\<rparr>]\<rparr>),
       ColumnDrop 1 [] 0]) =
     [Update \<lparr>columns = [\<lparr>col_id = ''a'', col_title = ''A'', cards = [\<lparr>card_id = ''c2'', card_title = ''Y''\<rparr>]\<rparr>,
                         \<lparr>col_id = ''b'', col_title = ''B'',
                            cards = [\<lparr>card_id = ''c1'', card_title = ''X''\<rparr>, \<lparr>card_id = ''c3'', card_title = ''Z''\<rparr>]\<rparr>]\<rparr>] \<and>
   snd (wv_run webview_step_v2 init_page
      [DataMessage (Some scenario_board), CardDragStart 0 0,
       DataMessage (Some \<lparr>columns = [\<lparr>col_id = ''a'', col_title = ''A'',
                                      cards = [\<lparr>card_id = ''c2'', card_title = ''Y''\<rparr>, \<lparr>card_id = ''c3'', card_title = ''Z''\<rparr>]\<rparr>,
                                     \<lparr>col_id = ''b'', col_title = ''B'', cards = [\<lparr>card_id = ''c1'', card_title = ''X''\<rparr>]\<rparr>]\<rparr>),
       ColumnDrop 1 [] 0]) =
     [Update \<lparr>columns = [\<lparr>col_id = ''a'', col_title = ''A'',
                            cards = [\<lparr>card_id = ''c2'', card_title = ''Y''\<rparr>, \<lparr>card_id = ''c3'', card_title = ''Z''\<rparr>]\<rparr>,
                         \<lparr>col_id = ''b'', col_title = ''B'', cards = [\<lparr>card_id = ''c1'', card_title = ''X''\<rparr>]\<rparr>]\<rparr>]"
  by (simp add: init_page_def onMessage_def render_def step_page_def step_msgs_def dom_card_def dom_column_def
                scenario_board_def ondrop_v1_def ondrop_v2_def moveCard_v1_def moveCard_v2_def findIndex_def
                splice_def rel_start_def Let_def)

subsection \<open>Witnesses\<close>

theorem webview_page_inv_witness:
  "page_inv (fst (wv_run webview_step_v2 init_page [DataMessage (Some scenario_board), CardDragStart 0 1])) \<and>
   dragged (fst (wv_run webview_step_v2 init_page [DataMessage (Some scenario_board), CardDragStart 0 1])) =
     Some \<lparr>card_id = ''c2'', card_title = ''Y''\<rparr> \<and>
   fromColumn (fst (wv_run webview_step_v2 init_page [DataMessage (Some scenario_board), CardDragStart 0 1])) = Some ''a''"
  using webview_page_inv [of "[DataMessage (Some scenario_board), CardDragStart 0 1]"]
  by (simp add: init_page_def onMessage_def render_def step_page_def dom_card_def dom_column_def scenario_board_def)

theorem webview_rename_trimmed_witness:
  "RenameColumn ''a'' ''New'' \<in> set (snd (wv_run webview_step_v2 init_page [DataMessage (Some scenario_board), TitleBlur 0 '' New  ''])) \<and>
   ''New'' \<noteq> [] \<and> trim ''New'' = ''New''"
proof -
  have run: "RenameColumn ''a'' ''New'' \<in> set (snd (wv_run webview_step_v2 init_page [DataMessage (Some scenario_board), TitleBlur 0 '' New  '']))"
    by (simp add: init_page_def onMessage_def render_def step_page_def step_msgs_def dom_column_def
                  scenario_board_def saveRename_def js_string_eval)
  from webview_rename_trimmed [OF run] run show ?thesis by simp
qed

theorem webview_drop_posts_state_witness:
  "\<exists>p' b. webview_step_v2 (fst (wv_run webview_step_v2 init_page [DataMessage (Some scenario_board), CardDragStart 0 0]))
             (ColumnDrop 1 [] 0) = Inr (p', [Update b]) \<and>
     state p' = Some b \<and> dragged p' = None \<and> fromColumn p' = None \<and>
     mset (all_cards b) = mset (all_cards scenario_board) \<and> col_ids b = col_ids scenario_board"
proof -
  define p where "p = fst (wv_run webview_step_v2 init_page [DataMessage (Some scenario_board), CardDragStart 0 0])"
  define b where "b = \<lparr>columns = [\<lparr>col_id = ''a'', col_title = ''A'', cards = [\<lparr>card_id = ''c2'', card_title = ''Y''\<rparr>]\<rparr>,
                     \<lparr>col_id = ''b'', col_title = ''B'', cards = [\<lparr>card_id = ''c1'', card_title = ''X''\<rparr>]\<rparr>]\<rparr>"
  have st: "state p = Some scenario_board"
    by (simp add: p_def init_page_def onMessage_def render_def step_page_def dom_card_def dom_column_def scenario_board_def)
  have run: "webview_step_v2 p (ColumnDrop 1 [] 0) = Inr (p\<lparr>state := Some b, dragged := None, fromColumn := None\<rparr>, [Update b])"
    by (simp add: p_def b_def init_page_def onMessage_def render_def step_page_def dom_card_def dom_column_def
                  scenario_board_def ondrop_v2_def moveCard_v2_def splice_def rel_start_def Let_def)
  have "state (p\<lparr>state := Some b, dragged := None, fromColumn := None\<rparr>) = Some b \<and>
        dragged (p\<lparr>state := Some b, dragged := None, fromColumn := None\<rparr>) = None \<and>
        fromColumn (p\<lparr>state := Some b, dragged := None, fromColumn := None\<rparr>) = None \<and>
        mset (all_cards b) = mset (all_cards scenario_board) \<and> col_ids b = col_ids scenario_board"
    using webview_drop_posts_state [OF st run] by simp
  with run show ?thesis unfolding p_def by blast
qed

theorem webview_same_column_drop_noop_witness:
  "dom_column (rendered (fst (wv_run webview_step_v2 init_page [DataMessage (Some scenario_board), CardDragStart 0 1]))) 0 =
     Some (columns scenario_board ! 0) \<and>
   webview_step_v2 (fst (wv_run webview_step_v2 init_page [DataMessage (Some scenario_board), CardDragStart 0 1])) (ColumnDrop 0 [] 0) =
     Inr (\<lparr>state = Some scenario_board, rendered = Some (columns scenario_board), dragged = None, fromColumn = None\<rparr>,
          [Update scenario_board])"
proof -
  define p where "p = fst (wv_run webview_step_v2 init_page [DataMessage (Some scenario_board), CardDragStart 0 1])"
  have p: "p = \<lparr>state = Some scenario_board, rendered = Some (columns scenario_board),
                dragged = Some \<lparr>card_id = ''c2'', card_title = ''Y''\<rparr>, fromColumn = Some ''a''\<rparr>"
    by (simp add: p_def init_page_def onMessage_def render_def step_page_def dom_card_def dom_column_def scenario_board_def)
  have col: "dom_column (rendered p) 0 = Some (columns scenario_board ! 0)"
    by (simp add: p dom_column_def scenario_board_def)
  have "webview_step_v2 p (ColumnDrop 0 [] 0) = Inr (p\<lparr>dragged := None, fromColumn := None\<rparr>, [Update scenario_board])"
    by (rule webview_same_column_drop_noop [OF col]) (simp_all add: p scenario_board_def)
  with col show ?thesis unfolding p_def [symmetric] by (simp add: p)
qed

end
