(* ===== verification/Webview_Main.thy ===== *)
theory Webview_Main
  imports Webview
begin

text \<open>
  The webview page of \<open>src/unnamed/part_000\<close>, the newest version: columns are draggable
  too, a card drop computes its position from the geometry (\<open>dropCard\<close> of \<open>Reorder\<close>)
  and re-renders at once, and the kind of the current drag is kept in \<open>draggedType\<close>.
  The script declares \<open>state\<close> and \<open>draggedType\<close> only; \<open>dragged\<close> and \<open>fromColumn\<close>
  become globals at their first assignment, so reading them before that throws a
  \<open>ReferenceError\<close>.  Their model is an option of an option: \<open>None\<close> for a global that
  does not exist yet, \<open>Some None\<close> for \<open>null\<close>.
\<close>

subsection \<open>Page state\<close>

datatype drag_obj = DragColumn column | DragCard card

datatype drag_kind = KindColumn | KindCard

record page_main = "(drag_obj option option, ident option option) page" +
  draggedType :: "drag_kind option"

definition init_page_main :: page_main where
  "init_page_main =
     \<lparr>state = None, rendered = None, dragged = None, fromColumn = None, draggedType = None\<rparr>"

definition drag_id :: "drag_obj \<Rightarrow> ident" where
  "drag_id d = (case d of DragColumn c \<Rightarrow> col_id c | DragCard k \<Rightarrow> card_id k)"

subsection \<open>Handlers\<close>

text \<open>
  \<open>column.ondrop\<close>: a column drag posts \<open>move-column\<close> unless dropped on itself; a card
  drag moves the card to the computed index in \<open>state\<close>, re-renders and posts the
  board; both then clear the drag context.  A throw leaves the context as it is.
\<close>

definition ondrop_main :: "page_main \<Rightarrow> column \<Rightarrow> box list \<Rightarrow> rat \<Rightarrow> (js_error \<times> page_main) + (page_main \<times> msg list)" where
  "ondrop_main p col boxes y =
     (let reset = (\<lambda>q :: page_main. q\<lparr>dragged := Some None, fromColumn := Some None, draggedType := None\<rparr>)
      in case dragged p of
        None \<Rightarrow> Inl (ReferenceError, p)
      | Some None \<Rightarrow> Inr (p, [])
      | Some (Some d) \<Rightarrow>
          (case draggedType p of
            Some KindColumn \<Rightarrow>
              Inr (reset p, if drag_id d \<noteq> col_id col then [MoveColumn (drag_id d) (col_id col)] else [])
          | Some KindCard \<Rightarrow>
              (case state p of
                None \<Rightarrow> Inl (TypeError, p)
              | Some st \<Rightarrow>
                  (case fromColumn p of
                    None \<Rightarrow> (case cardDropIndex st (col_id col) (map_option el_id (getDragAfterElement boxes y)) of
                               Inl e \<Rightarrow> Inl (e, p)
                             | Inr _ \<Rightarrow> Inl (ReferenceError, p))
                  | Some None \<Rightarrow> Inl (TypeError, p)
                  | Some (Some f) \<Rightarrow>
                      (case dropCard st f (col_id col) (drag_id d) boxes y of
                        Inl (e, st') \<Rightarrow> Inl (e, p\<lparr>state := Some st'\<rparr>)
                      | Inr st' \<Rightarrow> Inr (reset (p\<lparr>state := Some st', rendered := Some (columns st')\<rparr>), [Update st']))))
          | None \<Rightarrow> Inr (reset p, [])))"

text \<open>
  The page of the first file of \<open>src/unnamed/part_001\<close> is the same script with the
  older \<open>column.ondrop\<close>: a card drop calls the append-only \<open>moveCard\<close> of
  \<open>src/extension.js\<close> and posts the board without re-rendering.
\<close>

definition ondrop_v3 :: "page_main \<Rightarrow> column \<Rightarrow> box list \<Rightarrow> rat \<Rightarrow> (js_error \<times> page_main) + (page_main \<times> msg list)" where
  "ondrop_v3 p col boxes y =
     (let reset = (\<lambda>q :: page_main. q\<lparr>dragged := Some None, fromColumn := Some None, draggedType := None\<rparr>)
      in case dragged p of
        None \<Rightarrow> Inl (ReferenceError, p)
      | Some None \<Rightarrow> Inr (p, [])
      | Some (Some d) \<Rightarrow>
          (case draggedType p of
            Some KindColumn \<Rightarrow>
              Inr (reset p, if drag_id d \<noteq> col_id col then [MoveColumn (drag_id d) (col_id col)] else [])
          | Some KindCard \<Rightarrow>
              (case (fromColumn p, state p) of
                (None, _) \<Rightarrow> Inl (ReferenceError, p)
              | (Some (Some f), Some st) \<Rightarrow>
                  (case moveCard_v2 f (col_id col) (drag_id d) st of
                    Inl (e, st') \<Rightarrow> Inl (e, p\<lparr>state := Some st'\<rparr>)
                  | Inr st' \<Rightarrow> Inr (reset (p\<lparr>state := Some st'\<rparr>), [Update st']))
              | _ \<Rightarrow> Inl (TypeError, p))
          | None \<Rightarrow> Inr (reset p, [])))"

text \<open>
  One step of the page for each event; the two pages differ in the drop handler only.
  (The \<open>(Some (Some f), None)\<close> case of \<open>ondrop_v3\<close> is not reached: a column is
  rendered only from a state.)
\<close>

fun webview_step_drag ::
  "(page_main \<Rightarrow> column \<Rightarrow> box list \<Rightarrow> rat \<Rightarrow> (js_error \<times> page_main) + (page_main \<times> msg list)) \<Rightarrow>
   page_main \<Rightarrow> wv_event \<Rightarrow> (js_error \<times> page_main) + (page_main \<times> msg list)" where
  "webview_step_drag ondrop p (DataMessage d) = onMessage p d"
| "webview_step_drag ondrop p (TitleBlur i t) =
     (case dom_column (rendered p) i of None \<Rightarrow> Inr (p, []) | Some col \<Rightarrow> Inr (p, saveRename col t))"
| "webview_step_drag ondrop p (DeleteColumnClick i) =
     (case dom_column (rendered p) i of None \<Rightarrow> Inr (p, []) | Some col \<Rightarrow> Inr (p, [DeleteColumn (col_id col)]))"
| "webview_step_drag ondrop p (DeleteCardClick i j) =
     (case dom_card (rendered p) i j of
       None \<Rightarrow> Inr (p, [])
     | Some (col, c) \<Rightarrow> Inr (p, [DeleteCard (col_id col) (card_id c)]))"
| "webview_step_drag ondrop p (CardDragStart i j) =
     (case dom_card (rendered p) i j of
       None \<Rightarrow> Inr (p, [])
     | Some (col, c) \<Rightarrow>
         Inr (p\<lparr>dragged := Some (Some (DragCard c)), fromColumn := Some (Some (col_id col)),
                draggedType := Some KindCard\<rparr>, []))"
| "webview_step_drag ondrop p (ColumnDragStart i) =
     (case dom_column (rendered p) i of
       None \<Rightarrow> Inr (p, [])
     | Some col \<Rightarrow> Inr (p\<lparr>dragged := Some (Some (DragColumn col)), draggedType := Some KindColumn\<rparr>, []))"
| "webview_step_drag ondrop p (DragEnd i) =
     (case dom_column (rendered p) i of
       None \<Rightarrow> Inr (p, [])
     | Some col \<Rightarrow> Inr (p\<lparr>dragged := Some None, draggedType := None\<rparr>, []))"
| "webview_step_drag ondrop p (ColumnDrop i boxes y) =
     (case dom_column (rendered p) i of None \<Rightarrow> Inr (p, []) | Some col \<Rightarrow> ondrop p col boxes y)"
| "webview_step_drag ondrop p (AddCardClick i) =
     (case dom_column (rendered p) i of
       None \<Rightarrow> Inr (p, [])
     | Some col \<Rightarrow> if i = 0 then Inr (p, [AddCard (col_id col)]) else Inr (p, []))"
| "webview_step_drag ondrop p AddColumnClick = (if rendered p = None then Inr (p, []) else Inr (p, [AddColumn]))"

definition webview_step_main :: "page_main \<Rightarrow> wv_event \<Rightarrow> (js_error \<times> page_main) + (page_main \<times> msg list)" where
  "webview_step_main = webview_step_drag ondrop_main"

definition webview_step_v3 :: "page_main \<Rightarrow> wv_event \<Rightarrow> (js_error \<times> page_main) + (page_main \<times> msg list)" where
  "webview_step_v3 = webview_step_drag ondrop_v3"

subsection \<open>The page invariant\<close>

text \<open>
  The kind in \<open>draggedType\<close> is the kind of the object in \<open>dragged\<close>, a card drag has a
  source column, and a rendered DOM comes with a state.
\<close>

definition drag_kind_of :: "drag_obj \<Rightarrow> drag_kind" where
  "drag_kind_of d = (case d of DragColumn _ \<Rightarrow> KindColumn | DragCard _ \<Rightarrow> KindCard)"

definition main_inv :: "page_main \<Rightarrow> bool" where
  "main_inv p \<longleftrightarrow>
     (case dragged p of Some (Some d) \<Rightarrow> draggedType p = Some (drag_kind_of d) | _ \<Rightarrow> draggedType p = None) \<and>
     (draggedType p = Some KindCard \<longrightarrow> (case fromColumn p of Some (Some _) \<Rightarrow> True | _ \<Rightarrow> False)) \<and>
     (rendered p \<noteq> None \<longrightarrow> state p \<noteq> None)"

text \<open>What a drop handler must do for the page to keep the invariant and post no self-move.\<close>

definition drop_ok :: "(page_main \<Rightarrow> column \<Rightarrow> box list \<Rightarrow> rat \<Rightarrow> (js_error \<times> page_main) + (page_main \<times> msg list)) \<Rightarrow> bool" where
  "drop_ok ondrop \<longleftrightarrow>
     (\<forall>p col bs y. main_inv p \<and> state p \<noteq> None \<longrightarrow> main_inv (step_page (ondrop p col bs y))) \<and>
     (\<forall>p col bs y f t. MoveColumn f t \<in> set (step_msgs (ondrop p col bs y)) \<longrightarrow> f \<noteq> t)"

subsection \<open>Lemmas\<close>

lemma drop_ok_main: "drop_ok ondrop_main"
  unfolding drop_ok_def
  by (auto simp: main_inv_def ondrop_main_def step_page_def step_msgs_def Let_def
           split: option.splits drag_kind.splits sum.splits prod.splits if_splits)

lemma drop_ok_v3: "drop_ok ondrop_v3"
  unfolding drop_ok_def
  by (auto simp: main_inv_def ondrop_v3_def step_page_def step_msgs_def Let_def
           split: option.splits drag_kind.splits sum.splits prod.splits if_splits)

lemma main_inv_step:
  assumes ok: "drop_ok ondrop" and inv: "main_inv p"
  shows "main_inv (step_page (webview_step_drag ondrop p e))"
proof (cases e)
  case (DataMessage d)
  with inv show ?thesis
    by (cases d) (simp_all add: main_inv_def step_page_def onMessage_def render_def split: option.splits)
next
  case (CardDragStart i j)
  with inv show ?thesis
    by (auto simp: main_inv_def step_page_def dom_card_def drag_kind_of_def split: option.splits)
next
  case (ColumnDragStart i)
  with inv show ?thesis
    by (auto simp: main_inv_def step_page_def drag_kind_of_def split: option.splits)
next
  case (DragEnd i)
  with inv show ?thesis
    by (auto simp: main_inv_def step_page_def split: option.splits)
next
  case (ColumnDrop i bs y)
  show ?thesis
  proof (cases "dom_column (rendered p) i")
    case None
    with ColumnDrop inv show ?thesis by (simp add: step_page_def)
  next
    case (Some col)
    then have "rendered p \<noteq> None" by (auto simp: dom_column_Some)
    with inv have "state p \<noteq> None" by (simp add: main_inv_def)
    with ColumnDrop Some inv ok show ?thesis by (simp add: drop_ok_def)
  qed
qed (use inv in \<open>auto simp: main_inv_def step_page_def split: option.splits\<close>)

lemma main_inv_run:
  assumes "drop_ok ondrop"
  shows "main_inv (fst (wv_run (webview_step_drag ondrop) init_page_main es))"
proof (rule wv_run_inv [where I = main_inv])
  show "main_inv p \<Longrightarrow> main_inv (step_page (webview_step_drag ondrop p e))" for p e
    using assms by (rule main_inv_step)
  show "main_inv init_page_main" by (simp add: main_inv_def init_page_main_def)
qed

lemma step_move:
  assumes ok: "drop_ok ondrop" and m: "MoveColumn f t \<in> set (step_msgs (webview_step_drag ondrop p e))"
  shows "f \<noteq> t"
proof (cases e)
  case (ColumnDrop i bs y)
  with m obtain col where "MoveColumn f t \<in> set (step_msgs (ondrop p col bs y))"
    by (cases "dom_column (rendered p) i") (auto simp: step_msgs_def)
  with ok show ?thesis by (auto simp: drop_ok_def)
next
  case (DataMessage d)
  with m show ?thesis by (cases d) (simp_all add: step_msgs_def onMessage_def render_def)
next
  case (TitleBlur i x)
  with m show ?thesis
    by (cases "dom_column (rendered p) i") (auto simp: step_msgs_def saveRename_def Let_def split: if_splits)
next
  case (DeleteCardClick i j)
  with m show ?thesis by (cases "dom_card (rendered p) i j") (auto simp: step_msgs_def)
next
  case (CardDragStart i j)
  with m show ?thesis by (cases "dom_card (rendered p) i j") (auto simp: step_msgs_def)
qed (use m in \<open>auto simp: step_msgs_def split: option.splits if_splits\<close>)

lemma ondrop_main_cases:
  assumes "ondrop_main p col bs y = Inr (p', ms)"
  obtains (nothing) "ms = []"
  | (column) d where "dragged p = Some (Some d)" "draggedType p = Some KindColumn"
      "ms = [MoveColumn (drag_id d) (col_id col)]" "drag_id d \<noteq> col_id col"
  | (card) d f st st' where "dragged p = Some (Some d)" "draggedType p = Some KindCard" "state p = Some st"
      "fromColumn p = Some (Some f)" "dropCard st f (col_id col) (drag_id d) bs y = Inr st'"
      "p' = p\<lparr>state := Some st', rendered := Some (columns st'), dragged := Some None,
              fromColumn := Some None, draggedType := None\<rparr>" "ms = [Update st']"
  using assms
  by (auto simp: ondrop_main_def Let_def split: option.splits drag_kind.splits sum.splits if_splits)

lemma dropCard_moveCard:
  "dropCard st f colId k bs y = Inr st' \<Longrightarrow> \<exists>index. moveCard f colId k (Some index) st = Inr st'"
  by (auto simp: dropCard_def dropAt_def split: sum.splits)

subsection \<open>Properties of the pages\<close>

text \<open>C32: On every run from page load of the webview of part_000, and of the first file of part_001, draggedType is the kind of the dragged object (null when nothing is dragged), a card drag always has a source column, and a rendered DOM comes with a state.\<close>

theorem webview_main_inv:
  "main_inv (fst (wv_run webview_step_main init_page_main es)) \<and>
   main_inv (fst (wv_run webview_step_v3 init_page_main es))"
  unfolding webview_step_main_def webview_step_v3_def
  using main_inv_run [OF drop_ok_main] main_inv_run [OF drop_ok_v3] by blast

text \<open>C34: In the webviews of part_000 and of the first file of part_001, a drop on a column before any drag has started in the page (e.g. text dragged in from outside) throws a ReferenceError, because dragged is never declared.\<close>

theorem drop_before_drag_reference_error:
  assumes "dom_column (rendered p) i = Some col" and "dragged p = None"
  shows "webview_step_main p (ColumnDrop i bs y) = Inl (ReferenceError, p) \<and>
         webview_step_v3 p (ColumnDrop i bs y) = Inl (ReferenceError, p)"
  using assms by (simp add: webview_step_main_def webview_step_v3_def ondrop_main_def ondrop_v3_def)

text \<open>On any run of the webview of part_000, every move-column message it posts names two different columns.\<close>

theorem webview_main_no_self_move:
  assumes "MoveColumn f t \<in> set (snd (wv_run webview_step_main p es))"
  shows "f \<noteq> t"
proof -
  have "(\<lambda>m. \<forall>f t. m = MoveColumn f t \<longrightarrow> f \<noteq> t) (MoveColumn f t)"
    by (rule wv_run_msgs [where I = "\<lambda>_. True", OF _ _ _ assms])
       (auto simp: webview_step_main_def dest: step_move [OF drop_ok_main])
  then show ?thesis by simp
qed

text \<open>C33: When a card drop in the webview of part_000 posts an update, the page re-renders from the posted board, which becomes the state, the drag kind is cleared, and the board has the same cards and column ids as the state before the drop.\<close>

theorem webview_main_drop_renders:
  assumes st: "state p = Some st"
    and run: "webview_step_main p (ColumnDrop i bs y) = Inr (p', ms)"
    and upd: "Update b \<in> set ms"
  shows "state p' = Some b \<and> rendered p' = Some (columns b) \<and> draggedType p' = None \<and>
         mset (all_cards b) = mset (all_cards st) \<and> col_ids b = col_ids st"
proof -
  obtain col where col: "dom_column (rendered p) i = Some col"
    using run upd by (cases "dom_column (rendered p) i") (auto simp: webview_step_main_def)
  with run have "ondrop_main p col bs y = Inr (p', ms)" by (simp add: webview_step_main_def)
  then show ?thesis
  proof (cases rule: ondrop_main_cases)
    case (card d f st0 st')
    then obtain index where "moveCard f (col_id col) (drag_id d) (Some index) st = Inr st'"
      using st dropCard_moveCard by fastforce
    with card st upd show ?thesis by (auto dest: moveCard_mset moveCard_col_ids)
  qed (use upd in auto)
qed

subsection \<open>Witnesses\<close>

lemmas page_main_eval = webview_step_main_def webview_step_v3_def init_page_main_def onMessage_def
  render_def step_page_def step_msgs_def dom_card_def dom_column_def scenario_board_def

theorem webview_main_inv_witness:
  "main_inv (fst (wv_run webview_step_main init_page_main [DataMessage (Some scenario_board), CardDragStart 0 0])) \<and>
   main_inv (fst (wv_run webview_step_v3 init_page_main [DataMessage (Some scenario_board), CardDragStart 0 0])) \<and>
   draggedType (fst (wv_run webview_step_main init_page_main [DataMessage (Some scenario_board), CardDragStart 0 0])) = Some KindCard \<and>
   fromColumn (fst (wv_run webview_step_v3 init_page_main [DataMessage (Some scenario_board), CardDragStart 0 0])) = Some (Some ''a'')"
  using webview_main_inv [of "[DataMessage (Some scenario_board), CardDragStart 0 0]"]
  by (simp add: page_main_eval)

theorem drop_before_drag_reference_error_witness:
  "dom_column (rendered (fst (wv_run webview_step_main init_page_main [DataMessage (Some scenario_board)]))) 0 =
     Some (columns scenario_board ! 0) \<and>
   dragged (fst (wv_run webview_step_main init_page_main [DataMessage (Some scenario_board)])) = None \<and>
   webview_step_main (fst (wv_run webview_step_main init_page_main [DataMessage (Some scenario_board)])) (ColumnDrop 0 [] 0) =
     Inl (ReferenceError, fst (wv_run webview_step_main init_page_main [DataMessage (Some scenario_board)])) \<and>
   webview_step_v3 (fst (wv_run webview_step_main init_page_main [DataMessage (Some scenario_board)])) (ColumnDrop 0 [] 0) =
     Inl (ReferenceError, fst (wv_run webview_step_main init_page_main [DataMessage (Some scenario_board)]))"
proof -
  define p where "p = fst (wv_run webview_step_main init_page_main [DataMessage (Some scenario_board)])"
  have col: "dom_column (rendered p) 0 = Some (columns scenario_board ! 0)" and nd: "dragged p = None"
    by (simp_all add: p_def page_main_eval)
  with drop_before_drag_reference_error [OF col nd] show ?thesis by (simp add: p_def)
qed

theorem webview_main_no_self_move_witness:
  "MoveColumn ''a'' ''b'' \<in> set (snd (wv_run webview_step_main init_page_main
      [DataMessage (Some scenario_board), ColumnDragStart 0, ColumnDrop 1 [] 0])) \<and> ''a'' \<noteq> ''b''"
proof -
  have run: "MoveColumn ''a'' ''b'' \<in> set (snd (wv_run webview_step_main init_page_main
      [DataMessage (Some scenario_board), ColumnDragStart 0, ColumnDrop 1 [] 0]))"
    by (simp add: page_main_eval ondrop_main_def drag_id_def Let_def)
  from webview_main_no_self_move [OF run] run show ?thesis by simp
qed

theorem webview_main_drop_renders_witness:
  "\<exists>p' b. webview_step_main (fst (wv_run webview_step_main init_page_main [DataMessage (Some scenario_board), CardDragStart 0 0]))
             (ColumnDrop 1 [] 0) = Inr (p', [Update b]) \<and>
     state p' = Some b \<and> rendered p' = Some (columns b) \<and> draggedType p' = None \<and>
     mset (all_cards b) = mset (all_cards scenario_board) \<and> col_ids b = col_ids scenario_board"
proof -
  define p where "p = fst (wv_run webview_step_main init_page_main [DataMessage (Some scenario_board), CardDragStart 0 0])"
  define b where "b = \<lparr>columns = [\<lparr>col_id = ''a'', col_title = ''A'', cards = [\<lparr>card_id = ''c2'', card_title = ''Y''\<rparr>]\<rparr>,
                     \<lparr>col_id = ''b'', col_title = ''B'', cards = [\<lparr>card_id = ''c1'', card_title = ''X''\<rparr>]\<rparr>]\<rparr>"
  define p' where "p' = p\<lparr>state := Some b, rendered := Some (columns b), dragged := Some None,
                          fromColumn := Some None, draggedType := None\<rparr>"
  have st: "state p = Some scenario_board" by (simp add: p_def page_main_eval)
  have run: "webview_step_main p (ColumnDrop 1 [] 0) = Inr (p', [Update b])"
    by (simp add: p_def p'_def b_def page_main_eval ondrop_main_def drag_id_def dropCard_def dropAt_def
                  getDragAfterElement_def cardDropIndex_def moveCard_def final_index_def splice_def rel_start_def Let_def)
  have "state p' = Some b \<and> rendered p' = Some (columns b) \<and> draggedType p' = None \<and>
        mset (all_cards b) = mset (all_cards scenario_board) \<and> col_ids b = col_ids scenario_board"
    using webview_main_drop_renders [OF st run] by simp
  with run show ?thesis unfolding p_def by blast
qed

end
