(* ===== verification/Json.thy ===== *)
theory Json
  imports Board
begin

text \<open>
  The text layer of the board document: \<open>JSON.parse(document.getText())\<close> on the way in
  and \<open>JSON.stringify(data, null, 2)\<close> on the way out.  Both are ECMAScript built-ins,
  modelled here from the standard (ECMA-262, sections JSON.parse and JSON.stringify
  with the gap of two spaces).  A parsed object keeps its keys in insertion order and a
  repeated key replaces the value at the first occurrence, as an ECMAScript object
  does.  The parser accepts the whole JSON grammar: a number with a fraction or an
  exponent, and a text valid only through a \<open>\\u\<close> escape above U+00FF (strings are
  Latin-1 here), are read into the placeholder \<open>JOther\<close> rather than rejected, so
  that \<open>JSON_parse\<close> answers \<open>None\<close> only for a syntax error.  Not modelled: the value
  of such a number or string, and the numeric ordering ECMAScript gives to keys that
  are array indices (the theorems assume no such keys).

  The lemmas show that each parsing step consumes input (\<open>parse_length\<close>), that the
  fuel \<open>JSON_parse\<close> gives is enough (\<open>parse_total\<close>) and that more fuel changes
  nothing (\<open>parse_mono\<close>); that a quoted string, an integer and, by induction on the
  value, every serialised value are read back followed by any delimiter
  (\<open>parse_quote\<close>, \<open>parse_number_int\<close>, \<open>parse_ser\<close>); and that parsed objects have
  distinct keys (\<open>parse_unique\<close>).
\<close>

subsection \<open>JSON values\<close>

text \<open>
  \<open>JOther s\<close> is a value the model reads but does not compute with, kept as its source
  text \<open>s\<close>: a number with a fraction or an exponent, or a whole text that is valid JSON
  only through a \<open>\\u\<close> escape above U+00FF (a character a Latin-1 \<open>string\<close> cannot
  hold).  The program never writes one: it serialises boards only.
\<close>

datatype json = JNull | JBool bool | JNum int | JStr string | JArr "json list" | JObj "(string \<times> json) list"
  | JOther string

subsection \<open>JSON.stringify with a gap of two spaces\<close>

definition hex_digit :: "nat \<Rightarrow> char" where
  "hex_digit d = (if d < 10 then char_of (48 + d) else char_of (87 + d))"

text \<open>QuoteJSONString, one code unit.\<close>

definition quote_char :: "char \<Rightarrow> string" where
  "quote_char c =
     (let n = of_char c :: nat
      in if n = 34 then [CHR 0x5C, CHR 0x22]
         else if n = 92 then [CHR 0x5C, CHR 0x5C]
         else if n = 8 then [CHR 0x5C, CHR ''b'']
         else if n = 12 then [CHR 0x5C, CHR ''f'']
         else if n = 10 then [CHR 0x5C, CHR ''n'']
         else if n = 13 then [CHR 0x5C, CHR ''r'']
         else if n = 9 then [CHR 0x5C, CHR ''t'']
         else if n < 32 then [CHR 0x5C, CHR ''u'', CHR ''0'', CHR ''0'', hex_digit (n div 16), hex_digit (n mod 16)]
         else [c])"

definition quote :: "string \<Rightarrow> string" where
  "quote s = CHR 0x22 # concat (map quote_char s) @ [CHR 0x22]"

definition int_str :: "int \<Rightarrow> string" where
  "int_str i = (if i < 0 then CHR ''-'' # num_str (nat (- i)) else num_str (nat i))"

definition indent :: "nat \<Rightarrow> string" where
  "indent n = replicate (2 * n) (CHR '' '')"

text \<open>
  SerializeJSONArray and SerializeJSONObject with gap \<open>"  "\<close>: an empty array or object
  is \<open>[]\<close> or \<open>{}\<close>; otherwise each element goes on its own line, indented one step
  more than the container, elements separated by a comma, and the closing bracket on
  a line of its own at the container's indentation.  A member is the quoted key, a
  colon, a space and the value.
\<close>

fun join_lines :: "string \<Rightarrow> string list \<Rightarrow> string" where
  "join_lines sep [] = []"
| "join_lines sep [x] = x"
| "join_lines sep (x # y # xs) = x @ sep @ join_lines sep (y # xs)"

definition layout :: "nat \<Rightarrow> char \<Rightarrow> char \<Rightarrow> string list \<Rightarrow> string" where
  "layout n op cl items =
     (if items = [] then [op, cl]
      else op # CHR ''\<newline>'' # indent (Suc n) @
           join_lines (CHR '','' # CHR ''\<newline>'' # indent (Suc n)) items @
           CHR ''\<newline>'' # indent n @ [cl])"

fun ser :: "nat \<Rightarrow> json \<Rightarrow> string" where
  "ser n JNull = ''null''"
| "ser n (JBool b) = (if b then ''true'' else ''false'')"
| "ser n (JNum i) = int_str i"
| "ser n (JOther s) = s"
| "ser n (JStr s) = quote s"
| "ser n (JArr xs) = layout n (CHR ''['') (CHR '']'') (map (ser (Suc n)) xs)"
| "ser n (JObj kvs) = layout n (CHR ''{'') (CHR ''}'') (map (\<lambda>(k, v). quote k @ CHR '':'' # CHR '' '' # ser (Suc n) v) kvs)"

definition JSON_stringify :: "json \<Rightarrow> string" where
  "JSON_stringify v = ser 0 v"

subsection \<open>JSON.parse\<close>

text \<open>
  A parser returns the value and the rest of the input, a syntax error (\<open>PErr\<close>: the
  built-in throws a \<open>SyntaxError\<close>), or \<open>PFuel\<close> when the fuel it was given is used up.
  \<open>json_read\<close> gives enough fuel for the whole text (lemma \<open>parse_total\<close>).
\<close>

datatype 'a presult = POk 'a string | PErr | PFuel

definition json_ws :: "char \<Rightarrow> bool" where
  "json_ws c \<longleftrightarrow> c \<in> {CHR '' '', CHR 0x09, CHR ''\<newline>'', CHR 0x0D}"

definition skip_ws :: "string \<Rightarrow> string" where
  "skip_ws s = dropWhile json_ws s"

definition is_digit :: "char \<Rightarrow> bool" where
  "is_digit c \<longleftrightarrow> (48::nat) \<le> of_char c \<and> of_char c \<le> (57::nat)"

definition digit_val :: "char \<Rightarrow> nat" where
  "digit_val c = of_char c - 48"

definition digits_val :: "string \<Rightarrow> nat" where
  "digits_val ds = foldl (\<lambda>a d. 10 * a + digit_val d) 0 ds"

definition hex_val :: "char \<Rightarrow> nat option" where
  "hex_val c =
     (let n = of_char c :: nat
      in if 48 \<le> n \<and> n \<le> 57 then Some (n - 48)
         else if 97 \<le> n \<and> n \<le> 102 then Some (n - 87)
         else if 65 \<le> n \<and> n \<le> 70 then Some (n - 55)
         else None)"

definition unescape :: "char \<Rightarrow> char option" where
  "unescape e =
     (if e = CHR 0x22 then Some (CHR 0x22)
      else if e = CHR 0x5C then Some (CHR 0x5C)
      else if e = CHR ''/'' then Some (CHR ''/'')
      else if e = CHR ''b'' then Some (char_of (8::nat))
      else if e = CHR ''f'' then Some (char_of (12::nat))
      else if e = CHR ''n'' then Some (CHR ''\<newline>'')
      else if e = CHR ''r'' then Some (CHR 0x0D)
      else if e = CHR ''t'' then Some (CHR 0x09)
      else None)"

text \<open>The characters of a string literal after its opening quote, up to the closing one.\<close>

fun parse_chars :: "string \<Rightarrow> (string \<times> string) option" where
  "parse_chars [] = None"
| "parse_chars (c # s) =
     (if c = CHR 0x22 then Some ([], s)
      else if c = CHR 0x5C then
        (case s of
          [] \<Rightarrow> None
        | e # s' \<Rightarrow>
            (case unescape e of
              Some d \<Rightarrow> map_option (apfst (Cons d)) (parse_chars s')
            | None \<Rightarrow>
                (if e = CHR ''u'' then
                   (case s' of
                     a # b # x # y # s'' \<Rightarrow>
                       (case (hex_val a, hex_val b, hex_val x, hex_val y) of
                         (Some ha, Some hb, Some hx, Some hy) \<Rightarrow>
                           (let n = 4096 * ha + 256 * hb + 16 * hx + hy
                            in if n < 256 then map_option (apfst (Cons (char_of n))) (parse_chars s'') else None)
                       | _ \<Rightarrow> None)
                   | _ \<Rightarrow> None)
                 else None)))
      else if (of_char c :: nat) < 32 then None
      else map_option (apfst (Cons c)) (parse_chars s))"

text \<open>
  The fraction \<open>. digits\<close> and the exponent \<open>e [+-] digits\<close> of a number, each
  optional: the rest of the input after them, or \<open>None\<close> when one is started and has no
  digit.
\<close>

definition frac_part :: "string \<Rightarrow> string option" where
  "frac_part r =
     (case r of
       c # t \<Rightarrow> if c = CHR ''.'' then (if takeWhile is_digit t = [] then None else Some (dropWhile is_digit t)) else Some r
     | [] \<Rightarrow> Some r)"

definition exp_part :: "string \<Rightarrow> string option" where
  "exp_part r =
     (case r of
       c # t \<Rightarrow>
         if c = CHR ''e'' \<or> c = CHR ''E'' then
           (let t' = (case t of d # u \<Rightarrow> if d = CHR ''+'' \<or> d = CHR ''-'' then u else t | [] \<Rightarrow> t)
            in if takeWhile is_digit t' = [] then None else Some (dropWhile is_digit t'))
         else Some r
     | [] \<Rightarrow> Some r)"

text \<open>
  A number: an optional minus and the digits, no leading zero, then an optional
  fraction and exponent.  An integer is a \<open>JNum\<close>; a number with a fraction or an
  exponent is kept as its source text.
\<close>

definition parse_number :: "string \<Rightarrow> json presult" where
  "parse_number s =
     (let neg = (s \<noteq> [] \<and> hd s = CHR ''-'');
          s1 = (if neg then tl s else s);
          ds = takeWhile is_digit s1;
          r = dropWhile is_digit s1
      in if ds = [] \<or> (hd ds = CHR ''0'' \<and> length ds > 1) then PErr
         else if r \<noteq> [] \<and> hd r \<in> {CHR ''.'', CHR ''e'', CHR ''E''} then
           (case frac_part r of
             None \<Rightarrow> PErr
           | Some r1 \<Rightarrow> (case exp_part r1 of None \<Rightarrow> PErr | Some r' \<Rightarrow> POk (JOther (take (length s - length r') s)) r'))
         else POk (JNum (if neg then - int (digits_val ds) else int (digits_val ds))) r)"

definition parse_lit :: "string \<Rightarrow> json \<Rightarrow> string \<Rightarrow> json presult" where
  "parse_lit lit v s = (if take (length lit) s = lit then POk v (drop (length lit) s) else PErr)"

text \<open>A key defined again replaces the value and keeps its place.\<close>

definition obj_put :: "(string \<times> json) list \<Rightarrow> string \<Rightarrow> json \<Rightarrow> (string \<times> json) list" where
  "obj_put kvs k v = (if k \<in> fst ` set kvs then map (\<lambda>(k', v'). if k' = k then (k', v) else (k', v')) kvs else kvs @ [(k, v)])"

fun parse_value :: "nat \<Rightarrow> string \<Rightarrow> json presult"
and parse_elems :: "nat \<Rightarrow> json list \<Rightarrow> string \<Rightarrow> json presult"
and parse_members :: "nat \<Rightarrow> (string \<times> json) list \<Rightarrow> string \<Rightarrow> json presult" where
  "parse_value 0 s = PFuel"
| "parse_value (Suc f) s =
     (case skip_ws s of
       [] \<Rightarrow> PErr
     | c # r \<Rightarrow>
         if c = CHR ''['' then
           (case skip_ws r of
             d # r' \<Rightarrow> if d = CHR '']'' then POk (JArr []) r' else parse_elems f [] r
           | [] \<Rightarrow> PErr)
         else if c = CHR ''{'' then
           (case skip_ws r of
             d # r' \<Rightarrow> if d = CHR ''}'' then POk (JObj []) r' else parse_members f [] r
           | [] \<Rightarrow> PErr)
         else if c = CHR 0x22 then
           (case parse_chars r of Some (str, r') \<Rightarrow> POk (JStr str) r' | None \<Rightarrow> PErr)
         else if c = CHR ''n'' then parse_lit ''null'' JNull (c # r)
         else if c = CHR ''t'' then parse_lit ''true'' (JBool True) (c # r)
         else if c = CHR ''f'' then parse_lit ''false'' (JBool False) (c # r)
         else if c = CHR ''-'' \<or> is_digit c then parse_number (c # r)
         else PErr)"
| "parse_elems 0 acc s = PFuel"
| "parse_elems (Suc f) acc s =
     (case parse_value f s of
       POk v r \<Rightarrow>
         (case skip_ws r of
           d # r' \<Rightarrow>
             if d = CHR '','' then parse_elems f (acc @ [v]) r'
             else if d = CHR '']'' then POk (JArr (acc @ [v])) r'
             else PErr
         | [] \<Rightarrow> PErr)
     | PErr \<Rightarrow> PErr
     | PFuel \<Rightarrow> PFuel)"
| "parse_members 0 acc s = PFuel"
| "parse_members (Suc f) acc s =
     (case skip_ws s of
       q # r \<Rightarrow>
         if q \<noteq> CHR 0x22 then PErr
         else (case parse_chars r of
           None \<Rightarrow> PErr
         | Some (k, r1) \<Rightarrow>
             (case skip_ws r1 of
               d # r2 \<Rightarrow>
                 if d \<noteq> CHR '':'' then PErr
                 else (case parse_value f r2 of
                   POk v r3 \<Rightarrow>
                     (case skip_ws r3 of
                       e # r4 \<Rightarrow>
                         if e = CHR '','' then parse_members f (obj_put acc k v) r4
                         else if e = CHR ''}'' then POk (JObj (obj_put acc k v)) r4
                         else PErr
                     | [] \<Rightarrow> PErr)
                 | PErr \<Rightarrow> PErr
                 | PFuel \<Rightarrow> PFuel)
             | [] \<Rightarrow> PErr))
     | [] \<Rightarrow> PErr)"

text \<open>A whole text: one value and white space.\<close>

definition json_read :: "string \<Rightarrow> json option" where
  "json_read text =
     (case parse_value (2 * length text + 1) text of
       POk v r \<Rightarrow> if skip_ws r = [] then Some v else None
     | _ \<Rightarrow> None)"

text \<open>
  The text with the four hex digits of every \<open>\\u\<close> escape above U+00FF replaced by
  \<open>0000\<close>.  Only hex digits after a backslash and a \<open>u\<close> change, to hex digits: inside
  a string they stay an escape or plain characters, and outside a string the
  backslash is already a syntax error, so the text is valid JSON exactly when the
  original is.
\<close>

fun erase_wide :: "string \<Rightarrow> string" where
  "erase_wide (c # d # a # b # x # y # s) =
     (if c = CHR 0x5C \<and> d = CHR ''u'' \<and>
         (case (hex_val a, hex_val b, hex_val x, hex_val y) of
           (Some ha, Some hb, Some hx, Some hy) \<Rightarrow> 256 \<le> 4096 * ha + 256 * hb + 16 * hx + hy
         | _ \<Rightarrow> False)
      then c # d # CHR ''0'' # CHR ''0'' # CHR ''0'' # CHR ''0'' # erase_wide s
      else c # erase_wide (d # a # b # x # y # s))"
| "erase_wide s = s"

text \<open>
  \<open>JSON.parse\<close>: \<open>None\<close> is the \<open>SyntaxError\<close> it throws.  A value followed by more
  than white space is an error whatever follows; a text the parser stops in, but
  which is valid through a wide \<open>\\u\<close> escape, is read as \<open>JOther\<close>.
\<close>

definition JSON_parse :: "string \<Rightarrow> json option" where
  "JSON_parse text =
     (case parse_value (2 * length text + 1) text of
       POk v r \<Rightarrow> if skip_ws r = [] then Some v else None
     | _ \<Rightarrow> if json_read (erase_wide text) = None then None else Some (JOther text))"

subsection \<open>Well-formed values\<close>

text \<open>
  A value whose objects have pairwise distinct keys and no key made only of digits
  (keys that ECMAScript would order as array indices): the values \<open>JSON.stringify\<close>
  serialises in the order the model keeps.  \<open>delim\<close> holds of the text that may follow
  a serialised value inside a serialised container.
\<close>

fun json_wf :: "json \<Rightarrow> bool" where
  "json_wf (JArr xs) = (\<forall>x\<in>set xs. json_wf x)"
| "json_wf (JObj kvs) = (distinct (map fst kvs) \<and> (\<forall>kv\<in>set kvs. \<not> (fst kv \<noteq> [] \<and> (\<forall>c\<in>set (fst kv). is_digit c)) \<and> json_wf (snd kv)))"
| "json_wf (JOther s) = False"
| "json_wf _ = True"

fun json_unique :: "json \<Rightarrow> bool" where
  "json_unique (JArr xs) = (\<forall>x\<in>set xs. json_unique x)"
| "json_unique (JObj kvs) = (distinct (map fst kvs) \<and> (\<forall>kv\<in>set kvs. json_unique (snd kv)))"
| "json_unique _ = True"

definition delim :: "string \<Rightarrow> bool" where
  "delim rest \<longleftrightarrow> rest = [] \<or> hd rest \<in> {CHR '','', CHR ''\<newline>''}"

subsection \<open>The parser consumes its input and terminates\<close>

lemma skip_ws_length: "length (skip_ws s) \<le> length s"
  by (simp add: skip_ws_def length_dropWhile_le)

lemma skip_ws_Cons: "skip_ws s = c # r \<Longrightarrow> length r < length s"
  using skip_ws_length [of s] by simp

lemma parse_chars_step:
  assumes "parse_chars (c # t) = Some (x, r)"
  shows "r = t \<or> (\<exists>u y. length u < length (c # t) \<and> parse_chars u = Some (y, r))"
proof (cases "c = CHR 0x22")
  case True
  with assms show ?thesis by simp
next
  case nq: False
  show ?thesis
  proof (cases "c = CHR 0x5C")
    case False
    with nq assms have "map_option (apfst (Cons c)) (parse_chars t) = Some (x, r)"
      by (simp split: if_splits)
    then show ?thesis by (cases "parse_chars t") auto
  next
    case bs: True
    then obtain e s' where t: "t = e # s'" using assms nq by (cases t) auto
    show ?thesis
    proof (cases "unescape e")
      case (Some d)
      with assms nq bs t have "map_option (apfst (Cons d)) (parse_chars s') = Some (x, r)" by simp
      with t show ?thesis by (cases "parse_chars s'") auto
    next
      case None
      with assms nq bs t obtain a b x' y s'' where s': "s' = a # b # x' # y # s''"
        by (auto split: if_splits list.splits)
      with assms nq bs t None obtain y where "parse_chars s'' = Some (y, r)"
        by (auto simp: Let_def split: if_splits option.splits)
      with t s' show ?thesis by auto
    qed
  qed
qed

lemma parse_chars_length: "parse_chars s = Some (x, r) \<Longrightarrow> length r < length s"
proof (induction s arbitrary: x rule: length_induct)
  case (1 s)
  then obtain c t where s: "s = c # t" by (cases s) auto
  from parse_chars_step [of c t x r] "1.prems" s
  show ?case using "1.IH" s by fastforce
qed

lemma frac_exp_length:
  "frac_part r = Some r1 \<Longrightarrow> length r1 \<le> length r"
  "exp_part r = Some r1 \<Longrightarrow> length r1 \<le> length r"
  by (auto simp: frac_part_def exp_part_def Let_def split: list.splits if_splits
      intro: le_trans [OF length_dropWhile_le])

lemma parse_number_length: "s \<noteq> [] \<Longrightarrow> parse_number s = POk v r \<Longrightarrow> length r < length s"
proof -
  assume ne: "s \<noteq> []" and p: "parse_number s = POk v r"
  define s1 where "s1 = (if hd s = CHR ''-'' then tl s else s)"
  have "takeWhile is_digit s1 \<noteq> []" and r: "length r \<le> length (dropWhile is_digit s1)"
    using p ne by (auto simp: parse_number_def Let_def s1_def split: if_splits option.splits
        dest!: frac_exp_length)
  then have "length r < length s1"
    by (metis le_less_trans length_append less_add_same_cancel2 length_greater_0_conv takeWhile_dropWhile_id)
  moreover have "length s1 \<le> length s" using ne by (simp add: s1_def)
  ultimately show ?thesis by simp
qed

lemma parse_lit_length:
  assumes "lit \<noteq> []" and "parse_lit lit v s = POk w r"
  shows "length r < length s"
proof -
  have tk: "take (length lit) s = lit" and r: "r = drop (length lit) s"
    using assms(2) by (auto simp: parse_lit_def split: if_splits)
  from tk have "length lit \<le> length s" by (metis length_take min.absorb_iff2)
  with assms(1) r show ?thesis by (cases lit) auto
qed

lemma parse_value_Suc:
  "skip_ws s = c # t \<Longrightarrow> parse_value (Suc f) s =
     (if c = CHR ''['' then
        (case skip_ws t of d # r' \<Rightarrow> if d = CHR '']'' then POk (JArr []) r' else parse_elems f [] t | [] \<Rightarrow> PErr)
      else if c = CHR ''{'' then
        (case skip_ws t of d # r' \<Rightarrow> if d = CHR ''}'' then POk (JObj []) r' else parse_members f [] t | [] \<Rightarrow> PErr)
      else if c = CHR 0x22 then (case parse_chars t of Some (str, r') \<Rightarrow> POk (JStr str) r' | None \<Rightarrow> PErr)
      else if c = CHR ''n'' then parse_lit ''null'' JNull (c # t)
      else if c = CHR ''t'' then parse_lit ''true'' (JBool True) (c # t)
      else if c = CHR ''f'' then parse_lit ''false'' (JBool False) (c # t)
      else if c = CHR ''-'' \<or> is_digit c then parse_number (c # t)
      else PErr)"
  by simp

lemma parse_value_scalar:
  assumes ws: "skip_ws s = c # t" and nb: "c \<noteq> CHR ''['' \<and> c \<noteq> CHR ''{''"
    and p: "parse_value (Suc f) s = POk v r"
  shows "length r \<le> length t"
proof -
  note q = p [unfolded parse_value_Suc [OF ws]]
  show ?thesis
  proof (cases "c = CHR 0x22")
    case True
    with nb q show ?thesis by (cases "parse_chars t") (auto dest: parse_chars_length)
  next
    case False
    with nb q have "parse_lit ''null'' JNull (c # t) = POk v r \<or> parse_lit ''true'' (JBool True) (c # t) = POk v r \<or>
        parse_lit ''false'' (JBool False) (c # t) = POk v r \<or> parse_number (c # t) = POk v r"
      by (simp split: if_splits)
    then have "length r < length (c # t)"
      by (elim disjE) (metis list.discI parse_lit_length parse_number_length)+
    then show ?thesis by simp
  qed
qed

lemma parse_elems_step:
  assumes "parse_elems (Suc f) acc s = POk v r"
  obtains w r1 r' where "parse_value f s = POk w r1" "skip_ws r1 = CHR '','' # r'"
      "parse_elems f (acc @ [w]) r' = POk v r"
  | w r1 where "parse_value f s = POk w r1" "skip_ws r1 = CHR '']'' # r" "v = JArr (acc @ [w])"
  using assms by (auto split: presult.splits list.splits if_splits)

lemma parse_members_step:
  assumes "parse_members (Suc f) acc s = POk v r"
  obtains q r0 k r1 d r2 w r3 e r4 where "skip_ws s = q # r0" "parse_chars r0 = Some (k, r1)"
      "skip_ws r1 = d # r2" "parse_value f r2 = POk w r3" "skip_ws r3 = e # r4"
      "q = CHR 0x22" "d = CHR '':''"
      "e = CHR '','' \<and> parse_members f (obj_put acc k w) r4 = POk v r \<or>
       e = CHR ''}'' \<and> r4 = r \<and> v = JObj (obj_put acc k w)"
proof -
  obtain q r0 where ws: "skip_ws s = q # r0" using assms by (cases "skip_ws s") auto
  obtain k r1 where pc: "parse_chars r0 = Some (k, r1)"
    using assms ws by (cases "parse_chars r0") (auto split: if_splits)
  obtain d r2 where ws1: "skip_ws r1 = d # r2"
    using assms ws pc by (cases "skip_ws r1") (auto split: if_splits)
  obtain w r3 where pv: "parse_value f r2 = POk w r3"
    using assms ws pc ws1 by (cases "parse_value f r2") (auto split: if_splits)
  obtain e r4 where ws3: "skip_ws r3 = e # r4"
    using assms ws pc ws1 pv by (cases "skip_ws r3") (auto split: if_splits)
  have "e = CHR '','' \<and> parse_members f (obj_put acc k w) r4 = POk v r \<or>
        e = CHR ''}'' \<and> r4 = r \<and> v = JObj (obj_put acc k w)"
    using assms ws pc ws1 pv ws3 by (auto split: if_splits)
  moreover have "q = CHR 0x22" "d = CHR '':''"
    using assms ws pc ws1 by (auto split: if_splits)
  ultimately show ?thesis using ws pc ws1 pv ws3 that by blast
qed

lemma parse_length:
  "parse_value f s = POk v r \<Longrightarrow> length r < length s"
  "parse_elems f acc s = POk v r \<Longrightarrow> length r < length s"
  "parse_members f acc' s = POk v r \<Longrightarrow> length r < length s"
proof (induction f s and f acc s and f acc' s arbitrary: v r and v r and v r
       rule: parse_value_parse_elems_parse_members.induct)
  case (2 f s)
  obtain c t where ws: "skip_ws s = c # t"
    using "2.prems" by (cases "skip_ws s") auto
  have lt: "length t < length s" using skip_ws_Cons [OF ws] .
  note p = "2.prems" [unfolded parse_value_Suc [OF ws]]
  show ?case
  proof (cases "c = CHR ''['' \<or> c = CHR ''{''")
    case br: True
    then obtain d r' where t: "skip_ws t = d # r'" using p by (cases "skip_ws t") auto
    show ?thesis
    proof (cases "c = CHR ''['' \<and> d = CHR '']'' \<or> c = CHR ''{'' \<and> d = CHR ''}''")
      case True
      with p t lt skip_ws_Cons [OF t] show ?thesis by auto
    next
      case False
      show ?thesis
      proof (cases "c = CHR ''[''")
        case True
        with p t False have "parse_elems f [] t = POk v r" by simp
        from "2.IH"(1) [OF ws True t _ this] True False lt show ?thesis by auto
      next
        case nb: False
        with br have c: "c = CHR ''{''" by simp
        with p t False nb have "parse_members f [] t = POk v r" by simp
        from "2.IH"(2) [OF ws nb c t _ this] c False lt show ?thesis by auto
      qed
    qed
  next
    case False
    then have "length r \<le> length t" using parse_value_scalar [OF ws _ "2.prems"] by blast
    with lt show ?thesis by linarith
  qed
next
  case (4 f acc s)
  from "4.prems" show ?case
  proof (cases rule: parse_elems_step)
    case (1 w r1 r')
    have "length r1 < length s" using "4.IH"(1) 1(1) .
    moreover have "length r' < length r1" using skip_ws_Cons [OF 1(2)] .
    moreover have "length r < length r'" using "4.IH"(2) [OF 1(1) 1(2) refl 1(3)] .
    ultimately show ?thesis by linarith
  next
    case (2 w r1)
    have "length r1 < length s" using "4.IH"(1) 2(1) .
    with skip_ws_Cons [OF 2(2)] show ?thesis by linarith
  qed
next
  case (6 f acc s)
  from "6.prems" show ?case
  proof (cases rule: parse_members_step)
    case (1 q r0 k r1 d r2 w r3 e r4)
    note IH1 = "6.IH"(1) [OF 1(1) _ 1(2) refl 1(3) _ 1(4)] and IH2 = "6.IH"(2) [OF 1(1) _ 1(2) refl 1(3) _ 1(4) 1(5)]
    have "length r0 < length s" using skip_ws_Cons [OF 1(1)] .
    moreover have "length r1 < length r0" using parse_chars_length [OF 1(2)] .
    moreover have "length r2 < length r1" using skip_ws_Cons [OF 1(3)] .
    moreover have "length r3 < length r2" using IH1 1 by simp
    moreover have "length r4 < length r3" using skip_ws_Cons [OF 1(5)] .
    moreover have "length r \<le> length r4" using IH2 1 by (auto intro: less_imp_le_nat)
    ultimately show ?thesis by linarith
  qed
qed simp_all

lemma parse_members_err:
  assumes "\<not> (\<exists>q r0 k r1 d r2. skip_ws s = q # r0 \<and> q = CHR 0x22 \<and> parse_chars r0 = Some (k, r1) \<and>
                 skip_ws r1 = d # r2 \<and> d = CHR '':'')"
  shows "parse_members (Suc f) acc s = PErr"
proof (cases "skip_ws s")
  case (Cons q r0)
  show ?thesis
  proof (cases "q = CHR 0x22")
    case True
    show ?thesis
    proof (cases "parse_chars r0")
      case (Some kr)
      then obtain k r1 where kr: "parse_chars r0 = Some (k, r1)" by (cases kr) auto
      show ?thesis
      proof (cases "skip_ws r1")
        case (Cons d r2)
        with assms \<open>skip_ws s = q # r0\<close> True kr have "d \<noteq> CHR '':''" by blast
        with Cons \<open>skip_ws s = q # r0\<close> True kr show ?thesis by simp
      qed (use \<open>skip_ws s = q # r0\<close> True kr in simp)
    qed (use \<open>skip_ws s = q # r0\<close> True in simp)
  qed (use Cons in simp)
qed simp

lemma parse_mono:
  "parse_value f s \<noteq> PFuel \<Longrightarrow> f \<le> g \<Longrightarrow> parse_value g s = parse_value f s"
  "parse_elems f acc s \<noteq> PFuel \<Longrightarrow> f \<le> g \<Longrightarrow> parse_elems g acc s = parse_elems f acc s"
  "parse_members f acc' s \<noteq> PFuel \<Longrightarrow> f \<le> g \<Longrightarrow> parse_members g acc' s = parse_members f acc' s"
proof (induction f s and f acc s and f acc' s arbitrary: g and g and g
       rule: parse_value_parse_elems_parse_members.induct)
  case (2 f s)
  from "2.prems"(2) obtain g' where g: "g = Suc g'" and fg: "f \<le> g'" by (cases g) auto
  show ?case
  proof (cases "skip_ws s")
    case Nil
    then show ?thesis by (simp add: g)
  next
    case (Cons c t)
    note eq = parse_value_Suc [OF Cons]
    show ?thesis
    proof (cases "c = CHR ''['' \<or> c = CHR ''{''")
      case True
      show ?thesis
      proof (cases "skip_ws t")
        case Nil
        then show ?thesis by (simp add: g eq del: parse_value.simps)
      next
        case (Cons d r')
        show ?thesis
        proof (cases "c = CHR ''['' \<and> d = CHR '']'' \<or> c = CHR ''{'' \<and> d = CHR ''}''")
          case True
          then show ?thesis using Cons by (auto simp: g eq simp del: parse_value.simps)
        next
          case nd: False
          show ?thesis
          proof (cases "c = CHR ''[''")
            case True
            with "2.prems"(1) nd Cons have "parse_elems f [] t \<noteq> PFuel" by (simp add: eq del: parse_value.simps)
            from "2.IH"(1) [OF \<open>skip_ws s = c # t\<close> True Cons _ this fg] True nd Cons show ?thesis
              by (simp add: g eq del: parse_value.simps)
          next
            case nb: False
            with \<open>c = CHR ''['' \<or> c = CHR ''{''\<close> have c: "c = CHR ''{''" by simp
            with "2.prems"(1) nd nb Cons have "parse_members f [] t \<noteq> PFuel" by (simp add: eq del: parse_value.simps)
            from "2.IH"(2) [OF \<open>skip_ws s = c # t\<close> nb c Cons _ this fg] c nd nb Cons show ?thesis
              by (simp add: g eq del: parse_value.simps)
          qed
        qed
      qed
    next
      case False
      then show ?thesis by (simp add: g eq del: parse_value.simps)
    qed
  qed
next
  case (4 f acc s)
  from "4.prems"(2) obtain g' where g: "g = Suc g'" and fg: "f \<le> g'" by (cases g) auto
  have v: "parse_value f s \<noteq> PFuel" using "4.prems"(1) by (auto split: presult.splits)
  note veq = "4.IH"(1) [OF v fg]
  show ?case
  proof (cases "parse_value f s")
    case (POk w r1)
    show ?thesis
    proof (cases "skip_ws r1")
      case Nil
      with POk veq show ?thesis by (simp add: g)
    next
      case (Cons d r')
      show ?thesis
      proof (cases "d = CHR '',''")
        case True
        with "4.prems"(1) POk Cons have "parse_elems f (acc @ [w]) r' \<noteq> PFuel" by simp
        from "4.IH"(2) [OF POk Cons True this fg] POk Cons True veq show ?thesis by (simp add: g)
      next
        case False
        with POk Cons veq show ?thesis by (simp add: g)
      qed
    qed
  qed (use v veq g in simp_all)
next
  case (6 f acc s)
  from "6.prems"(2) obtain g' where g: "g = Suc g'" and fg: "f \<le> g'" by (cases g) auto
  show ?case
  proof (cases "\<exists>q r0 k r1 d r2. skip_ws s = q # r0 \<and> q = CHR 0x22 \<and> parse_chars r0 = Some (k, r1) \<and>
                 skip_ws r1 = d # r2 \<and> d = CHR '':''")
    case False
    show ?thesis using parse_members_err [OF False, of g' acc] parse_members_err [OF False, of f acc]
      by (simp only: g)
  next
    case True
    then obtain q r0 k r1 d r2 where ws: "skip_ws s = q # r0" "q = CHR 0x22" "parse_chars r0 = Some (k, r1)"
      "skip_ws r1 = d # r2" "d = CHR '':''" by blast
    have v: "parse_value f r2 \<noteq> PFuel" using "6.prems"(1) ws by (auto split: presult.splits)
    note veq = "6.IH"(1) [OF ws(1) _ ws(3) refl ws(4) _ v fg]
    show ?thesis
    proof (cases "parse_value f r2")
      case (POk w r3)
      show ?thesis
      proof (cases "skip_ws r3")
        case Nil
        with POk veq ws show ?thesis by (simp add: g)
      next
        case (Cons e r4)
        show ?thesis
        proof (cases "e = CHR '',''")
          case True
          with "6.prems"(1) ws POk Cons have "parse_members f (obj_put acc k w) r4 \<noteq> PFuel" by simp
          from "6.IH"(2) [OF ws(1) _ ws(3) refl ws(4) _ POk Cons True this fg] ws POk Cons True veq
          show ?thesis by (simp add: g)
        next
          case False
          with POk Cons veq ws show ?thesis by (simp add: g)
        qed
      qed
    qed (use v veq g ws in simp_all)
  qed
qed simp_all

lemma parse_lit_fuel: "parse_lit lit v s \<noteq> PFuel"
  by (simp add: parse_lit_def)

lemma parse_number_fuel: "parse_number s \<noteq> PFuel"
  by (simp add: parse_number_def Let_def split: option.splits)

lemma parse_total:
  "2 * length s + 1 \<le> f \<Longrightarrow> parse_value f s \<noteq> PFuel"
  "2 * length s + 2 \<le> f \<Longrightarrow> parse_elems f acc s \<noteq> PFuel"
  "2 * length s + 1 \<le> f \<Longrightarrow> parse_members f acc' s \<noteq> PFuel"
proof (induction f s and f acc s and f acc' s
       rule: parse_value_parse_elems_parse_members.induct)
  case (2 f s)
  show ?case
  proof (cases "skip_ws s")
    case Nil
    then show ?thesis by simp
  next
    case (Cons c t)
    note eq = parse_value_Suc [OF Cons]
    have lt: "length t < length s" using skip_ws_Cons [OF Cons] .
    show ?thesis
    proof (cases "c = CHR ''['' \<or> c = CHR ''{''")
      case br: True
      show ?thesis
      proof (cases "skip_ws t")
        case Nil
        with br show ?thesis by (auto simp: eq simp del: parse_value.simps)
      next
        case (Cons d r')
        show ?thesis
        proof (cases "c = CHR ''['' \<and> d = CHR '']'' \<or> c = CHR ''{'' \<and> d = CHR ''}''")
          case True
          then show ?thesis using Cons by (auto simp: eq simp del: parse_value.simps)
        next
          case nd: False
          show ?thesis
          proof (cases "c = CHR ''[''")
            case True
            have "parse_elems f [] t \<noteq> PFuel"
              using "2.IH"(1) [OF \<open>skip_ws s = c # t\<close> True Cons] True nd "2.prems" lt by simp
            with True nd Cons show ?thesis by (simp add: eq del: parse_value.simps)
          next
            case nb: False
            with br have c: "c = CHR ''{''" by simp
            have "parse_members f [] t \<noteq> PFuel"
              using "2.IH"(2) [OF \<open>skip_ws s = c # t\<close> nb c Cons] c nd "2.prems" lt by simp
            with c nb nd Cons show ?thesis by (simp add: eq del: parse_value.simps)
          qed
        qed
      qed
    next
      case False
      then show ?thesis
        by (simp add: eq parse_lit_fuel parse_number_fuel del: parse_value.simps split: option.split prod.split)
    qed
  qed
next
  case (4 f acc s)
  have v: "parse_value f s \<noteq> PFuel" using "4.IH"(1) "4.prems" by simp
  show ?case
  proof (cases "parse_value f s")
    case (POk w r1)
    have l1: "length r1 < length s" using parse_length(1) [OF POk] .
    show ?thesis
    proof (cases "skip_ws r1")
      case (Cons d r')
      have l2: "length r' < length r1" using skip_ws_Cons [OF Cons] .
      show ?thesis
      proof (cases "d = CHR '',''")
        case True
        have "parse_elems f (acc @ [w]) r' \<noteq> PFuel"
          using "4.IH"(2) [OF POk Cons True] "4.prems" l1 l2 by simp
        with POk Cons True show ?thesis by simp
      qed (use POk Cons in simp)
    qed (use POk in simp)
  qed (use v in simp_all)
next
  case (6 f acc s)
  show ?case
  proof (cases "\<exists>q r0 k r1 d r2. skip_ws s = q # r0 \<and> q = CHR 0x22 \<and> parse_chars r0 = Some (k, r1) \<and>
                 skip_ws r1 = d # r2 \<and> d = CHR '':''")
    case False
    show ?thesis using parse_members_err [OF False, of f acc] by simp
  next
    case True
    then obtain q r0 k r1 d r2 where ws: "skip_ws s = q # r0" "q = CHR 0x22" "parse_chars r0 = Some (k, r1)"
      "skip_ws r1 = d # r2" "d = CHR '':''" by blast
    have l0: "length r2 + 3 \<le> length s"
      using skip_ws_Cons [OF ws(1)] parse_chars_length [OF ws(3)] skip_ws_Cons [OF ws(4)] by linarith
    have v: "parse_value f r2 \<noteq> PFuel"
      using "6.IH"(1) [OF ws(1) _ ws(3) refl ws(4)] ws "6.prems" l0 by simp
    show ?thesis
    proof (cases "parse_value f r2")
      case (POk w r3)
      have l1: "length r3 < length r2" using parse_length(1) [OF POk] .
      show ?thesis
      proof (cases "skip_ws r3")
        case (Cons e r4)
        have l2: "length r4 < length r3" using skip_ws_Cons [OF Cons] .
        show ?thesis
        proof (cases "e = CHR '',''")
          case True
          have "parse_members f (obj_put acc k w) r4 \<noteq> PFuel"
            using "6.IH"(2) [OF ws(1) _ ws(3) refl ws(4) _ POk Cons True] ws "6.prems" l0 l1 l2 by simp
          with ws POk Cons True show ?thesis by simp
        qed (use ws POk Cons in simp)
      qed (use ws POk in simp)
    qed (use ws v in simp_all)
  qed
qed simp_all

subsection \<open>Strings and numbers are read back\<close>

lemma hex_val_digit: "d < 16 \<Longrightarrow> hex_val (hex_digit d) = Some d"
  by (auto simp: hex_val_def hex_digit_def Let_def)

lemma parse_quote_char: "parse_chars (quote_char c @ t) = map_option (apfst (Cons c)) (parse_chars t)"
proof -
  define n :: nat where "n = of_char c"
  have n256: "n < 256" by (simp add: n_def)
  have c: "c = char_of n" by (simp add: n_def)
  consider "n = 34" | "n = 92" | "n = 8" | "n = 12" | "n = 10" | "n = 13" | "n = 9"
    | "n < 32" "n \<notin> {8, 9, 10, 12, 13}" | "32 \<le> n" "n \<noteq> 34" "n \<noteq> 92"
    by (cases "n < 32") auto
  note cases = this
  have esc: "\<And>e. quote_char c = [CHR 0x5C, e] \<Longrightarrow> unescape e = Some c \<Longrightarrow> ?thesis" by simp
  have lit: "\<And>d. c = d \<longleftrightarrow> n = of_char d" by (simp add: n_def)
  from cases show ?thesis
  proof cases
    case 1
    then have "c = CHR 0x22" by (simp add: lit)
    then show ?thesis by (intro esc [of "CHR 0x22"]) (simp_all add: quote_char_def unescape_def)
  next
    case 2
    then have "c = CHR 0x5C" by (simp add: lit)
    then show ?thesis by (intro esc [of "CHR 0x5C"]) (simp_all add: quote_char_def unescape_def)
  next
    case 3
    then show ?thesis by (intro esc [of "CHR ''b''"]) (simp_all add: c quote_char_def unescape_def)
  next
    case 4
    then show ?thesis by (intro esc [of "CHR ''f''"]) (simp_all add: c quote_char_def unescape_def)
  next
    case 5
    then have "c = CHR ''\<newline>''" by (simp add: lit)
    then show ?thesis by (intro esc [of "CHR ''n''"]) (simp_all add: quote_char_def unescape_def)
  next
    case 6
    then have "c = CHR 0x0D" by (simp add: lit)
    then show ?thesis by (intro esc [of "CHR ''r''"]) (simp_all add: quote_char_def unescape_def)
  next
    case 7
    then have "c = CHR 0x09" by (simp add: lit)
    then show ?thesis by (intro esc [of "CHR ''t''"]) (simp_all add: quote_char_def unescape_def)
  next
    case 8
    have q: "quote_char c = [CHR 0x5C, CHR ''u'', CHR ''0'', CHR ''0'', hex_digit (n div 16), hex_digit (n mod 16)]"
      using 8 by (auto simp: quote_char_def n_def [symmetric] Let_def)
    have hv: "hex_val (hex_digit (n div 16)) = Some (n div 16)" "hex_val (hex_digit (n mod 16)) = Some (n mod 16)"
      using 8 by (simp_all add: hex_val_digit)
    have h0: "hex_val CHR ''0'' = Some 0" and hu: "unescape CHR ''u'' = None"
      by (simp_all add: hex_val_def unescape_def)
    have cc: "char_of (16 * (n div 16) + n mod 16) = c" "char_of n = c" using c by simp_all
    show ?thesis using 8 by (simp add: q hv h0 hu cc del: div_mult_mod_eq)
  next
    case 9
    then have q: "quote_char c = [c]" by (simp add: quote_char_def n_def [symmetric] Let_def)
    have "c \<noteq> CHR 0x22" "c \<noteq> CHR 0x5C" "\<not> (of_char c :: nat) < 32"
      using 9 by (simp_all add: lit n_def [symmetric])
    then show ?thesis by (simp add: q)
  qed
qed

lemma parse_quote: "parse_chars (concat (map quote_char s) @ CHR 0x22 # rest) = Some (s, rest)"
  by (induction s) (simp_all add: parse_quote_char)

lemma of_char_digit: "d < 10 \<Longrightarrow> of_char (digit_char d) = (48 + d :: nat)"
  by (simp add: take_bit_eq_mod)

lemma is_digit_char: "d < 10 \<Longrightarrow> is_digit (digit_char d)"
  by (simp add: is_digit_def of_char_digit del: digit_char.simps)

lemma digit_val_char: "d < 10 \<Longrightarrow> digit_val (digit_char d) = d"
  by (simp add: digit_val_def of_char_digit del: digit_char.simps)

lemma num_str_digits: "\<forall>c\<in>set (num_str n). is_digit c"
  by (induction n rule: num_str.induct) (subst num_str.simps, simp add: is_digit_char del: digit_char.simps)

lemma digits_val_snoc: "digits_val (xs @ [c]) = 10 * digits_val xs + digit_val c"
  by (simp add: digits_val_def)

lemma digits_val_num_str: "digits_val (num_str n) = n"
proof (induction n rule: num_str.induct)
  case (1 n)
  show ?case
  proof (cases "n < 10")
    case True
    then show ?thesis by (subst num_str.simps) (simp add: digits_val_def digit_val_char del: digit_char.simps)
  next
    case False
    then have "digits_val (num_str n) = 10 * digits_val (num_str (n div 10)) + digit_val (digit_char (n mod 10))"
      by (subst num_str.simps) (simp add: digits_val_snoc)
    with "1.IH" False show ?thesis by (simp add: digit_val_char del: digit_char.simps)
  qed
qed

lemma num_str_hd: "hd (num_str n) = CHR ''0'' \<Longrightarrow> num_str n = ''0''"
proof (induction n rule: num_str.induct)
  case (1 n)
  show ?case
  proof (cases "n < 10")
    case True
    with "1.prems" have "digit_char n = CHR ''0''" by (subst (asm) num_str.simps) simp
    then have "of_char (digit_char n) = (48::nat)" by simp
    then have "n = 0" using True by (simp add: of_char_digit del: digit_char.simps)
    then show ?thesis by (subst num_str.simps) (simp add: char_of_eq_iff)
  next
    case False
    then have ne: "n div 10 \<noteq> 0" by simp
    from "1.prems" False have "hd (num_str (n div 10)) = CHR ''0''"
      by (subst (asm) num_str.simps) (simp add: num_str_nonempty)
    with "1.IH" False have "num_str (n div 10) = ''0''" by simp
    then have "digits_val (num_str (n div 10)) = 0" by (simp add: digits_val_def digit_val_def)
    with ne show ?thesis by (simp add: digits_val_num_str)
  qed
qed

lemma takeWhile_digits:
  "\<forall>c\<in>set ds. is_digit c \<Longrightarrow> delim rest \<Longrightarrow> takeWhile is_digit (ds @ rest) = ds \<and> dropWhile is_digit (ds @ rest) = rest"
  by (cases rest) (auto simp: delim_def is_digit_def)

lemma parse_number_int: "delim rest \<Longrightarrow> parse_number (int_str i @ rest) = POk (JNum i) rest"
proof -
  assume d: "delim rest"
  define m where "m = (if i < 0 then nat (- i) else nat i)"
  have tw: "takeWhile is_digit (num_str m @ rest) = num_str m" "dropWhile is_digit (num_str m @ rest) = rest"
    using takeWhile_digits [OF num_str_digits d] by simp_all
  have lz: "\<not> (hd (num_str m) = CHR ''0'' \<and> length (num_str m) > 1)"
    using num_str_hd by fastforce
  have r: "\<not> (rest \<noteq> [] \<and> hd rest \<in> {CHR ''.'', CHR ''e'', CHR ''E''})" using d by (auto simp: delim_def)
  have nd: "hd (num_str m) \<noteq> CHR ''-''"
    using num_str_digits [of m] num_str_nonempty [of m] by (cases "num_str m") (auto simp: is_digit_def)
  show ?thesis
  proof (cases "i < 0")
    case True
    then show ?thesis using tw lz r num_str_nonempty [of m]
      by (auto simp: parse_number_def int_str_def m_def Let_def digits_val_num_str)
  next
    case False
    then show ?thesis using tw lz r nd num_str_nonempty [of m]
      by (auto simp: parse_number_def int_str_def m_def Let_def digits_val_num_str)
  qed
qed


subsection \<open>Serialised values are read back\<close>

lemma skip_ws_ws: "\<forall>c\<in>set w. json_ws c \<Longrightarrow> skip_ws (w @ s) = skip_ws s"
  by (induction w) (simp_all add: skip_ws_def)

lemma skip_ws_nonws: "\<not> json_ws c \<Longrightarrow> skip_ws (c # s) = c # s"
  by (simp add: skip_ws_def)

lemma indent_ws: "\<forall>c\<in>set (indent n). json_ws c"
  by (simp add: indent_def json_ws_def)

lemma parse_value_ws: "\<forall>c\<in>set w. json_ws c \<Longrightarrow> parse_value f (w @ s) = parse_value f s"
  by (cases f) (simp_all add: skip_ws_ws)

lemma parse_value_more: "parse_value f s = POk v r \<Longrightarrow> f \<le> g \<Longrightarrow> parse_value g s = POk v r"
  using parse_mono(1) [of f s g] by simp

lemma parse_elems_more: "parse_elems f acc s = POk v r \<Longrightarrow> f \<le> g \<Longrightarrow> parse_elems g acc s = POk v r"
  using parse_mono(2) [of f acc s g] by simp

lemma parse_members_more: "parse_members f acc s = POk v r \<Longrightarrow> f \<le> g \<Longrightarrow> parse_members g acc s = POk v r"
  using parse_mono(3) [of f acc s g] by simp

lemma ser_hd: "json_wf v \<Longrightarrow> \<exists>c t. ser n v = c # t \<and> \<not> json_ws c \<and> c \<noteq> CHR '']'' \<and> c \<noteq> CHR ''}''"
proof (cases v)
  case (JNum i)
  obtain d ds where ns: "num_str (nat (if i < 0 then - i else i)) = d # ds"
    using num_str_nonempty by (cases "num_str (nat (if i < 0 then - i else i))") auto
  then have "is_digit d" using num_str_digits by (metis list.set_intros(1))
  then have "\<not> json_ws d \<and> d \<noteq> CHR '']'' \<and> d \<noteq> CHR ''}''" by (auto simp: is_digit_def json_ws_def)
  with JNum ns show ?thesis by (auto simp: int_str_def json_ws_def split: if_splits)
qed (auto simp: json_ws_def quote_def layout_def)


lemma nl_ws: "\<forall>c\<in>set (CHR ''\<newline>'' # indent n). json_ws c"
  using indent_ws [of n] by (simp add: json_ws_def)

lemma skip_ws_close: "\<not> json_ws cl \<Longrightarrow> skip_ws (CHR ''\<newline>'' # indent n @ cl # rest) = cl # rest"
  using skip_ws_ws [OF nl_ws [of n], of "cl # rest"] by (simp add: skip_ws_nonws)

lemma parse_elems_ser:
  assumes "\<forall>x\<in>set xs. \<forall>n rest. delim rest \<longrightarrow> (\<exists>f. parse_value f (ser n x @ rest) = POk x rest)"
    and "xs \<noteq> []" and "\<forall>c\<in>set w. json_ws c"
  shows "\<exists>f. parse_elems f acc (w @ join_lines (CHR '','' # CHR ''\<newline>'' # indent m) (map (ser m') xs) @
            CHR ''\<newline>'' # indent n @ CHR '']'' # rest) = POk (JArr (acc @ xs)) rest"
  using assms
proof (induction xs arbitrary: acc w)
  case (Cons x xs)
  define tail where "tail = CHR ''\<newline>'' # indent n @ CHR '']'' # rest"
  have cl: "skip_ws tail = CHR '']'' # rest" unfolding tail_def by (rule skip_ws_close) (simp add: json_ws_def)
  show ?case
  proof (cases xs)
    case Nil
    have "delim tail" by (simp add: delim_def tail_def)
    with Cons.prems(1) have "\<exists>f. parse_value f (ser m' x @ tail) = POk x tail" by simp
    then obtain f where pv: "parse_value f (ser m' x @ tail) = POk x tail" ..
    have "parse_elems (Suc f) acc (w @ ser m' x @ tail) = POk (JArr (acc @ [x])) rest"
      using pv cl by (simp add: parse_value_ws [OF Cons.prems(3)] del: parse_value.simps)
    with Nil show ?thesis by (auto simp: tail_def simp del: parse_elems.simps)
  next
    case (Cons y ys)
    define sep where "sep = CHR '','' # CHR ''\<newline>'' # indent m"
    define more where "more = join_lines sep (map (ser m') xs) @ tail"
    have "delim (sep @ more)" by (simp add: delim_def sep_def)
    with Cons.prems(1) have "\<exists>f. parse_value f (ser m' x @ sep @ more) = POk x (sep @ more)" by simp
    then obtain f1 where pv: "parse_value f1 (ser m' x @ sep @ more) = POk x (sep @ more)" ..
    from Cons.IH [of "CHR ''\<newline>'' # indent m" "acc @ [x]"] Cons.prems(1) Cons nl_ws
    obtain f2 where pe: "parse_elems f2 (acc @ [x]) (CHR ''\<newline>'' # indent m @ more) = POk (JArr (acc @ x # xs)) rest"
      by (auto simp: more_def sep_def tail_def)
    have sk: "skip_ws (sep @ more) = CHR '','' # CHR ''\<newline>'' # indent m @ more"
      by (simp add: sep_def skip_ws_def json_ws_def)
    have "parse_elems (Suc (max f1 f2)) acc (w @ ser m' x @ sep @ more) = POk (JArr (acc @ x # xs)) rest"
      using parse_value_more [OF pv, of "max f1 f2"] parse_elems_more [OF pe, of "max f1 f2"] sk
      by (simp add: parse_value_ws [OF Cons.prems(3)] del: parse_value.simps)
    with Cons show ?thesis by (auto simp: more_def sep_def tail_def simp del: parse_elems.simps)
  qed
qed simp


lemma parse_member_item:
  assumes w: "\<forall>c\<in>set w. json_ws c" and pv: "parse_value f (ser m v @ R) = POk v R"
    and sk: "skip_ws R = e # r4"
  shows "parse_members (Suc f) acc (w @ quote k @ CHR '':'' # CHR '' '' # ser m v @ R) =
           (if e = CHR '','' then parse_members f (obj_put acc k v) r4
            else if e = CHR ''}'' then POk (JObj (obj_put acc k v)) r4 else PErr)"
proof -
  have s1: "skip_ws (w @ quote k @ CHR '':'' # CHR '' '' # ser m v @ R) =
              CHR 0x22 # (concat (map quote_char k) @ CHR 0x22 # CHR '':'' # CHR '' '' # ser m v @ R)"
    by (simp only: skip_ws_ws [OF w]) (simp add: quote_def skip_ws_def json_ws_def)
  have s2: "skip_ws (CHR '':'' # CHR '' '' # ser m v @ R) = CHR '':'' # CHR '' '' # ser m v @ R"
    by (simp add: skip_ws_def json_ws_def)
  have s3: "parse_value f (CHR '' '' # ser m v @ R) = POk v R"
    using parse_value_ws [of "[CHR '' '']" f "ser m v @ R"] pv by (simp add: json_ws_def)
  show ?thesis by (simp add: s1 s2 s3 sk parse_quote del: parse_value.simps)
qed

lemma obj_put_new: "k \<notin> fst ` set acc \<Longrightarrow> obj_put acc k v = acc @ [(k, v)]"
  by (simp add: obj_put_def)

lemma parse_members_ser:
  assumes "\<forall>kv\<in>set kvs. \<forall>n rest. delim rest \<longrightarrow> (\<exists>f. parse_value f (ser n (snd kv) @ rest) = POk (snd kv) rest)"
    and "kvs \<noteq> []" and "\<forall>c\<in>set w. json_ws c" and "distinct (map fst (acc @ kvs))"
  shows "\<exists>f. parse_members f acc (w @ join_lines (CHR '','' # CHR ''\<newline>'' # indent m)
              (map (\<lambda>(k, v). quote k @ CHR '':'' # CHR '' '' # ser m' v) kvs) @
            CHR ''\<newline>'' # indent n @ CHR ''}'' # rest) = POk (JObj (acc @ kvs)) rest"
  using assms
proof (induction kvs arbitrary: acc w)
  case (Cons kv kvs)
  obtain k x where kv: "kv = (k, x)" by (cases kv)
  have put: "obj_put acc k x = acc @ [(k, x)]"
    using Cons.prems(4) kv by (intro obj_put_new) auto
  define tail where "tail = CHR ''\<newline>'' # indent n @ CHR ''}'' # rest"
  have cl: "skip_ws tail = CHR ''}'' # rest" unfolding tail_def by (rule skip_ws_close) (simp add: json_ws_def)
  show ?case
  proof (cases kvs)
    case Nil
    have "delim tail" by (simp add: delim_def tail_def)
    with Cons.prems(1) kv have "\<exists>f. parse_value f (ser m' x @ tail) = POk x tail" by simp
    then obtain f where pv: "parse_value f (ser m' x @ tail) = POk x tail" ..
    have "parse_members (Suc f) acc (w @ quote k @ CHR '':'' # CHR '' '' # ser m' x @ tail) = POk (JObj (acc @ [(k, x)])) rest"
      using parse_member_item [OF Cons.prems(3) pv cl] put by simp
    with Nil kv show ?thesis by (auto simp: tail_def simp del: parse_members.simps)
  next
    case (Cons y ys)
    define sep where "sep = CHR '','' # CHR ''\<newline>'' # indent m"
    define more where "more = join_lines sep (map (\<lambda>(k, v). quote k @ CHR '':'' # CHR '' '' # ser m' v) kvs) @ tail"
    have "delim (sep @ more)" by (simp add: delim_def sep_def)
    with Cons.prems(1) kv have "\<exists>f. parse_value f (ser m' x @ sep @ more) = POk x (sep @ more)" by simp
    then obtain f1 where pv: "parse_value f1 (ser m' x @ sep @ more) = POk x (sep @ more)" ..
    have d: "distinct (map fst ((acc @ [(k, x)]) @ kvs))" using Cons.prems(4) kv by simp
    from Cons.IH [of "CHR ''\<newline>'' # indent m" "acc @ [(k, x)]"] Cons.prems(1) Cons nl_ws d
    obtain f2 where pe: "parse_members f2 (acc @ [(k, x)]) (CHR ''\<newline>'' # indent m @ more) = POk (JObj (acc @ kv # kvs)) rest"
      by (auto simp: more_def sep_def tail_def kv)
    have sk: "skip_ws (sep @ more) = CHR '','' # CHR ''\<newline>'' # indent m @ more"
      by (simp add: sep_def skip_ws_def json_ws_def)
    have "parse_members (Suc (max f1 f2)) acc (w @ quote k @ CHR '':'' # CHR '' '' # ser m' x @ sep @ more) = POk (JObj (acc @ kv # kvs)) rest"
      using parse_member_item [OF Cons.prems(3) parse_value_more [OF pv, of "max f1 f2"] sk] put
        parse_members_more [OF pe, of "max f1 f2"] by simp
    with Cons kv show ?thesis by (auto simp: more_def sep_def tail_def simp del: parse_members.simps)
  qed
qed simp


lemma join_lines_Cons: "\<exists>r. join_lines sep (x # xs) = x @ r"
  by (cases xs) auto

lemma int_str_hd: "\<exists>c t. int_str i = c # t \<and> (c = CHR ''-'' \<or> is_digit c)"
proof -
  obtain d ds where ns: "num_str (nat (if i < 0 then - i else i)) = d # ds"
    using num_str_nonempty by (cases "num_str (nat (if i < 0 then - i else i))") auto
  then have "is_digit d" using num_str_digits by (metis list.set_intros(1))
  with ns show ?thesis by (auto simp: int_str_def split: if_splits)
qed

lemma open_bracket:
  assumes "ys \<noteq> []" and "\<forall>y\<in>set ys. \<exists>c t. y = c # t \<and> \<not> json_ws c \<and> c \<noteq> cl"
  shows "\<exists>d r'. skip_ws (CHR ''\<newline>'' # indent (Suc n) @ join_lines sep ys @ tail) = d # r' \<and> d \<noteq> cl"
proof -
  obtain y ys' where ys: "ys = y # ys'" using assms(1) by (cases ys) auto
  obtain c t where y: "y = c # t" "\<not> json_ws c" "c \<noteq> cl" using assms(2) ys by auto
  obtain r where "join_lines sep ys = y @ r" using join_lines_Cons ys by metis
  moreover have "skip_ws (CHR ''\<newline>'' # indent (Suc n) @ s') = skip_ws s'" for s'
    using skip_ws_ws [OF nl_ws [of "Suc n"], of s'] by simp
  ultimately show ?thesis using y by (simp add: skip_ws_nonws)
qed

lemma parse_ser: "json_wf v \<Longrightarrow> (\<forall>i. v = JNum i \<longrightarrow> delim rest) \<Longrightarrow> \<exists>f. parse_value f (ser n v @ rest) = POk v rest"
proof (induction v arbitrary: n rest)
  case JNull
  show ?case by (rule exI [of _ 1]) (simp add: skip_ws_def json_ws_def parse_lit_def)
next
  case (JBool b)
  show ?case by (rule exI [of _ 1], cases b) (simp_all add: skip_ws_def json_ws_def parse_lit_def)
next
  case (JNum i)
  obtain c t where it: "int_str i = c # t" and c: "c = CHR ''-'' \<or> is_digit c" using int_str_hd by blast
  then have "c \<notin> {CHR ''['', CHR ''{'', CHR 0x22, CHR ''n'', CHR ''t'', CHR ''f''} \<and> \<not> json_ws c"
    by (auto simp: is_digit_def json_ws_def)
  then have "parse_value 1 (int_str i @ rest) = parse_number (int_str i @ rest)"
    using c by (simp add: it skip_ws_nonws)
  then have "parse_value 1 (ser n (JNum i) @ rest) = POk (JNum i) rest"
    using parse_number_int JNum.prems(2) by simp
  then show ?case ..
next
  case (JStr s)
  show ?case by (rule exI [of _ 1]) (simp add: skip_ws_def json_ws_def quote_def parse_quote)
next
  case (JArr xs)
  show ?case
  proof (cases "xs = []")
    case True
    then show ?thesis by (intro exI [of _ 1]) (simp add: layout_def skip_ws_def json_ws_def)
  next
    case False
    have ih: "\<forall>x\<in>set xs. \<forall>n rest. delim rest \<longrightarrow> (\<exists>f. parse_value f (ser n x @ rest) = POk x rest)"
      using JArr.IH JArr.prems(1) by fastforce
    from parse_elems_ser [OF ih False nl_ws [of "Suc n"], where acc = "[]" and m = "Suc n" and m' = "Suc n" and n = n and rest = rest]
    obtain f where pe: "parse_elems f [] (CHR ''\<newline>'' # indent (Suc n) @
        join_lines (CHR '','' # CHR ''\<newline>'' # indent (Suc n)) (map (ser (Suc n)) xs) @
        CHR ''\<newline>'' # indent n @ CHR '']'' # rest) = POk (JArr xs) rest" by auto
    have items: "\<forall>y\<in>set (map (ser (Suc n)) xs). \<exists>c t. y = c # t \<and> \<not> json_ws c \<and> c \<noteq> CHR '']''"
    proof
    fix y assume "y \<in> set (map (ser (Suc n)) xs)"
    then obtain x where "y = ser (Suc n) x" and "x \<in> set xs" by auto
    with ser_hd [of x "Suc n"] JArr.prems(1) show "\<exists>c t. y = c # t \<and> \<not> json_ws c \<and> c \<noteq> CHR '']''" by auto
  qed
    obtain d r' where sk: "skip_ws (CHR ''\<newline>'' # indent (Suc n) @
        join_lines (CHR '','' # CHR ''\<newline>'' # indent (Suc n)) (map (ser (Suc n)) xs) @
        CHR ''\<newline>'' # indent n @ CHR '']'' # rest) = d # r'" "d \<noteq> CHR '']''"
      using open_bracket [OF _ items] False by blast
    have "parse_value (Suc f) (ser n (JArr xs) @ rest) = POk (JArr xs) rest"
      using False pe sk by (simp add: layout_def skip_ws_nonws json_ws_def del: parse_elems.simps)
    then show ?thesis ..
  qed
next
  case (JObj kvs)
  show ?case
  proof (cases "kvs = []")
    case True
    then show ?thesis by (intro exI [of _ 1]) (simp add: layout_def skip_ws_def json_ws_def)
  next
    case False
    have ih: "\<forall>kv\<in>set kvs. \<forall>n rest. delim rest \<longrightarrow> (\<exists>f. parse_value f (ser n (snd kv) @ rest) = POk (snd kv) rest)"
      using JObj.IH JObj.prems(1) by fastforce
    from parse_members_ser [OF ih False nl_ws [of "Suc n"], where acc = "[]" and m = "Suc n" and m' = "Suc n" and n = n and rest = rest] JObj.prems(1)
    obtain f where pe: "parse_members f [] (CHR ''\<newline>'' # indent (Suc n) @
        join_lines (CHR '','' # CHR ''\<newline>'' # indent (Suc n)) (map (\<lambda>(k, v). quote k @ CHR '':'' # CHR '' '' # ser (Suc n) v) kvs) @
        CHR ''\<newline>'' # indent n @ CHR ''}'' # rest) = POk (JObj kvs) rest" by auto
    have items: "\<forall>y\<in>set (map (\<lambda>(k, v). quote k @ CHR '':'' # CHR '' '' # ser (Suc n) v) kvs).
        \<exists>c t. y = c # t \<and> \<not> json_ws c \<and> c \<noteq> CHR ''}''"
      by (auto simp: quote_def json_ws_def)
    obtain d r' where sk: "skip_ws (CHR ''\<newline>'' # indent (Suc n) @
        join_lines (CHR '','' # CHR ''\<newline>'' # indent (Suc n)) (map (\<lambda>(k, v). quote k @ CHR '':'' # CHR '' '' # ser (Suc n) v) kvs) @
        CHR ''\<newline>'' # indent n @ CHR ''}'' # rest) = d # r'" "d \<noteq> CHR ''}''"
      using open_bracket [OF _ items] False by blast
    have "parse_value (Suc f) (ser n (JObj kvs) @ rest) = POk (JObj kvs) rest"
      using False pe sk by (simp add: layout_def skip_ws_nonws json_ws_def del: parse_members.simps)
    then show ?thesis ..
  qed
qed simp


lemma obj_put_fst: "map fst (obj_put acc k v) = (if k \<in> fst ` set acc then map fst acc else map fst acc @ [k])"
proof -
  have "map fst (map (\<lambda>(k', v'). if k' = k then (k', v) else (k', v')) acc) = map fst acc"
    by (induction acc) (simp_all add: split_def)
  then show ?thesis by (simp add: obj_put_def)
qed
lemma obj_put_distinct: "distinct (map fst acc) \<Longrightarrow> distinct (map fst (obj_put acc k v))"
  by (simp add: obj_put_fst)

lemma obj_put_set: "kv \<in> set (obj_put acc k v) \<Longrightarrow> kv \<in> set acc \<or> snd kv = v"
  by (auto simp: obj_put_def split: if_splits)

lemma parse_number_val: "parse_number s = POk v r \<Longrightarrow> json_unique v"
  by (auto simp: parse_number_def Let_def split: if_splits option.splits)

lemma parse_lit_val: "parse_lit lit w s = POk v r \<Longrightarrow> v = w"
  by (simp add: parse_lit_def split: if_splits)

lemma parse_unique:
  "parse_value f s = POk v r \<Longrightarrow> json_unique v"
  "parse_elems f acc s = POk v r \<Longrightarrow> \<forall>x\<in>set acc. json_unique x \<Longrightarrow> json_unique v"
  "parse_members f acc' s = POk v r \<Longrightarrow> distinct (map fst acc') \<Longrightarrow> \<forall>kv\<in>set acc'. json_unique (snd kv) \<Longrightarrow> json_unique v"
proof (induction f s and f acc s and f acc' s arbitrary: v r and v r and v r
       rule: parse_value_parse_elems_parse_members.induct)
  case (2 f s)
  obtain c t where ws: "skip_ws s = c # t"
    using "2.prems" by (cases "skip_ws s") auto
  note p = "2.prems" [unfolded parse_value_Suc [OF ws]]
  show ?case
  proof (cases "c = CHR ''['' \<or> c = CHR ''{''")
    case br: True
    then obtain d r' where t: "skip_ws t = d # r'" using p by (cases "skip_ws t") auto
    show ?thesis
    proof (cases "c = CHR ''['' \<and> d = CHR '']'' \<or> c = CHR ''{'' \<and> d = CHR ''}''")
      case True
      with p t show ?thesis by auto
    next
      case False
      show ?thesis
      proof (cases "c = CHR ''[''")
        case True
        with p t False have "parse_elems f [] t = POk v r" by simp
        from "2.IH"(1) [OF ws True t _ this] True False show ?thesis by simp
      next
        case nb: False
        with br have c: "c = CHR ''{''" by simp
        with p t False nb have "parse_members f [] t = POk v r" by simp
        from "2.IH"(2) [OF ws nb c t _ this] c False show ?thesis by simp
      qed
    qed
  next
    case False
    show ?thesis
    proof (cases "c = CHR 0x22")
      case True
      with False p show ?thesis by (auto split: option.splits)
    next
      case nq: False
      with False p have "parse_lit ''null'' JNull (c # t) = POk v r \<or> parse_lit ''true'' (JBool True) (c # t) = POk v r \<or>
          parse_lit ''false'' (JBool False) (c # t) = POk v r \<or> parse_number (c # t) = POk v r"
        by (simp split: if_splits)
      then show ?thesis by (auto dest: parse_number_val parse_lit_val)
    qed
  qed
next
  case (4 f acc s)
  from "4.prems"(1) show ?case
  proof (cases rule: parse_elems_step)
    case (1 w r1 r')
    have "json_unique w" using "4.IH"(1) 1(1) .
    with "4.IH"(2) [OF 1(1) 1(2) refl 1(3)] "4.prems"(2) show ?thesis by simp
  next
    case (2 w r1)
    have "json_unique w" using "4.IH"(1) 2(1) .
    with 2(3) "4.prems"(2) show ?thesis by simp
  qed
next
  case (6 f acc s)
  from "6.prems"(1) show ?case
  proof (cases rule: parse_members_step)
    case (1 q r0 k r1 d r2 w r3 e r4)
    have w: "json_unique w" using "6.IH"(1) [OF 1(1) _ 1(2) refl 1(3) _ 1(4)] 1 by simp
    have d: "distinct (map fst (obj_put acc k w))" using obj_put_distinct "6.prems"(2) .
    have u: "\<forall>kv\<in>set (obj_put acc k w). json_unique (snd kv)"
      using "6.prems"(3) w by (auto dest: obj_put_set)
    show ?thesis
      using 1(8) "6.IH"(2) [OF 1(1) _ 1(2) refl 1(3) _ 1(4) 1(5)] 1(6,7) d u by auto
  qed
qed simp_all

text \<open>A value the parser reads with some fuel it reads with the fuel \<open>JSON_parse\<close> gives.\<close>

lemma parse_value_full: "parse_value f s = POk v r \<Longrightarrow> parse_value (2 * length s + 1) s = POk v r"
proof -
  assume p: "parse_value f s = POk v r"
  have t: "parse_value (2 * length s + 1) s \<noteq> PFuel" by (rule parse_total(1)) simp
  show ?thesis
  proof (cases "f \<le> 2 * length s + 1")
    case True
    then show ?thesis by (rule parse_value_more [OF p])
  next
    case False
    then show ?thesis using parse_mono(1) [OF t, of f] p by (simp del: parse_value.simps)
  qed
qed

lemma parse_stringify: "json_wf v \<Longrightarrow> JSON_parse (JSON_stringify v) = Some v"
proof -
  assume wf: "json_wf v"
  from parse_ser [OF wf, of "[]" 0] obtain f where p: "parse_value f (ser 0 v) = POk v []"
    by (auto simp: delim_def)
  from parse_value_full [OF p] show ?thesis by (simp add: JSON_parse_def JSON_stringify_def skip_ws_def)
qed

text \<open>
  A serialised array or object followed by anything but white space is a syntax
  error: \<open>JSON.parse\<close> reads the value and rejects the rest.
\<close>

lemma parse_stringify_trailing:
  assumes "json_wf v" and "\<forall>i. v \<noteq> JNum i" and "\<not> (\<forall>c\<in>set rest. json_ws c)"
  shows "JSON_parse (JSON_stringify v @ rest) = None"
proof -
  from parse_ser [OF assms(1), of rest 0] assms(2) obtain f where
    p: "parse_value f (ser 0 v @ rest) = POk v rest" by auto
  have "skip_ws rest \<noteq> []" using assms(3) by (simp add: skip_ws_def)
  with parse_value_full [OF p] show ?thesis by (simp add: JSON_parse_def JSON_stringify_def)
qed

subsection \<open>Properties of JSON.parse and JSON.stringify\<close>

text \<open>C7: JSON.parse of JSON.stringify(v, null, 2) gives v back, for every JSON value whose objects have distinct keys that are not digit strings.\<close>

theorem JSON_roundtrip: "json_wf v \<Longrightarrow> JSON_parse (JSON_stringify v) = Some v"
  by (rule parse_stringify)

theorem JSON_roundtrip_witness:
  "json_wf (JObj [(''a'', JArr [JNum (-12), JStr ''x\<newline>y'', JNull]), (''b'', JBool True)]) \<and>
   JSON_parse (JSON_stringify (JObj [(''a'', JArr [JNum (-12), JStr ''x\<newline>y'', JNull]), (''b'', JBool True)]))
     = Some (JObj [(''a'', JArr [JNum (-12), JStr ''x\<newline>y'', JNull]), (''b'', JBool True)])"
  using JSON_roundtrip [of "JObj [(''a'', JArr [JNum (-12), JStr ''x\<newline>y'', JNull]), (''b'', JBool True)]"]
  by (simp add: is_digit_def)

end
