(* ===== verification/Document.thy ===== *)
theory Document
  imports Json Dispatcher
begin

text \<open>
  The board document as text, and the extension host around the dispatcher: the
  \<open>TodoBoardEditor.resolveCustomTextEditor\<close> of \<open>src/unnamed/part_000\<close> (lines 146-266).
  A board is written as \<open>JSON.stringify(data, null, 2)\<close> of the object the code builds
  (\<open>board_to_json\<close>, keys in the order of the object literals of the code), and read
  back by \<open>JSON.parse\<close> followed by the accesses to \<open>data.columns\<close> (\<open>doc_view_of\<close>): a
  text \<open>JSON.parse\<close> rejects is \<open>Unparsable\<close>; a value without a \<open>columns\<close> array
  is \<open>NoColumns\<close> (every branch that touches \<open>data.columns\<close> throws a TypeError); a value
  of exactly the board shape is \<open>Parsed\<close>.  A document of another shape (extra keys,
  keys in another order, fields of other types) is outside the model: \<open>doc_view_of\<close>
  is \<open>None\<close> there, and so is every step of the host on it.  So is a text that is valid
  JSON only through a \<open>\\u\<close> escape above U+00FF, or whose whole value is a number
  with a fraction or an exponent (\<open>JOther\<close>, whose value the model does not keep).

  The host's state is the document text and the prompt that a handler awaits
  (\<open>showInputBox\<close> of add-column and add-card).  Its events are a message from the
  webview, the answer to the prompt, and an edit of the document made outside the
  board (by hand or by another tool).  Every change of the document fires
  \<open>onDidChangeTextDocument\<close>, whose listener calls \<open>sendData()\<close>: that posts
  \<open>JSON.parse(document.getText())\<close> to the webview, or nothing when the text does not
  parse.
\<close>

subsection \<open>Boards as JSON values\<close>

definition card_to_json :: "card \<Rightarrow> json" where
  "card_to_json k = JObj [(''id'', JStr (card_id k)), (''title'', JStr (card_title k))]"

definition column_to_json :: "column \<Rightarrow> json" where
  "column_to_json c =
     JObj [(''id'', JStr (col_id c)), (''title'', JStr (col_title c)),
           (''cards'', JArr (map card_to_json (cards c)))]"

definition board_to_json :: "board \<Rightarrow> json" where
  "board_to_json b = JObj [(''columns'', JArr (map column_to_json (columns b)))]"

fun json_card :: "json \<Rightarrow> card option" where
  "json_card (JObj [(k1, JStr i), (k2, JStr t)]) =
     (if k1 = ''id'' \<and> k2 = ''title'' then Some \<lparr>card_id = i, card_title = t\<rparr> else None)"
| "json_card _ = None"

fun json_column :: "json \<Rightarrow> column option" where
  "json_column (JObj [(k1, JStr i), (k2, JStr t), (k3, JArr ks)]) =
     (if k1 = ''id'' \<and> k2 = ''title'' \<and> k3 = ''cards''
      then map_option (\<lambda>ks'. \<lparr>col_id = i, col_title = t, cards = ks'\<rparr>) (those (map json_card ks))
      else None)"
| "json_column _ = None"

text \<open>What \<open>data.columns\<close> is for a parsed value.\<close>

fun json_view :: "json \<Rightarrow> doc_view option" where
  "json_view (JObj kvs) =
     (case map_of kvs ''columns'' of
       Some (JArr cs) \<Rightarrow>
         if kvs = [(''columns'', JArr cs)]
         then map_option (\<lambda>cs'. Parsed \<lparr>columns = cs'\<rparr>) (those (map json_column cs))
         else None
     | _ \<Rightarrow> Some NoColumns)"
| "json_view (JOther s) = None"
| "json_view _ = Some NoColumns"

definition doc_view_of :: "string \<Rightarrow> doc_view option" where
  "doc_view_of text = (case JSON_parse text of None \<Rightarrow> Some Unparsable | Some v \<Rightarrow> json_view v)"

definition write_doc :: "board \<Rightarrow> string" where
  "write_doc b = JSON_stringify (board_to_json b)"

text \<open>\<open>sendData()\<close>: the data message posted for the current text, if it parses.\<close>

definition sendData :: "string \<Rightarrow> json list" where
  "sendData text = (case JSON_parse text of Some v \<Rightarrow> [v] | None \<Rightarrow> [])"

subsection \<open>The host\<close>

record host =
  doc_text :: string
  prompt :: "(awaiting \<times> nat) option"

datatype host_event = Receive msg | Answer "string option" nat | ExternalEdit string

text \<open>
  The effects of a handler, in order, on the text; the result is the new text and the
  messages posted to the webview.  \<open>ApplyEdit\<close> replaces the range from
  \<open>positionAt(0)\<close> to \<open>positionAt(L)\<close> of the current text, where \<open>L\<close> is
  \<open>currentText.length\<close>, the length of the text the handler read when it started;
  \<open>positionAt\<close> clamps an offset past the end of the text.  The change listener then
  posts the new text.  \<open>Save\<close> writes the file and leaves the text as it is.
\<close>

fun apply_effects :: "nat \<Rightarrow> string \<Rightarrow> effect list \<Rightarrow> string \<times> json list" where
  "apply_effects L text [] = (text, [])"
| "apply_effects L text (SendData # es) = (let r = apply_effects L text es in (fst r, sendData text @ snd r))"
| "apply_effects L text (ApplyEdit b # es) =
     (let t = write_doc b @ drop L text; r = apply_effects L t es in (fst r, sendData t @ snd r))"
| "apply_effects L text (Save # es) = apply_effects L text es"

definition host_finish :: "host \<Rightarrow> nat \<Rightarrow> js_error + effect list \<Rightarrow> host \<times> json list" where
  "host_finish h L r =
     (case r of
       Inl e \<Rightarrow> (h, [])
     | Inr effs \<Rightarrow> (let x = apply_effects L (doc_text h) effs in (h\<lparr>doc_text := fst x\<rparr>, snd x)))"

text \<open>
  One event.  A handler that reaches the prompt keeps what it captured (the parsed
  document and the length of the text) until the answer.  A second prompting message
  while a prompt is open, an answer with no prompt open, and a document outside the
  model are not modelled (\<open>None\<close>).
\<close>

fun host_step :: "host \<Rightarrow> host_event \<Rightarrow> (host \<times> json list) option" where
  "host_step h (Receive m) =
     (case doc_view_of (doc_text h) of
       None \<Rightarrow> None
     | Some dv \<Rightarrow>
         (case receive_start dv m of
           Finished r \<Rightarrow> Some (host_finish h (length (doc_text h)) r)
         | Prompt a \<Rightarrow>
             if prompt h = None then Some (h\<lparr>prompt := Some (a, length (doc_text h))\<rparr>, []) else None))"
| "host_step h (Answer title now) =
     (case prompt h of
       None \<Rightarrow> None
     | Some (a, L) \<Rightarrow> Some (host_finish (h\<lparr>prompt := None\<rparr>) L (receive_resume commit a title now)))"
| "host_step h (ExternalEdit t) = Some (h\<lparr>doc_text := t\<rparr>, sendData t)"

fun host_run :: "host \<Rightarrow> host_event list \<Rightarrow> (host \<times> json list) option" where
  "host_run h [] = Some (h, [])"
| "host_run h (e # es) =
     (case host_step h e of
       None \<Rightarrow> None
     | Some (h', ps) \<Rightarrow> map_option (\<lambda>(h'', qs). (h'', ps @ qs)) (host_run h' es))"

fun is_answer :: "host_event \<Rightarrow> bool" where
  "is_answer (Answer t now) = True"
| "is_answer _ = False"

text \<open>
  The document holds a board, written as the handler writes it; an open prompt
  captured the length of the current text.
\<close>

definition doc_ok :: "string \<Rightarrow> bool" where
  "doc_ok text = (case doc_view_of text of Some (Parsed b) \<Rightarrow> text = write_doc b | _ \<Rightarrow> False)"

definition host_ok :: "host \<Rightarrow> bool" where
  "host_ok h = (doc_ok (doc_text h) \<and> (case prompt h of None \<Rightarrow> True | Some (a, L) \<Rightarrow> L = length (doc_text h)))"

subsection \<open>Boards are read back as written\<close>

lemma those_map_Some: "(\<And>x. x \<in> set xs \<Longrightarrow> f x = Some x) \<Longrightarrow> those (map f xs) = Some xs"
  by (induction xs) auto

lemma json_card_of: "json_card (card_to_json k) = Some k"
  by (simp add: card_to_json_def)

lemma json_column_of: "json_column (column_to_json c) = Some c"
proof -
  have "those (map (json_card \<circ> card_to_json) (cards c)) = Some (cards c)"
    by (rule those_map_Some) (simp add: json_card_of)
  then show ?thesis by (simp add: column_to_json_def)
qed

lemma json_view_of: "json_view (board_to_json b) = Some (Parsed b)"
proof -
  have "those (map (json_column \<circ> column_to_json) (columns b)) = Some (columns b)"
    by (rule those_map_Some) (simp add: json_column_of)
  then show ?thesis by (simp add: board_to_json_def)
qed

lemma json_wf_board: "json_wf (board_to_json b)"
  by (simp add: board_to_json_def column_to_json_def card_to_json_def is_digit_def)

lemma doc_view_write: "doc_view_of (write_doc b) = Some (Parsed b)"
  by (simp add: doc_view_of_def write_doc_def parse_stringify [OF json_wf_board] json_view_of)

lemma sendData_write: "sendData (write_doc b) = [board_to_json b]"
  by (simp add: sendData_def write_doc_def parse_stringify [OF json_wf_board])

lemma doc_ok_write: "doc_ok (write_doc b)"
  by (simp add: doc_ok_def doc_view_write)


text \<open>C3: Every board read back from the text the handler writes for it (JSON.stringify(data, null, 2) of the board object, then JSON.parse and the accesses to data.columns) is the same board.\<close>

theorem board_document_roundtrip: "doc_view_of (write_doc b) = Some (Parsed b)"
  by (rule doc_view_write)

lemma apply_effects_commit: "length s = L \<Longrightarrow> apply_effects L s (commit b) = (write_doc b, [board_to_json b])"
  by (simp add: commit_def sendData_write)

lemma structural_edit_start: "structural_edit m b = Some b' \<Longrightarrow> receive_start (Parsed b) m = Finished (Inr (commit b'))"
  by (cases m) (simp_all add: start_Parsed)

lemma host_finish_commit:
  "length (doc_text h) = L \<Longrightarrow> host_finish h L (Inr (commit b)) = (h\<lparr>doc_text := write_doc b\<rparr>, [board_to_json b])"
  by (simp add: host_finish_def apply_effects_commit)

lemma host_finish_noop: "host_finish h L (Inr []) = (h, [])" "host_finish h L (Inl e) = (h, [])"
  by (simp_all add: host_finish_def)

text \<open>The effects a handler produces: nothing, or one edit, possibly after a refresh.\<close>

lemma start_effects: "receive_start dv m = Finished (Inr effs) \<Longrightarrow> effs = [] \<or> (\<exists>b. effs = commit b)"
  by (auto simp: receive_start_def split: doc_view.splits msg.splits option.splits)

lemma resume_effects:
  "receive_resume commit a t now = Inr effs \<Longrightarrow> effs = [] \<or> (\<exists>b. effs = SendData # commit b)"
  by (cases a) (auto split: option.splits doc_view.splits if_splits)

lemma host_finish_ok:
  assumes "doc_ok (doc_text h)" and "host_finish h (length (doc_text h)) r = (h', ps)"
    and "\<forall>effs. r = Inr effs \<longrightarrow> effs = [] \<or> (\<exists>b. effs = commit b \<or> effs = SendData # commit b)"
  shows "doc_ok (doc_text h') \<and> prompt h' = prompt h"
proof (cases r)
  case (Inr effs)
  with assms(3) consider "effs = []" | b where "effs = commit b" | b where "effs = SendData # commit b" by blast
  then show ?thesis
  proof cases
    case 1
    with Inr assms(1,2) show ?thesis by (auto simp: host_finish_def)
  next
    case (2 b)
    with Inr assms(2) have "h' = h\<lparr>doc_text := write_doc b\<rparr>" by (simp add: host_finish_def apply_effects_commit)
    then show ?thesis by (simp add: doc_ok_write)
  next
    case (3 b)
    with Inr assms(2) have "h' = h\<lparr>doc_text := write_doc b\<rparr>" by (simp add: host_finish_def apply_effects_commit)
    then show ?thesis by (simp add: doc_ok_write)
  qed
qed (use assms in \<open>simp add: host_finish_def\<close>)

text \<open>C9: The document stays a board as the handler writes it, and an open prompt remembers the length of the current text, across every message, prompt answer and well-formed outside edit, as long as nothing but the answer happens while a prompt is open.\<close>

theorem host_step_keeps_ok:
  assumes "host_ok h" and "host_step h e = Some (h', ps)"
    and "prompt h = None \<or> is_answer e" and "\<forall>x. e = ExternalEdit x \<longrightarrow> doc_ok x"
  shows "host_ok h'"
proof (cases e)
  case (Receive m)
  with assms(3) have np: "prompt h = None" by simp
  obtain dv where dv: "doc_view_of (doc_text h) = Some dv" using assms(2) Receive by (auto split: option.splits)
  show ?thesis
  proof (cases "receive_start dv m")
    case (Finished r)
    with assms(2) Receive dv have fin: "host_finish h (length (doc_text h)) r = (h', ps)" by simp
    have eff: "\<forall>effs. r = Inr effs \<longrightarrow> effs = [] \<or> (\<exists>b. effs = commit b \<or> effs = SendData # commit b)"
      using start_effects [of dv m] Finished by blast
    from host_finish_ok [OF _ fin eff] assms(1) np show ?thesis by (simp add: host_ok_def)
  next
    case (Prompt a)
    with assms(1,2) Receive dv np show ?thesis by (auto simp: host_ok_def)
  qed
next
  case (Answer t now)
  then obtain a L where p: "prompt h = Some (a, L)" using assms(2) by (auto split: option.splits)
  with assms(1) have L: "L = length (doc_text h)" by (simp add: host_ok_def)
  with assms(2) Answer p have "host_finish (h\<lparr>prompt := None\<rparr>) (length (doc_text (h\<lparr>prompt := None\<rparr>)))
      (receive_resume commit a t now) = (h', ps)" by simp
  moreover have "\<forall>effs. receive_resume commit a t now = Inr effs \<longrightarrow>
      effs = [] \<or> (\<exists>b. effs = commit b \<or> effs = SendData # commit b)"
    using resume_effects [of a t now] by blast
  ultimately have "doc_ok (doc_text h') \<and> prompt h' = None"
    using host_finish_ok [of "h\<lparr>prompt := None\<rparr>"] assms(1) by (simp add: host_ok_def)
  then show ?thesis by (simp add: host_ok_def)
next
  case (ExternalEdit x)
  with assms show ?thesis by (auto simp: host_ok_def)
qed

text \<open>C10: A structural message that applies to the board in the document replaces the document by the edited board, and the change listener posts exactly that board to the webview.\<close>

theorem host_applies_edit:
  "doc_text h = write_doc b \<Longrightarrow> structural_edit m b = Some b' \<Longrightarrow>
   host_step h (Receive m) = Some (h\<lparr>doc_text := write_doc b'\<rparr>, [board_to_json b'])"
  by (simp add: doc_view_write structural_edit_start host_finish_commit)

text \<open>C16: When the document text is not valid JSON (JSON.parse throws a SyntaxError), every message leaves the document unchanged and posts nothing.\<close>

theorem host_unparsable_noop: "JSON_parse (doc_text h) = None \<Longrightarrow> host_step h (Receive m) = Some (h, [])"
  by (simp add: doc_view_of_def receive_start_def host_finish_noop)

text \<open>When the parsed document has no columns array, every message other than update, add-column and add-card throws a TypeError before any effect: the document is unchanged and nothing is posted.\<close>

theorem host_no_columns_rejects:
  "doc_view_of (doc_text h) = Some NoColumns \<Longrightarrow> m \<notin> range Update \<Longrightarrow> m \<noteq> AddColumn \<Longrightarrow> m \<notin> range AddCard \<Longrightarrow>
   host_step h (Receive m) = Some (h, [])"
  by (cases m) (simp_all add: receive_start_def host_finish_noop)

text \<open>
  The text the handler of \<open>src/unnamed/part_000\<close> writes ends with the closing brace of
  the board object, so any part of it past a shorter length holds more than white
  space, and that part after a board's text makes the whole a syntax error.
\<close>

lemma write_doc_last: "write_doc b \<noteq> [] \<and> last (write_doc b) = CHR ''}''"
  by (simp add: write_doc_def JSON_stringify_def board_to_json_def layout_def)

lemma write_doc_tail_nonws: "L < length (write_doc b) \<Longrightarrow> \<not> (\<forall>c\<in>set (drop L (write_doc b)). json_ws c)"
proof -
  assume L: "L < length (write_doc b)"
  then have "drop L (write_doc b) \<noteq> []" by simp
  moreover have "last (drop L (write_doc b)) = CHR ''}''" using L write_doc_last [of b] by (simp add: last_drop)
  ultimately have "CHR ''}'' \<in> set (drop L (write_doc b))" by (metis last_in_set)
  then show ?thesis by (auto simp: json_ws_def)
qed

lemma doc_view_write_trailing: "\<not> (\<forall>c\<in>set rest. json_ws c) \<Longrightarrow> doc_view_of (write_doc b @ rest) = Some Unparsable"
proof -
  assume r: "\<not> (\<forall>c\<in>set rest. json_ws c)"
  have "\<forall>i. board_to_json b \<noteq> JNum i" by (simp add: board_to_json_def)
  from parse_stringify_trailing [OF json_wf_board this r] show ?thesis by (simp add: doc_view_of_def write_doc_def)
qed

text \<open>
  The add-column prompt answered after an outside edit, or after the page's update,
  writes the new column over the first \<open>currentText.length\<close> characters of the text
  that edit left.
\<close>

lemma addColumn_answer_after_edit:
  "doc_text h = write_doc b \<Longrightarrow> prompt h = None \<Longrightarrow> t \<noteq> [] \<Longrightarrow>
   host_run h [Receive AddColumn, ExternalEdit x, Answer (Some t) now] =
     Some (h\<lparr>doc_text := write_doc (addColumn t now b) @ drop (length (write_doc b)) x\<rparr>,
           sendData x @ sendData x @ sendData (write_doc (addColumn t now b) @ drop (length (write_doc b)) x))"
  by (cases h) (simp add: doc_view_write start_Parsed host_finish_def commit_def Let_def)

lemma addColumn_answer_after_update:
  "doc_text h = write_doc b \<Longrightarrow> prompt h = None \<Longrightarrow> t \<noteq> [] \<Longrightarrow>
   \<exists>ps. host_run h [Receive AddColumn, Receive (Update b'), Answer (Some t) now] =
     Some (h\<lparr>doc_text := write_doc (addColumn t now b) @ drop (length (write_doc b)) (write_doc b')\<rparr>, ps)"
  by (cases h) (simp add: doc_view_write start_Parsed host_finish_def commit_def Let_def)

text \<open>C8: When the document changes while the add-column prompt is open, the answer writes the new column into the board read before the prompt over the first currentText.length characters of the changed text: the change is lost and whatever lies beyond that length is kept after the new JSON.\<close>

theorem prompt_overwrites_external_edit:
  "doc_text h = write_doc b \<Longrightarrow> prompt h = None \<Longrightarrow> t \<noteq> [] \<Longrightarrow>
   host_run h [Receive AddColumn, ExternalEdit x, Answer (Some t) now] =
     Some (h\<lparr>doc_text := write_doc (addColumn t now b) @ drop (length (write_doc b)) x\<rparr>,
           sendData x @ sendData x @ sendData (write_doc (addColumn t now b) @ drop (length (write_doc b)) x))"
  by (rule addColumn_answer_after_edit)

text \<open>C13: If another writer's edit, made while the add-column prompt is open, leaves the document longer than the text the handler read, with anything but white space past that length, then answering the prompt leaves a document that JSON.parse rejects.\<close>

theorem external_edit_during_prompt_corrupts:
  assumes "doc_text h = write_doc b" and "prompt h = None" and "t \<noteq> []"
    and "\<not> (\<forall>c\<in>set (drop (length (write_doc b)) x). json_ws c)"
  shows "\<exists>h' ps. host_run h [Receive AddColumn, ExternalEdit x, Answer (Some t) now] = Some (h', ps) \<and>
           doc_view_of (doc_text h') = Some Unparsable"
  using addColumn_answer_after_edit [OF assms(1-3), of x now] doc_view_write_trailing [OF assms(4)] by simp

text \<open>C18: A board update from the page handled while the add-column prompt is open, whose text is longer than the text read before the prompt (as a card moved by the page can make it), makes the answer leave a document JSON.parse rejects: the answer writes the new column over the first currentText.length characters of the page's board, with no outside editor involved.\<close>

theorem update_during_prompt_corrupts:
  assumes "doc_text h = write_doc b" and "prompt h = None" and "t \<noteq> []"
    and "length (write_doc b) < length (write_doc b')"
  shows "\<exists>h' ps. host_run h [Receive AddColumn, Receive (Update b'), Answer (Some t) now] = Some (h', ps) \<and>
           doc_text h' = write_doc (addColumn t now b) @ drop (length (write_doc b)) (write_doc b') \<and>
           doc_view_of (doc_text h') = Some Unparsable"
  using addColumn_answer_after_update [OF assms(1-3), of b' now]
    doc_view_write_trailing [OF write_doc_tail_nonws [OF assms(4)]] by auto

subsection \<open>Witnesses\<close>

theorem host_step_keeps_ok_witness:
  "host_ok \<lparr>doc_text = write_doc scenario_board, prompt = None\<rparr> \<and>
   (\<exists>h' ps. host_step \<lparr>doc_text = write_doc scenario_board, prompt = None\<rparr> (Receive AddColumn) = Some (h', ps) \<and>
      host_ok h')"
proof -
  have ok: "host_ok \<lparr>doc_text = write_doc scenario_board, prompt = None\<rparr>"
    by (simp add: host_ok_def doc_ok_write)
  have "\<exists>h' ps. host_step \<lparr>doc_text = write_doc scenario_board, prompt = None\<rparr> (Receive AddColumn) = Some (h', ps)"
    by (simp add: doc_view_write start_Parsed)
  then obtain h' ps where s: "host_step \<lparr>doc_text = write_doc scenario_board, prompt = None\<rparr> (Receive AddColumn) = Some (h', ps)"
    by blast
  have "host_ok h'" using host_step_keeps_ok [OF ok s] by simp
  with ok s show ?thesis by blast
qed

theorem host_applies_edit_witness:
  "host_step \<lparr>doc_text = write_doc scenario_board, prompt = None\<rparr> (Receive (DeleteColumn ''a'')) =
   Some (\<lparr>doc_text = write_doc \<lparr>columns = [\<lparr>col_id = ''b'', col_title = ''B'', cards = []\<rparr>]\<rparr>, prompt = None\<rparr>,
         [board_to_json \<lparr>columns = [\<lparr>col_id = ''b'', col_title = ''B'', cards = []\<rparr>]\<rparr>])"
proof -
  have "structural_edit (DeleteColumn ''a'') scenario_board = Some \<lparr>columns = [\<lparr>col_id = ''b'', col_title = ''B'', cards = []\<rparr>]\<rparr>"
    by (simp add: scenario_board_def deleteColumn_def splice_def rel_start_def Let_def)
  from host_applies_edit [OF _ this, of "\<lparr>doc_text = write_doc scenario_board, prompt = None\<rparr>"] show ?thesis by simp
qed

theorem host_unparsable_noop_witness:
  "JSON_parse ''{'' = None \<and>
   host_step \<lparr>doc_text = ''{'', prompt = None\<rparr> (Receive (DeleteColumn ''a'')) = Some (\<lparr>doc_text = ''{'', prompt = None\<rparr>, [])"
proof -
  have p: "JSON_parse ''{'' = None" by code_simp
  from host_unparsable_noop [of "\<lparr>doc_text = ''{'', prompt = None\<rparr>"] p show ?thesis by simp
qed

theorem host_no_columns_rejects_witness:
  "doc_view_of ''{}'' = Some NoColumns \<and>
   host_step \<lparr>doc_text = ''{}'', prompt = None\<rparr> (Receive (DeleteColumn ''a'')) = Some (\<lparr>doc_text = ''{}'', prompt = None\<rparr>, [])"
proof -
  have p: "doc_view_of ''{}'' = Some NoColumns" by code_simp
  have m: "DeleteColumn ''a'' \<notin> range Update" "DeleteColumn ''a'' \<notin> range AddCard" by auto
  from host_no_columns_rejects [of "\<lparr>doc_text = ''{}'', prompt = None\<rparr>" "DeleteColumn ''a''"] p m
  show ?thesis by simp
qed

theorem prompt_overwrites_external_edit_witness:
  "host_run \<lparr>doc_text = write_doc scenario_board, prompt = None\<rparr>
     [Receive AddColumn, ExternalEdit (write_doc initialTodo_create), Answer (Some ''Z'') 1] =
   Some (\<lparr>doc_text = write_doc (addColumn ''Z'' 1 scenario_board) @
                     drop (length (write_doc scenario_board)) (write_doc initialTodo_create), prompt = None\<rparr>,
         sendData (write_doc initialTodo_create) @ sendData (write_doc initialTodo_create) @
         sendData (write_doc (addColumn ''Z'' 1 scenario_board) @
                   drop (length (write_doc scenario_board)) (write_doc initialTodo_create)))"
  using prompt_overwrites_external_edit [of "\<lparr>doc_text = write_doc scenario_board, prompt = None\<rparr>" scenario_board "''Z''"
      "write_doc initialTodo_create" 1]
  by simp

theorem external_edit_during_prompt_corrupts_witness:
  "\<exists>h' ps. host_run \<lparr>doc_text = write_doc scenario_board, prompt = None\<rparr>
      [Receive AddColumn, ExternalEdit (write_doc (addColumn ''Y'' 0 scenario_board)), Answer (Some ''Z'') 1] = Some (h', ps) \<and>
    doc_view_of (doc_text h') = Some Unparsable"
proof -
  have "\<not> (\<forall>c\<in>set (drop (length (write_doc scenario_board)) (write_doc (addColumn ''Y'' 0 scenario_board))). json_ws c)"
    by code_simp
  from external_edit_during_prompt_corrupts [of "\<lparr>doc_text = write_doc scenario_board, prompt = None\<rparr>" scenario_board
      "''Z''", OF _ _ _ this] show ?thesis by simp
qed

theorem update_during_prompt_corrupts_witness:
  "\<exists>h' ps. host_run \<lparr>doc_text = write_doc scenario_board, prompt = None\<rparr>
      [Receive AddColumn, Receive (Update (addColumn ''Y'' 0 scenario_board)), Answer (Some ''Z'') 1] = Some (h', ps) \<and>
    doc_text h' = write_doc (addColumn ''Z'' 1 scenario_board) @
      drop (length (write_doc scenario_board)) (write_doc (addColumn ''Y'' 0 scenario_board)) \<and>
    doc_view_of (doc_text h') = Some Unparsable"
proof -
  have "length (write_doc scenario_board) < length (write_doc (addColumn ''Y'' 0 scenario_board))"
    by code_simp
  from update_during_prompt_corrupts [of "\<lparr>doc_text = write_doc scenario_board, prompt = None\<rparr>" scenario_board
      "''Z''", OF _ _ _ this] show ?thesis by simp
qed

end
