(* ===== verification/Sync.thy ===== *)
theory Sync
  imports Webview_Main Document
begin

text \<open>
  The host and the page of \<open>src/unnamed/part_000\<close> together: the state synchronisation
  the spec puts at the core.  The system holds the host (\<open>Document\<close>), the page
  (\<open>Webview_Main\<close>) and the two message queues between them: \<open>panel.webview.postMessage\<close>
  delivers the host's data messages to the page's \<open>message\<close> listener in order, and
  \<open>vscode.postMessage\<close> delivers the page's messages to \<open>onDidReceiveMessage\<close> in order.
  A step is a user event on the page, the delivery of the first message of one queue,
  the answer to the host's prompt, or an edit of the document made outside the board.
  The page receives the JavaScript value \<open>JSON.parse\<close> produced; the board model of the
  page reads it through \<open>json_view\<close> (a value of another shape is outside the model).

  \<open>round\<close> is one user action carried to its end: the event, then the delivery of every
  message it posted (answering the host's prompt, when one opens, with the given title
  and time), then the delivery of every data message the host posted.
\<close>

record sys =
  sys_host :: host
  sys_page :: page_main
  to_host :: "msg list"
  to_page :: "json list"

datatype sys_event = UserEvent wv_event | HostDeliver | PromptAnswer "string option" nat | PageDeliver | OutsideEdit string

fun is_data :: "wv_event \<Rightarrow> bool" where
  "is_data (DataMessage d) = True"
| "is_data _ = False"

fun is_update :: "msg \<Rightarrow> bool" where
  "is_update (Update d) = True"
| "is_update _ = False"

text \<open>The page's \<open>message\<close> event for a posted value: \<open>state = e.data.data\<close>.\<close>

definition data_event :: "json \<Rightarrow> wv_event option" where
  "data_event v =
     (case json_view v of
       None \<Rightarrow> None
     | Some (Parsed b) \<Rightarrow> Some (DataMessage (Some b))
     | Some _ \<Rightarrow> Some (DataMessage None))"

fun sys_step :: "sys \<Rightarrow> sys_event \<Rightarrow> sys option" where
  "sys_step s (UserEvent e) =
     (if is_data e then None
      else let r = webview_step_main (sys_page s) e
           in Some (s\<lparr>sys_page := step_page r, to_host := to_host s @ step_msgs r\<rparr>))"
| "sys_step s HostDeliver =
     (case to_host s of
       [] \<Rightarrow> None
     | m # ms \<Rightarrow> map_option (\<lambda>(h, vs). s\<lparr>sys_host := h, to_host := ms, to_page := to_page s @ vs\<rparr>)
                   (host_step (sys_host s) (Receive m)))"
| "sys_step s (PromptAnswer t now) =
     map_option (\<lambda>(h, vs). s\<lparr>sys_host := h, to_page := to_page s @ vs\<rparr>) (host_step (sys_host s) (Answer t now))"
| "sys_step s PageDeliver =
     (case to_page s of
       [] \<Rightarrow> None
     | v # vs \<Rightarrow> map_option (\<lambda>e. s\<lparr>sys_page := step_page (webview_step_main (sys_page s) e), to_page := vs\<rparr>)
                   (data_event v))"
| "sys_step s (OutsideEdit t) =
     map_option (\<lambda>(h, vs). s\<lparr>sys_host := h, to_page := to_page s @ vs\<rparr>) (host_step (sys_host s) (ExternalEdit t))"

text \<open>Opening the editor: \<open>resolveCustomTextEditor\<close> calls \<open>sendData()\<close> once on a fresh page.\<close>

definition sys_open :: "host \<Rightarrow> sys" where
  "sys_open h = \<lparr>sys_host = h, sys_page = init_page_main, to_host = [], to_page = sendData (doc_text h)\<rparr>"

subsection \<open>Carrying an action to its end\<close>

fun deliver_host :: "string option \<Rightarrow> nat \<Rightarrow> nat \<Rightarrow> sys \<Rightarrow> sys option" where
  "deliver_host t now 0 s = Some s"
| "deliver_host t now (Suc k) s =
     (case sys_step s HostDeliver of
       None \<Rightarrow> None
     | Some s1 \<Rightarrow>
         (case (if prompt (sys_host s1) = None then Some s1 else sys_step s1 (PromptAnswer t now)) of
           None \<Rightarrow> None
         | Some s2 \<Rightarrow> deliver_host t now k s2))"

fun deliver_page :: "nat \<Rightarrow> sys \<Rightarrow> sys option" where
  "deliver_page 0 s = Some s"
| "deliver_page (Suc k) s = (case sys_step s PageDeliver of None \<Rightarrow> None | Some s1 \<Rightarrow> deliver_page k s1)"

definition round :: "sys \<Rightarrow> wv_event \<Rightarrow> string option \<Rightarrow> nat \<Rightarrow> sys option" where
  "round s e t now =
     (case sys_step s (UserEvent e) of
       None \<Rightarrow> None
     | Some s1 \<Rightarrow>
         (case deliver_host t now (length (to_host s1)) s1 of
           None \<Rightarrow> None
         | Some s2 \<Rightarrow> deliver_page (length (to_page s2)) s2))"

definition outside_round :: "sys \<Rightarrow> string \<Rightarrow> sys option" where
  "outside_round s t =
     (case sys_step s (OutsideEdit t) of None \<Rightarrow> None | Some s1 \<Rightarrow> deliver_page (length (to_page s1)) s1)"

datatype action = Act wv_event "string option" nat | Edit string

fun session :: "sys \<Rightarrow> action list \<Rightarrow> sys option" where
  "session s [] = Some s"
| "session s (Act e t now # as) = (case round s e t now of None \<Rightarrow> None | Some s' \<Rightarrow> session s' as)"
| "session s (Edit t # as) = (case outside_round s t of None \<Rightarrow> None | Some s' \<Rightarrow> session s' as)"

fun sys_run :: "sys \<Rightarrow> sys_event list \<Rightarrow> sys option" where
  "sys_run s [] = Some s"
| "sys_run s (e # es) = (case sys_step s e of None \<Rightarrow> None | Some s' \<Rightarrow> sys_run s' es)"

definition open_editor :: "host \<Rightarrow> sys option" where
  "open_editor h = deliver_page (length (to_page (sys_open h))) (sys_open h)"

fun action_ok :: "action \<Rightarrow> bool" where
  "action_ok (Act e t now) = (\<not> is_data e)"
| "action_ok (Edit t) = doc_ok t"

text \<open>
  Quiescence with the page showing the document: no message in flight, no prompt open,
  and the page's \<open>state\<close> and rendered DOM are the board the document holds as written.
\<close>

definition synced :: "sys \<Rightarrow> bool" where
  "synced s \<longleftrightarrow>
     to_host s = [] \<and> to_page s = [] \<and> prompt (sys_host s) = None \<and>
     (case state (sys_page s) of
       None \<Rightarrow> False
     | Some b \<Rightarrow> doc_text (sys_host s) = write_doc b \<and> rendered (sys_page s) = Some (columns b))"

text \<open>What a user event leaves on the page showing \<open>b\<close>: at most one message, and the page unchanged unless it posted an update of its own state.\<close>

definition page_after :: "board \<Rightarrow> page_main \<Rightarrow> msg list \<Rightarrow> bool" where
  "page_after b p ms \<longleftrightarrow>
     (case ms of
       [Update st'] \<Rightarrow> state p = Some st'
     | _ \<Rightarrow> length ms \<le> 1 \<and> state p = Some b \<and> rendered p = Some (columns b))"

text \<open>The board of the scenarios, open and shown on the page.\<close>

definition demo_sys :: sys where
  "demo_sys =
     \<lparr>sys_host = \<lparr>doc_text = write_doc scenario_board, prompt = None\<rparr>,
      sys_page = init_page_main\<lparr>state := Some scenario_board, rendered := Some (columns scenario_board)\<rparr>,
      to_host = [], to_page = []\<rparr>"

text \<open>
  The states the system reaches from opening an editor on any document, through any
  interleaving of its steps.
\<close>

inductive reachable :: "sys \<Rightarrow> bool" where
  opened: "reachable (sys_open h)"
| step: "reachable s \<Longrightarrow> sys_step s e = Some s' \<Longrightarrow> reachable s'"

text \<open>The page's DOM is the one \<open>render()\<close> builds from its \<open>state\<close>.\<close>

definition page_mirror :: "page_main \<Rightarrow> bool" where
  "page_mirror p \<longleftrightarrow> rendered p = map_option columns (state p)"

subsection \<open>The page side\<close>

lemma dropCard_Inl_state: "dropCard st f cid k bs y = Inl (e, st') \<Longrightarrow> st' = st"
  by (auto simp: dropCard_def dropAt_def cardDropIndex_def moveCard_def find_idx_find Let_def
           split: sum.splits option.splits prod.splits)

lemma ondrop_main_after:
  assumes "state p = Some b" and "rendered p = Some (columns b)"
  shows "page_after b (step_page (ondrop_main p col bs y)) (step_msgs (ondrop_main p col bs y))"
  using assms
  by (auto simp: ondrop_main_def Let_def page_after_def step_page_def step_msgs_def
           split: option.splits drag_kind.splits sum.splits prod.splits dest: dropCard_Inl_state)

lemma page_user_step:
  assumes "\<not> is_data e" and "state p = Some b" and "rendered p = Some (columns b)"
  shows "page_after b (step_page (webview_step_main p e)) (step_msgs (webview_step_main p e))"
proof (cases e)
  case (ColumnDrop i bs y)
  with assms(2,3) ondrop_main_after [OF assms(2,3)] show ?thesis
    by (cases "dom_column (rendered p) i") (simp_all add: webview_step_main_def page_after_def step_page_def step_msgs_def)
next
  case (TitleBlur i x)
  with assms(2,3) show ?thesis
    by (auto simp: webview_step_main_def page_after_def step_page_def step_msgs_def saveRename_def Let_def
             split: option.splits)
qed (use assms in \<open>auto simp: webview_step_main_def page_after_def step_page_def step_msgs_def split: option.splits prod.splits\<close>)

lemma data_event_board: "data_event (board_to_json b) = Some (DataMessage (Some b))"
  by (simp add: data_event_def json_view_of)

lemma deliver_page_boards:
  "to_page s = map board_to_json bs \<Longrightarrow>
   deliver_page (length bs) s =
     Some (if bs = [] then s
           else s\<lparr>sys_page := sys_page s\<lparr>state := Some (last bs), rendered := Some (columns (last bs))\<rparr>, to_page := []\<rparr>)"
proof (induction bs arbitrary: s)
  case (Cons b bs)
  let ?s1 = "s\<lparr>sys_page := sys_page s\<lparr>state := Some b, rendered := Some (columns b)\<rparr>, to_page := map board_to_json bs\<rparr>"
  have "sys_step s PageDeliver = Some ?s1"
    using Cons.prems by (simp add: data_event_board webview_step_main_def onMessage_def render_def step_page_def)
  with Cons.IH [of ?s1] show ?case by simp
qed simp

subsection \<open>The host side\<close>

lemma host_finish_boards:
  assumes "doc_text h = write_doc b"
    and "\<forall>effs. r = Inr effs \<longrightarrow> effs = [] \<or> (\<exists>b'. effs = commit b' \<or> effs = SendData # commit b')"
  shows "\<exists>bs. host_finish h (length (doc_text h)) r = (h\<lparr>doc_text := write_doc (last (b # bs))\<rparr>, map board_to_json bs)"
proof -
  have same: "h\<lparr>doc_text := write_doc b\<rparr> = h" using assms(1) by (cases h) simp
  show ?thesis
  proof (cases r)
    case (Inl e)
    then show ?thesis using same by (intro exI [of _ "[]"]) (simp add: host_finish_noop)
  next
    case (Inr effs)
    with assms(2) consider "effs = []" | b' where "effs = commit b'" | b' where "effs = SendData # commit b'" by blast
    then show ?thesis
    proof cases
      case 1
      then show ?thesis using Inr same by (intro exI [of _ "[]"]) (simp add: host_finish_noop)
    next
      case (2 b')
      then show ?thesis using Inr by (intro exI [of _ "[b']"]) (simp add: host_finish_commit)
    next
      case (3 b')
      then show ?thesis using Inr assms(1)
        by (intro exI [of _ "[b, b']"]) (simp add: host_finish_def apply_effects_commit sendData_write)
    qed
  qed
qed

lemma host_phase:
  assumes doc: "doc_text (sys_host s) = write_doc b" and idle: "prompt (sys_host s) = None"
    and q: "to_host s = [m]" "to_page s = []"
  shows "\<exists>bs. deliver_host t now (Suc 0) s =
           Some (s\<lparr>sys_host := (sys_host s)\<lparr>doc_text := write_doc (last (b # bs))\<rparr>, to_host := [],
                   to_page := map board_to_json bs\<rparr>) \<and> (is_update m \<longrightarrow> bs \<noteq> [])"
proof -
  let ?h = "sys_host s" and ?L = "length (doc_text (sys_host s))"
  have dv: "doc_view_of (doc_text ?h) = Some (Parsed b)" using doc by (simp add: doc_view_write)
  show ?thesis
  proof (cases "receive_start (Parsed b) m")
    case (Finished r)
    then have hs: "host_step ?h (Receive m) = Some (host_finish ?h ?L r)" using dv by simp
    have "\<forall>effs. r = Inr effs \<longrightarrow> effs = [] \<or> (\<exists>b'. effs = commit b' \<or> effs = SendData # commit b')"
      using start_effects Finished by blast
    then obtain bs where f: "host_finish ?h ?L r = (?h\<lparr>doc_text := write_doc (last (b # bs))\<rparr>, map board_to_json bs)"
      using host_finish_boards [OF doc] by blast
    have upd: "is_update m \<longrightarrow> bs \<noteq> []"
    proof
      assume "is_update m"
      then obtain d where "m = Update d" by (cases m) auto
      with Finished have "r = Inr (commit d)" by (simp add: start_Parsed)
      with f host_finish_commit [of ?h ?L d] show "bs \<noteq> []" by auto
    qed
    show ?thesis using hs f q idle upd by (intro exI [of _ bs]) simp
  next
    case (Prompt a)
    then have hs: "host_step ?h (Receive m) = Some (?h\<lparr>prompt := Some (a, ?L)\<rparr>, [])" using dv idle by simp
    have reset: "?h\<lparr>prompt := None\<rparr> = ?h" using idle by (cases "sys_host s") simp
    have "\<forall>effs. receive_resume commit a t now = Inr effs \<longrightarrow> effs = [] \<or> (\<exists>b'. effs = commit b' \<or> effs = SendData # commit b')"
      using resume_effects by blast
    then obtain bs where f: "host_finish ?h ?L (receive_resume commit a t now) =
        (?h\<lparr>doc_text := write_doc (last (b # bs))\<rparr>, map board_to_json bs)"
      using host_finish_boards [OF doc] by blast
    have nu: "\<not> is_update m" using Prompt by (cases m) (simp_all add: start_Parsed)
    have ans: "host_step (?h\<lparr>prompt := Some (a, ?L)\<rparr>) (Answer t now) = Some (host_finish ?h ?L (receive_resume commit a t now))"
      by (simp add: reset)
    then show ?thesis by (intro exI [of _ bs]) (simp add: hs ans f q idle nu del: host_step.simps)
  qed
qed

subsection \<open>The page shows the document after every action\<close>

lemma sync_round:
  assumes "synced s" and "\<not> is_data e"
  shows "\<exists>s'. round s e t now = Some s' \<and> synced s'"
proof -
  obtain b where st: "state (sys_page s) = Some b" and doc: "doc_text (sys_host s) = write_doc b"
    and rd: "rendered (sys_page s) = Some (columns b)"
    and q: "to_host s = []" "to_page s = []" and idle: "prompt (sys_host s) = None"
    using assms(1) by (auto simp: synced_def split: option.splits)
  let ?r = "webview_step_main (sys_page s) e"
  define s1 where "s1 = s\<lparr>sys_page := step_page ?r, to_host := step_msgs ?r\<rparr>"
  have step1: "sys_step s (UserEvent e) = Some s1" using assms(2) q by (simp add: s1_def Let_def)
  have pa: "page_after b (step_page ?r) (step_msgs ?r)" using page_user_step [OF assms(2) st rd] .
  show ?thesis
  proof (cases "step_msgs ?r")
    case Nil
    then have "round s e t now = Some s1" using step1 q by (simp add: round_def s1_def)
    moreover have "synced s1" using pa Nil doc q idle by (simp add: synced_def page_after_def s1_def)
    ultimately show ?thesis by blast
  next
    case (Cons m ms)
    with pa have ms: "ms = []" by (cases ms) (auto simp: page_after_def split: msg.splits)
    then obtain bs where dh: "deliver_host t now (Suc 0) s1 =
        Some (s1\<lparr>sys_host := (sys_host s)\<lparr>doc_text := write_doc (last (b # bs))\<rparr>, to_host := [],
                 to_page := map board_to_json bs\<rparr>)" and upd: "is_update m \<longrightarrow> bs \<noteq> []"
      using host_phase [of s1 b m t now] doc idle q Cons by (auto simp: s1_def)
    let ?s2 = "s1\<lparr>sys_host := (sys_host s)\<lparr>doc_text := write_doc (last (b # bs))\<rparr>, to_host := [],
                 to_page := map board_to_json bs\<rparr>"
    have r: "round s e t now = deliver_page (length bs) ?s2"
      using step1 dh Cons ms by (simp add: round_def s1_def)
    show ?thesis
    proof (cases "bs = []")
      case True
      with upd have "\<not> is_update m" by blast
      then have "state (step_page ?r) = Some b \<and> rendered (step_page ?r) = Some (columns b)"
        using pa Cons ms by (cases m) (simp_all add: page_after_def)
      with True r doc idle show ?thesis
        by (simp add: deliver_page_boards synced_def s1_def)
    next
      case False
      with r idle show ?thesis
        by (simp add: deliver_page_boards synced_def s1_def)
    qed
  qed
qed

lemma outside_round_synced:
  assumes "synced s" and "doc_ok t"
  shows "\<exists>s'. outside_round s t = Some s' \<and> synced s'"
proof -
  obtain b' where t: "t = write_doc b'"
    using assms(2) by (auto simp: doc_ok_def split: option.splits doc_view.splits)
  let ?s1 = "s\<lparr>sys_host := (sys_host s)\<lparr>doc_text := t\<rparr>, to_page := [board_to_json b']\<rparr>"
  have "sys_step s (OutsideEdit t) = Some ?s1"
    using assms(1) t by (simp add: synced_def sendData_write)
  then have o: "outside_round s t = deliver_page (length [b']) ?s1" by (simp add: outside_round_def)
  have "to_page ?s1 = map board_to_json [b']" by simp
  from deliver_page_boards [OF this] o assms(1) t show ?thesis by (simp add: synced_def)
qed

lemma open_editor_synced:
  assumes "doc_ok (doc_text h)" and "prompt h = None"
  shows "\<exists>s. open_editor h = Some s \<and> synced s"
proof -
  obtain b where d: "doc_text h = write_doc b"
    using assms(1) by (auto simp: doc_ok_def split: option.splits doc_view.splits)
  then have "to_page (sys_open h) = map board_to_json [b]" by (simp add: sys_open_def sendData_write)
  from deliver_page_boards [OF this] d assms(2) show ?thesis
    by (simp add: open_editor_def synced_def sys_open_def init_page_main_def sendData_write)
qed

lemma session_synced:
  "synced s \<Longrightarrow> \<forall>a \<in> set as. action_ok a \<Longrightarrow> \<exists>s'. session s as = Some s' \<and> synced s'"
proof (induction as arbitrary: s)
  case (Cons a as)
  show ?case
  proof (cases a)
    case (Act e t now)
    with Cons.prems obtain s1 where "round s e t now = Some s1" "synced s1" using sync_round by fastforce
    with Cons Act show ?thesis by simp
  next
    case (Edit t)
    with Cons.prems obtain s1 where "outside_round s t = Some s1" "synced s1" using outside_round_synced by fastforce
    with Cons Edit show ?thesis by simp
  qed
qed simp

text \<open>C31: From opening a board document, after every user action on the page carried to its end (its messages handled, a prompt answered, the host's data delivered) and after every outside edit that leaves a board, the page's state and rendered columns are exactly the board in the document, with no message in flight and no prompt open.\<close>

theorem editor_session_synced:
  assumes "doc_ok (doc_text h)" and "prompt h = None" and "\<forall>a \<in> set as. action_ok a"
  shows "\<exists>s'. (case open_editor h of None \<Rightarrow> None | Some s \<Rightarrow> session s as) = Some s' \<and> synced s'"
proof -
  obtain s where o: "open_editor h = Some s" and "synced s" using open_editor_synced [OF assms(1,2)] by blast
  from session_synced [OF this(2) assms(3)] o show ?thesis by simp
qed

text \<open>
  A text that does not parse, written outside the board, reaches the document but not
  the page: \<open>sendData\<close> posts nothing, and the page keeps showing the board it had.
\<close>

theorem unparsable_edit_keeps_page:
  assumes "synced s" and "JSON_parse t = None"
  shows "outside_round s t = Some (s\<lparr>sys_host := (sys_host s)\<lparr>doc_text := t\<rparr>\<rparr>)"
  using assms by (simp add: outside_round_def synced_def sendData_def)

subsection \<open>Every interleaving keeps the page's DOM in step with its state\<close>

lemma page_mirror_step:
  assumes "page_mirror p"
  shows "page_mirror (step_page (webview_step_main p e))"
proof (cases e)
  case (DataMessage d)
  then show ?thesis
    by (cases d) (simp_all add: page_mirror_def webview_step_main_def onMessage_def render_def step_page_def)
next
  case (ColumnDrop i bs y)
  with assms show ?thesis
    by (auto simp: page_mirror_def webview_step_main_def ondrop_main_def step_page_def Let_def
             split: option.splits drag_kind.splits sum.splits prod.splits dest: dropCard_Inl_state)
qed (use assms in \<open>auto simp: page_mirror_def webview_step_main_def step_page_def split: option.splits prod.splits\<close>)

lemma sys_step_page:
  "sys_step s e = Some s' \<Longrightarrow>
     sys_page s' = sys_page s \<or> (\<exists>ev. sys_page s' = step_page (webview_step_main (sys_page s) ev))"
  by (cases e) (auto simp: Let_def split: if_splits list.splits)

lemma reachable_run: "reachable s \<Longrightarrow> sys_run s es = Some s' \<Longrightarrow> reachable s'"
proof (induction es arbitrary: s)
  case (Cons e es)
  then show ?case by (auto split: option.splits intro: reachable.step simp del: sys_step.simps)
qed simp

text \<open>C17: In every state the host and the page of part_000 reach from opening an editor, through any interleaving of user events, message deliveries in either direction, prompt answers and outside edits, the page's rendered columns are exactly the columns of its state (nothing rendered when there is no state).\<close>

theorem reachable_page_mirror: "reachable s \<Longrightarrow> page_mirror (sys_page s)"
proof (induction rule: reachable.induct)
  case (opened h)
  then show ?case by (simp add: page_mirror_def sys_open_def init_page_main_def)
next
  case (step s e s')
  from sys_step_page [OF step.hyps(2)] show ?case
    using page_mirror_step [OF step.IH] step.IH by auto
qed

subsection \<open>Witnesses\<close>

theorem editor_session_synced_witness:
  "\<exists>s'. (case open_editor \<lparr>doc_text = write_doc scenario_board, prompt = None\<rparr> of
          None \<Rightarrow> None
        | Some s \<Rightarrow> session s [Act (CardDragStart 0 0) None 0, Act (ColumnDrop 1 [] 0) None 0,
                               Act AddColumnClick (Some ''Later'') 5, Edit (write_doc initialTodo_preview)]) = Some s' \<and>
        synced s'"
  using editor_session_synced [of "\<lparr>doc_text = write_doc scenario_board, prompt = None\<rparr>"
      "[Act (CardDragStart 0 0) None 0, Act (ColumnDrop 1 [] 0) None 0,
        Act AddColumnClick (Some ''Later'') 5, Edit (write_doc initialTodo_preview)]"]
  by (simp add: doc_ok_write)

theorem reachable_page_mirror_witness:
  "page_mirror (sys_page (the (sys_run (sys_open \<lparr>doc_text = write_doc scenario_board, prompt = None\<rparr>)
     [PageDeliver, UserEvent (CardDragStart 0 0), UserEvent (ColumnDrop 1 [] 0)])))"
proof -
  let ?s0 = "sys_open \<lparr>doc_text = write_doc scenario_board, prompt = None\<rparr>"
  have r: "reachable ?s0" by (rule reachable.opened)
  have "\<forall>s'. sys_run ?s0 [PageDeliver, UserEvent (CardDragStart 0 0), UserEvent (ColumnDrop 1 [] 0)] = Some s' \<longrightarrow> reachable s'"
    using reachable_run [OF r] by blast
  moreover have "sys_run ?s0 [PageDeliver, UserEvent (CardDragStart 0 0), UserEvent (ColumnDrop 1 [] 0)] \<noteq> None"
    by (simp add: sys_open_def sendData_write data_event_board webview_step_main_def onMessage_def render_def
        step_page_def step_msgs_def init_page_main_def scenario_board_def dom_card_def dom_column_def Let_def
        ondrop_main_def dropCard_def dropAt_def cardDropIndex_def getDragAfterElement_def moveCard_def
        splice_def final_index_def rel_start_def drag_id_def split: option.splits)
  ultimately obtain s' where "sys_run ?s0 [PageDeliver, UserEvent (CardDragStart 0 0), UserEvent (ColumnDrop 1 [] 0)] = Some s'"
    "reachable s'" by blast
  with reachable_page_mirror show ?thesis by simp
qed

theorem unparsable_edit_keeps_page_witness:
  "outside_round demo_sys ''{\"columns\": ['' =
     Some (demo_sys\<lparr>sys_host := (sys_host demo_sys)\<lparr>doc_text := ''{\"columns\": [''\<rparr>\<rparr>)"
proof -
  have "synced demo_sys" by (simp add: synced_def demo_sys_def init_page_main_def)
  moreover have "JSON_parse ''{\"columns\": ['' = None" by code_simp
  ultimately show ?thesis by (rule unparsable_edit_keeps_page)
qed

end
