(* ===== verification/Races.thy ===== *)
theory Races
  imports Sync
begin

text \<open>
  Interleavings of the host and the page of \<open>src/unnamed/part_000\<close> that the
  synchronisation of \<open>Sync\<close> does not cover: a message the page posted from a board it
  showed before the latest data message arrived, and a message handled while the
  host's add-column prompt is open.  Each is a concrete run of \<open>sys_step\<close> from the
  scenario board shown on the page (\<open>demo_sys\<close>), evaluated: it shows that the
  interleaving is reachable through the page's own events.  The general statements
  are in \<open>Document\<close>: the answer to a prompt writes over a text that an edit made
  longer, with a syntax error as the result (\<open>external_edit_during_prompt_corrupts\<close>,
  \<open>update_during_prompt_corrupts\<close>), and an update replaces whatever the document
  holds (\<open>host_applies_edit\<close>).
\<close>

text \<open>The same board after another writer appended a column \<open>z\<close>, and after card \<open>c1\<close> was dragged to column \<open>b\<close>.\<close>

definition board_z :: board where
  "board_z = \<lparr>columns = columns scenario_board @ [\<lparr>col_id = ''z'', col_title = ''Z'', cards = []\<rparr>]\<rparr>"

definition board_c1_in_b :: board where
  "board_c1_in_b =
     \<lparr>columns = [\<lparr>col_id = ''a'', col_title = ''A'', cards = [\<lparr>card_id = ''c2'', card_title = ''Y''\<rparr>]\<rparr>,
                 \<lparr>col_id = ''b'', col_title = ''B'', cards = [\<lparr>card_id = ''c1'', card_title = ''X''\<rparr>]\<rparr>]\<rparr>"

subsection \<open>Runs\<close>

text \<open>An outside edit that adds a column is lost when a card drop made on the page before the edit's data message arrived is delivered after it: the drop's update carries the page's stale board, the host writes it over the edited document, and the system settles on a board without the new column.\<close>

theorem drop_overwrites_outside_edit_run:
  "map_option (\<lambda>s'. (doc_text (sys_host s'), state (sys_page s'), synced s'))
     (sys_run demo_sys [OutsideEdit (write_doc board_z), UserEvent (CardDragStart 0 0), UserEvent (ColumnDrop 1 [] 0),
                        HostDeliver, PageDeliver, PageDeliver]) =
     Some (write_doc board_c1_in_b, Some board_c1_in_b, True) \<and>
   ''z'' \<in> set (col_ids board_z) \<and> ''z'' \<notin> set (col_ids board_c1_in_b)"
  by (simp add: demo_sys_def board_z_def board_c1_in_b_def scenario_board_def init_page_main_def col_ids_def
      sendData_write doc_view_write data_event_board host_finish_def commit_def synced_def Let_def
      webview_step_main_def onMessage_def render_def step_page_def step_msgs_def dom_card_def dom_column_def
      ondrop_main_def dropCard_def dropAt_def cardDropIndex_def getDragAfterElement_def moveCard_def
      splice_def final_index_def rel_start_def drag_id_def start_Parsed)

text \<open>A card dragged to another column while the host's add-column prompt is open, and answered afterwards, leaves a document JSON.parse rejects while the page shows the moved card: the page's own update changes the text's length under the range the pending handler captured, with no outside editor involved.\<close>

theorem drop_during_prompt_run:
  "map_option (\<lambda>s'. (doc_view_of (doc_text (sys_host s')), state (sys_page s'), to_host s', to_page s', prompt (sys_host s')))
     (sys_run demo_sys [UserEvent AddColumnClick, HostDeliver, UserEvent (CardDragStart 0 0), UserEvent (ColumnDrop 1 [] 0),
                        HostDeliver, PromptAnswer (Some ''Later'') 5, PageDeliver, PageDeliver]) =
     Some (Some Unparsable, Some board_c1_in_b, [], [], None)"
  by code_simp

end
