(* ===== verification/Launcher.thy ===== *)
theory Launcher
  imports Document
begin

text \<open>
  The two commands of the extension that create board files, \<open>openPreview\<close> and
  \<open>createBoard\<close> (\<open>src/unnamed/part_000\<close>, lines 70-144).  The workspace is the list of
  workspace folder paths (\<open>vscode.workspace.workspaceFolders\<close>, \<open>None\<close> when no folder is
  open) and the file system, a map from paths to file contents.  \<open>fs.stat\<close> throws
  exactly when no file is at the path; \<open>fs.writeFile\<close> stores the text; the effects the
  user sees are an error message and the opening of a board in the custom editor.
  \<open>vscode.Uri.joinPath\<close> appends a path segment after a slash.  The input box answers
  \<open>None\<close> when the user cancels it.  Not modelled: an argument of \<open>openPreview\<close> that is
  not a \<open>Uri\<close> (the code replaces it by the default path, as when none is given).
\<close>

type_synonym path = string

record workspace =
  folders :: "path list option"
  files :: "path \<Rightarrow> string option"

datatype ui = ShowError string | OpenWith path

definition joinPath :: "path \<Rightarrow> string \<Rightarrow> path" where
  "joinPath root name = root @ ''/'' @ name"

text \<open>The first workspace folder, \<open>workspaceFolders[0].uri\<close>: a TypeError on an empty list.\<close>

definition first_folder :: "path list \<Rightarrow> js_error + path" where
  "first_folder rs = (case rs of [] \<Rightarrow> Inl TypeError | r # _ \<Rightarrow> Inr r)"

definition openPreview :: "workspace \<Rightarrow> path option \<Rightarrow> js_error + workspace \<times> ui list" where
  "openPreview ws uri =
     (if uri = None \<and> folders ws = None then Inr (ws, [ShowError ''Open a workspace first.''])
      else
        (case (case uri of
                Some u \<Rightarrow> Inr u
              | None \<Rightarrow> map_sum id (\<lambda>r. joinPath r ''todo.board.json'') (first_folder (the (folders ws)))) of
          Inl e \<Rightarrow> Inl e
        | Inr u \<Rightarrow>
            (let ws' = (if files ws u = None
                        then ws\<lparr>files := (files ws)(u \<mapsto> write_doc initialTodo_preview)\<rparr> else ws)
             in Inr (ws', [OpenWith u]))))"

text \<open>\<open>name.replace(/[^a-z0-9\- ]/gi, '')\<close> keeps the letters, digits, hyphens and spaces.\<close>

definition name_char :: "char \<Rightarrow> bool" where
  "name_char c =
     (let n = of_char c :: nat
      in (97 \<le> n \<and> n \<le> 122) \<or> (65 \<le> n \<and> n \<le> 90) \<or> (48 \<le> n \<and> n \<le> 57) \<or> c = CHR ''-'' \<or> c = CHR '' '')"

definition board_filename :: "string \<Rightarrow> string" where
  "board_filename name =
     (let safeName = trim (filter name_char name)
      in (if safeName = [] then ''untitled'' else safeName) @ ''.board.json'')"

definition createBoard :: "workspace \<Rightarrow> string option \<Rightarrow> js_error + workspace \<times> ui list" where
  "createBoard ws name =
     (case folders ws of
       None \<Rightarrow> Inr (ws, [ShowError ''Open a workspace first.''])
     | Some rs \<Rightarrow>
         (case name of
           None \<Rightarrow> Inr (ws, [])
         | Some n \<Rightarrow>
             if n = [] then Inr (ws, [])
             else
               (case first_folder rs of
                 Inl e \<Rightarrow> Inl e
               | Inr root \<Rightarrow>
                   (let filename = board_filename n; uri = joinPath root filename
                    in if files ws uri \<noteq> None then Inr (ws, [ShowError (''File already exists: '' @ filename)])
                       else openPreview (ws\<lparr>files := (files ws)(uri \<mapsto> write_doc initialTodo_create)\<rparr>) (Some uri)))))"

text \<open>\<open>BoardProvider.getChildren\<close>: one tree item per file \<open>findFiles\<close> returns, whose command opens it.\<close>

record tree_item =
  item_label :: string
  item_target :: path

definition getChildren :: "bool \<Rightarrow> (path \<Rightarrow> string) \<Rightarrow> path list \<Rightarrow> tree_item list" where
  "getChildren element asRelativePath found =
     (if element then [] else map (\<lambda>u. \<lparr>item_label = asRelativePath u, item_target = u\<rparr>) found)"

subsection \<open>The commands never overwrite a file\<close>

lemma openPreview_Some:
  "openPreview ws (Some u) =
     Inr (if files ws u = None then ws\<lparr>files := (files ws)(u \<mapsto> write_doc initialTodo_preview)\<rparr> else ws, [OpenWith u])"
  by (simp add: openPreview_def)

lemma openPreview_keeps:
  "openPreview ws uri = Inr (ws', uis) \<Longrightarrow> files ws p = Some t \<Longrightarrow> files ws' p = Some t \<and> folders ws' = folders ws"
  by (auto simp: openPreview_def Let_def split: if_splits option.splits sum.splits)

lemma createBoard_cases:
  assumes "createBoard ws name = Inr (ws', uis)"
  shows "ws' = ws \<or> (\<exists>u. files ws u = None \<and>
           openPreview (ws\<lparr>files := (files ws)(u \<mapsto> write_doc initialTodo_create)\<rparr>) (Some u) = Inr (ws', uis))"
  using assms by (auto simp: createBoard_def Let_def split: option.splits sum.splits if_splits)

text \<open>C23: openPreview and createBoard never change an existing file nor the workspace folders: a file present before the command has the same content after it.\<close>

theorem launcher_never_overwrites:
  assumes "openPreview ws uri = Inr (ws', uis) \<or> createBoard ws name = Inr (ws', uis)"
    and "files ws p = Some t"
  shows "files ws' p = Some t \<and> folders ws' = folders ws"
  using assms(1)
proof
  assume "openPreview ws uri = Inr (ws', uis)"
  from openPreview_keeps [OF this assms(2)] show ?thesis .
next
  assume "createBoard ws name = Inr (ws', uis)"
  then consider "ws' = ws" | u where "files ws u = None"
    "openPreview (ws\<lparr>files := (files ws)(u \<mapsto> write_doc initialTodo_create)\<rparr>) (Some u) = Inr (ws', uis)"
    using createBoard_cases by blast
  then show ?thesis
  proof cases
    case 2
    then have "u \<noteq> p" using assms(2) by auto
    with 2 openPreview_keeps [OF 2(2), of p t] assms(2) show ?thesis by simp
  qed (use assms(2) in simp)
qed

text \<open>openPreview of a path with no file creates it with the Ideas / In Progress / Done board and opens it, whether or not the path was inferred.\<close>

theorem openPreview_creates_missing:
  "files ws u = None \<Longrightarrow>
   openPreview ws (Some u) = Inr (ws\<lparr>files := (files ws)(u \<mapsto> write_doc initialTodo_preview)\<rparr>, [OpenWith u])"
  by (simp add: openPreview_Some)

text \<open>C24: createBoard with a non-empty name and no file at the sanitised path writes the To Do / Doing / Done board there, which the editor reads back as that board, and opens it.\<close>

theorem createBoard_opens_new_board:
  assumes "folders ws = Some (r # rs)" and "n \<noteq> []" and "files ws (joinPath r (board_filename n)) = None"
  shows "\<exists>ws' t. createBoard ws (Some n) = Inr (ws', [OpenWith (joinPath r (board_filename n))]) \<and>
           files ws' (joinPath r (board_filename n)) = Some t \<and> doc_view_of t = Some (Parsed initialTodo_create)"
  using assms by (simp add: createBoard_def first_folder_def openPreview_Some doc_view_write Let_def)

lemma name_char_slash: "\<not> name_char (CHR ''/'')"
  by (simp add: name_char_def)

text \<open>C26: The file name createBoard derives from any name is a non-empty run of letters, digits, hyphens and inner spaces followed by .board.json, with no slash: the board lands directly in the workspace root and matches the launcher's **/*.board.json.\<close>

theorem board_filename_safe:
  "\<exists>s. board_filename n = s @ ''.board.json'' \<and> s \<noteq> [] \<and> (\<forall>c\<in>set s. name_char c) \<and>
       \<not> js_space (hd s) \<and> \<not> js_space (last s) \<and> CHR ''/'' \<notin> set (board_filename n)"
proof -
  define s where "s = trim (filter name_char n)"
  have chars: "\<forall>c\<in>set s. name_char c" using trim_set [of "filter name_char n"] by (auto simp: s_def)
  show ?thesis
  proof (cases "s = []")
    case True
    then show ?thesis by (simp add: board_filename_def s_def [symmetric] name_char_def js_space_def)
  next
    case False
    have "CHR ''/'' \<notin> set s" using chars name_char_slash by blast
    with False chars trim_ends [of "filter name_char n"] show ?thesis
      by (simp add: board_filename_def s_def [symmetric])
  qed
qed

text \<open>A tree item of the launcher opens its board without writing to it.\<close>

theorem launcher_items_open_without_writing:
  "(\<forall>u\<in>set found. files ws u \<noteq> None) \<Longrightarrow> it \<in> set (getChildren False rel found) \<Longrightarrow>
   openPreview ws (Some (item_target it)) = Inr (ws, [OpenWith (item_target it)])"
  by (auto simp: getChildren_def openPreview_Some)

subsection \<open>Witnesses\<close>

definition demo_ws :: workspace where
  "demo_ws = \<lparr>folders = Some [''/w''], files = [''/w/todo.board.json'' \<mapsto> ''x'']\<rparr>"

theorem launcher_never_overwrites_witness:
  "\<exists>ws' uis. createBoard demo_ws (Some ''Plan'') = Inr (ws', uis) \<and> files ws' ''/w/todo.board.json'' = Some ''x''"
proof -
  have "\<exists>ws' uis. createBoard demo_ws (Some ''Plan'') = Inr (ws', uis)"
    by (simp add: createBoard_def demo_ws_def first_folder_def board_filename_def name_char_def
        joinPath_def openPreview_Some js_string_eval Let_def)
  then obtain ws' uis where c: "createBoard demo_ws (Some ''Plan'') = Inr (ws', uis)" by blast
  have "files demo_ws ''/w/todo.board.json'' = Some ''x''" by (simp add: demo_ws_def)
  with launcher_never_overwrites [of demo_ws _ ws' uis "Some ''Plan''"] c show ?thesis by blast
qed

theorem openPreview_creates_missing_witness:
  "openPreview demo_ws (Some ''/w/new.board.json'') =
   Inr (demo_ws\<lparr>files := (files demo_ws)(''/w/new.board.json'' \<mapsto> write_doc initialTodo_preview)\<rparr>,
        [OpenWith ''/w/new.board.json''])"
  by (rule openPreview_creates_missing) (simp add: demo_ws_def)

theorem createBoard_opens_new_board_witness:
  "board_filename ''My Plan!'' = ''My Plan.board.json'' \<and>
   (\<exists>ws' t. createBoard demo_ws (Some ''My Plan!'') = Inr (ws', [OpenWith ''/w/My Plan.board.json'']) \<and>
      files ws' ''/w/My Plan.board.json'' = Some t \<and> doc_view_of t = Some (Parsed initialTodo_create))"
proof -
  have f: "board_filename ''My Plan!'' = ''My Plan.board.json''"
    by (simp add: board_filename_def name_char_def js_string_eval)
  have "files demo_ws (joinPath ''/w'' (board_filename ''My Plan!'')) = None"
    by (simp add: f demo_ws_def joinPath_def)
  from createBoard_opens_new_board [OF _ _ this] f show ?thesis
    by (simp add: demo_ws_def joinPath_def)
qed

theorem board_filename_safe_witness:
  "board_filename '' a/b '' = ''ab.board.json'' \<and>
   (\<exists>s. board_filename '' a/b '' = s @ ''.board.json'' \<and> s \<noteq> [] \<and> (\<forall>c\<in>set s. name_char c) \<and>
        \<not> js_space (hd s) \<and> \<not> js_space (last s) \<and> CHR ''/'' \<notin> set (board_filename '' a/b ''))"
proof -
  have "board_filename '' a/b '' = ''ab.board.json''"
    by (simp add: board_filename_def name_char_def js_string_eval)
  with board_filename_safe [of "'' a/b ''"] show ?thesis by simp
qed

theorem launcher_items_open_without_writing_witness:
  "openPreview demo_ws (Some (item_target \<lparr>item_label = ''todo.board.json'', item_target = ''/w/todo.board.json''\<rparr>)) =
   Inr (demo_ws, [OpenWith ''/w/todo.board.json''])"
proof -
  have "\<forall>u\<in>set [''/w/todo.board.json'']. files demo_ws u \<noteq> None" by (simp add: demo_ws_def)
  moreover have "\<lparr>item_label = ''todo.board.json'', item_target = ''/w/todo.board.json''\<rparr> \<in>
      set (getChildren False (\<lambda>u. drop 3 u) [''/w/todo.board.json''])"
    by (simp add: getChildren_def)
  ultimately show ?thesis using launcher_items_open_without_writing by fastforce
qed

end
