(* ===== verification/Legacy_Host.thy ===== *)
theory Legacy_Host
  imports Launcher Legacy
begin

text \<open>
  The extension host of the oldest version (the second file of
  \<open>src/unnamed/part_001\<close>, lines 731-810): its \<open>openPreview\<close> always opens
  \<open>todo.json\<close> in the first workspace folder, and its \<open>resolveCustomTextEditor\<close>
  handles only \<open>update\<close>, replacing the whole current text with no prompt and no
  parse of the document.  The host state, the events and the change listener are those
  of \<open>Document\<close>; the launcher's file pattern \<open>**/*.board.json\<close> of the newest
  version is \<open>board_glob\<close>.  The host of \<open>src/extension.js\<close> (\<open>host_step_v2\<close>) is
  here too, shown equal to the newest host but for \<open>move-column\<close>.
\<close>

definition openPreview_v1 :: "workspace \<Rightarrow> js_error + workspace \<times> ui list" where
  "openPreview_v1 ws =
     (case folders ws of
       None \<Rightarrow> Inr (ws, [ShowError ''Open a workspace first.''])
     | Some rs \<Rightarrow>
         (case first_folder rs of
           Inl e \<Rightarrow> Inl e
         | Inr r \<Rightarrow>
             (let u = joinPath r ''todo.json'';
                  ws' = (if files ws u = None
                         then ws\<lparr>files := (files ws)(u \<mapsto> write_doc initialTodo_preview)\<rparr> else ws)
              in Inr (ws', [OpenWith u]))))"

text \<open>The message handler replaces the range \<open>positionAt(0)\<close> to \<open>positionAt(getText().length)\<close>, read when the message arrives.\<close>

fun host_step_v1 :: "host \<Rightarrow> host_event \<Rightarrow> (host \<times> json list) option" where
  "host_step_v1 h (Receive m) = Some (host_finish h (length (doc_text h)) (Inr (onDidReceiveMessage_v1 m)))"
| "host_step_v1 h (Answer title now) = None"
| "host_step_v1 h (ExternalEdit t) = Some (h\<lparr>doc_text := t\<rparr>, sendData t)"

text \<open>
  The host of \<open>src/extension.js\<close> (lines 169-275): the same listener and replace range as
  the newest host, around the handler of \<open>Legacy\<close> (no \<open>move-column\<close>, no save).
\<close>

fun host_step_v2 :: "host \<Rightarrow> host_event \<Rightarrow> (host \<times> json list) option" where
  "host_step_v2 h (Receive m) =
     (case doc_view_of (doc_text h) of
       None \<Rightarrow> None
     | Some dv \<Rightarrow>
         (case receive_start_v2 dv m of
           Finished r \<Rightarrow> Some (host_finish h (length (doc_text h)) r)
         | Prompt a \<Rightarrow>
             if prompt h = None then Some (h\<lparr>prompt := Some (a, length (doc_text h))\<rparr>, []) else None))"
| "host_step_v2 h (Answer title now) =
     (case prompt h of
       None \<Rightarrow> None
     | Some (a, L) \<Rightarrow> Some (host_finish (h\<lparr>prompt := None\<rparr>) L (receive_resume commit_v2 a title now)))"
| "host_step_v2 h (ExternalEdit t) = Some (h\<lparr>doc_text := t\<rparr>, sendData t)"

text \<open>\<open>findFiles('**/*.board.json')\<close>: a path whose last name ends with \<open>.board.json\<close>.\<close>

definition board_glob :: "path \<Rightarrow> bool" where
  "board_glob p \<longleftrightarrow> take (length ''.board.json'') (rev p) = rev ''.board.json''"

text \<open>A document a hand edit has left half-typed.\<close>

definition broken_host :: host where
  "broken_host = \<lparr>doc_text = ''{\"columns\": ['', prompt = None\<rparr>"

subsection \<open>The oldest host\<close>

lemma host_finish_v1:
  "host_finish h (length (doc_text h)) (Inr (onDidReceiveMessage_v1 m)) =
     (case m of Update b \<Rightarrow> (h\<lparr>doc_text := write_doc b\<rparr>, [board_to_json b]) | _ \<Rightarrow> (h, []))"
  by (cases m) (simp_all add: host_finish_def onDidReceiveMessage_v1_def sendData_write)

text \<open>C25: The host of the oldest version replaces the whole current text by JSON.stringify of the board of an update message and posts that board, whatever the text held, and ignores every other message.\<close>

theorem host_step_v1_receive:
  "host_step_v1 h (Receive m) =
     Some (case m of Update b \<Rightarrow> (h\<lparr>doc_text := write_doc b\<rparr>, [board_to_json b]) | _ \<Rightarrow> (h, []))"
  by (simp add: host_finish_v1)

text \<open>
  Where the newest host leaves a text that \<open>JSON.parse\<close> rejects alone, the oldest
  one replaces it by the board of the webview's \<open>update\<close>: a half-typed manual edit
  is discarded.
\<close>

theorem v1_update_overwrites_unparsable:
  assumes "JSON_parse (doc_text h) = None"
  shows "host_step h (Receive (Update b)) = Some (h, []) \<and>
         host_step_v1 h (Receive (Update b)) = Some (h\<lparr>doc_text := write_doc b\<rparr>, [board_to_json b])"
  using assms by (simp add: doc_view_of_def receive_start_def host_finish_noop host_finish_v1)

text \<open>The oldest host keeps the document a board as the handler writes it, whatever the messages, when outside edits do.\<close>

theorem host_step_v1_keeps_ok:
  assumes "doc_ok (doc_text h)" and "\<forall>t. e = ExternalEdit t \<longrightarrow> doc_ok t"
    and "host_step_v1 h e = Some (h', ps)"
  shows "doc_ok (doc_text h')"
  using assms by (cases e) (auto simp: host_finish_v1 doc_ok_write split: msg.splits)

subsection \<open>The host of src/extension.js\<close>

lemma apply_effects_no_save: "apply_effects L t (filter (\<lambda>e. e \<noteq> Save) effs) = apply_effects L t effs"
proof (induction effs arbitrary: t)
  case (Cons e effs)
  then show ?case by (cases e) (simp_all add: Let_def)
qed simp

lemma host_finish_no_save: "host_finish h L (map_sum id (filter (\<lambda>e. e \<noteq> Save)) r) = host_finish h L r"
  by (cases r) (simp_all add: host_finish_def apply_effects_no_save)

lemma receive_start_v2_newest:
  "(\<forall>f t. m \<noteq> MoveColumn f t) \<Longrightarrow>
   receive_start_v2 dv m =
     (case receive_start dv m of Finished r \<Rightarrow> Finished (map_sum id (filter (\<lambda>e. e \<noteq> Save)) r) | Prompt a \<Rightarrow> Prompt a)"
  by (cases m; cases dv) (simp_all add: receive_start_v2_def receive_start_def commit_v2_filter split: option.splits)

text \<open>
  The host of \<open>src/extension.js\<close> is the newest host, with its replace range and its
  lost and corrupting edits during a prompt, except that it ignores \<open>move-column\<close>:
  the save the newest handler adds never changes the text.
\<close>

text \<open>C27: The host of src/extension.js, on every message, prompt answer and outside edit, steps exactly as the newest host does (same document text, same prompt, same data posted), except that it ignores move-column: the document save the newest handler adds never changes the text.\<close>

theorem host_v2_is_newest:
  "host_step_v2 h e =
     (case e of
       Receive (MoveColumn f t) \<Rightarrow> map_option (\<lambda>dv. (h, [])) (doc_view_of (doc_text h))
     | _ \<Rightarrow> host_step h e)"
proof (cases e)
  case (Receive m)
  show ?thesis
  proof (cases "\<exists>f t. m = MoveColumn f t")
    case True
    with Receive show ?thesis
      by (auto simp: receive_start_v2_def host_finish_noop split: option.splits doc_view.splits)
  next
    case False
    then have "\<forall>f t. m \<noteq> MoveColumn f t" by blast
    with Receive show ?thesis
      by (cases m) (simp_all add: receive_start_v2_newest host_finish_no_save split: option.splits started.splits)
  qed
next
  case (Answer t now)
  have "receive_resume commit_v2 a t now = map_sum id (filter (\<lambda>e. e \<noteq> Save)) (receive_resume commit a t now)" for a
    using receive_resume_filter [of commit a t now] by (simp add: commit_v2_filter)
  with Answer show ?thesis by (simp add: host_finish_no_save split: option.splits)
qed simp

subsection \<open>The oldest openPreview\<close>

lemma board_glob_joinPath: "\<not> board_glob (joinPath r ''todo.json'')" "board_glob (joinPath r ''todo.board.json'')"
  by (simp_all add: board_glob_def joinPath_def)

text \<open>
  In a workspace, the oldest openPreview is the newest one given the path
  \<open>todo.json\<close> of the first folder, a file the newest launcher's pattern does not
  list, while the newest openPreview with no argument opens \<open>todo.board.json\<close>, which
  it does list.
\<close>

theorem openPreview_v1_todo_json:
  assumes "folders ws = Some (r # rs)"
  shows "openPreview_v1 ws = openPreview ws (Some (joinPath r ''todo.json'')) \<and>
         \<not> board_glob (joinPath r ''todo.json'') \<and>
         openPreview ws None = openPreview ws (Some (joinPath r ''todo.board.json'')) \<and>
         board_glob (joinPath r ''todo.board.json'')"
  using assms by (simp add: openPreview_v1_def openPreview_def first_folder_def board_glob_joinPath Let_def)

subsection \<open>Witnesses\<close>

theorem v1_update_overwrites_unparsable_witness:
  "host_step broken_host (Receive (Update initialTodo_preview)) = Some (broken_host, []) \<and>
   host_step_v1 broken_host (Receive (Update initialTodo_preview)) =
     Some (broken_host\<lparr>doc_text := write_doc initialTodo_preview\<rparr>, [board_to_json initialTodo_preview])"
proof -
  have "JSON_parse (doc_text broken_host) = None" by code_simp
  from v1_update_overwrites_unparsable [OF this] show ?thesis .
qed

theorem host_step_v1_keeps_ok_witness:
  "doc_ok (doc_text (fst (the (host_step_v1 \<lparr>doc_text = write_doc initialTodo_preview, prompt = None\<rparr>
      (Receive (Update initialTodo_create))))))"
proof -
  let ?h = "\<lparr>doc_text = write_doc initialTodo_preview, prompt = None\<rparr>"
  obtain h' ps where s: "host_step_v1 ?h (Receive (Update initialTodo_create)) = Some (h', ps)"
    by (metis host_step_v1.simps(1) prod.exhaust)
  have "doc_ok (doc_text h')"
    using host_step_v1_keeps_ok [OF _ _ s] by (simp add: doc_ok_write)
  with s show ?thesis by simp
qed

theorem openPreview_v1_todo_json_witness:
  "openPreview_v1 demo_ws = openPreview demo_ws (Some ''/w/todo.json'') \<and> \<not> board_glob ''/w/todo.json''"
  using openPreview_v1_todo_json [of demo_ws "''/w''" "[]"] by (simp add: demo_ws_def joinPath_def)

end
