(* ===== verification/Activate.thy ===== *)
theory Activate
  imports Legacy_Host
begin

text \<open>
  \<open>activate\<close> of \<open>src/unnamed/part_000\<close> (lines 3-32; \<open>src/extension.js\<close> and the first
  file of \<open>src/unnamed/part_001\<close> have the same code) and of the oldest version (the
  second file of \<open>part_001\<close>, lines 691-718): what it registers with VS Code, as a
  registry of the launcher view, the file watchers (by the paths they report), the
  command handlers by id, and the custom editors by view type.  \<open>executeCommand\<close> runs
  the handler registered under an id and is \<open>None\<close> for an id nobody registered (VS Code
  rejects the call).  The text of \<open>createBoard\<close>'s input box is passed along with the
  command's argument.
\<close>

datatype cmd_arg = NoArg | ArgUri path

type_synonym handler = "workspace \<Rightarrow> cmd_arg \<Rightarrow> string option \<Rightarrow> js_error + workspace \<times> ui list"

record registry =
  tree_views :: "string list"
  watchers :: "(path \<Rightarrow> bool) list"
  handlers :: "(string \<times> handler) list"
  editors :: "string list"

definition activate :: registry where
  "activate =
     \<lparr>tree_views = [''todoBoardLauncher''],
      watchers = [board_glob],
      handlers = [(''todoBoard.openPreview'', \<lambda>ws a ans. openPreview ws (case a of NoArg \<Rightarrow> None | ArgUri u \<Rightarrow> Some u)),
                  (''todoBoard.createBoard'', \<lambda>ws a ans. createBoard ws ans)],
      editors = [''todoBoard.preview'']\<rparr>"

text \<open>The oldest version registers a webview view (\<open>HiddenLauncher\<close>) as the launcher, no watcher, and one command.\<close>

definition activate_v1 :: registry where
  "activate_v1 =
     \<lparr>tree_views = [''todoBoardLauncher''],
      watchers = [],
      handlers = [(''todoBoard.openPreview'', \<lambda>ws a ans. openPreview_v1 ws)],
      editors = [''todoBoard.preview'']\<rparr>"

definition executeCommand :: "registry \<Rightarrow> workspace \<Rightarrow> string \<Rightarrow> cmd_arg \<Rightarrow> string option \<Rightarrow> (js_error + workspace \<times> ui list) option" where
  "executeCommand reg ws cid a ans = map_option (\<lambda>h. h ws a ans) (map_of (handlers reg) cid)"

text \<open>\<open>HiddenLauncher.resolveWebviewView\<close>: opening the launcher view runs the preview command with no argument.\<close>

definition resolveWebviewView :: "registry \<Rightarrow> workspace \<Rightarrow> (js_error + workspace \<times> ui list) option" where
  "resolveWebviewView reg ws = executeCommand reg ws ''todoBoard.openPreview'' NoArg None"

text \<open>The command of a launcher tree item: \<open>todoBoard.openPreview\<close> with the item's uri.\<close>

definition item_command :: "tree_item \<Rightarrow> string \<times> cmd_arg" where
  "item_command it = (''todoBoard.openPreview'', ArgUri (item_target it))"

text \<open>The view type \<open>openPreview\<close> passes to \<open>vscode.openWith\<close>.\<close>

definition preview_viewType :: string where
  "preview_viewType = ''todoBoard.preview''"

text \<open>A created, deleted or changed file reaches \<open>boardProvider.refresh()\<close> when a watcher reports its path.\<close>

definition file_event_refreshes :: "registry \<Rightarrow> path \<Rightarrow> bool" where
  "file_event_refreshes reg p \<longleftrightarrow> list_ex (\<lambda>w. w p) (watchers reg)"

subsection \<open>The registrations serve what the code invokes\<close>

lemma board_glob_suffix: "board_glob (x @ ''.board.json'')"
  by (simp add: board_glob_def)

lemma board_filename_suffix: "\<exists>s. board_filename n = s @ ''.board.json''"
  by (auto simp: board_filename_def Let_def)

lemma createBoard_path_cases:
  assumes "createBoard ws name = Inr (ws', uis)"
  shows "ws' = ws \<or> (\<exists>r n. files ws (joinPath r (board_filename n)) = None \<and>
           openPreview (ws\<lparr>files := (files ws)(joinPath r (board_filename n) \<mapsto> write_doc initialTodo_create)\<rparr>)
             (Some (joinPath r (board_filename n))) = Inr (ws', uis))"
  using assms by (auto simp: createBoard_def Let_def split: option.splits sum.splits if_splits)

lemma createBoard_writes:
  assumes "createBoard ws name = Inr (ws', uis)" and "files ws' p \<noteq> files ws p"
  shows "\<exists>r n. p = joinPath r (board_filename n)"
proof -
  from createBoard_path_cases [OF assms(1)] assms(2) obtain r n where
    "openPreview (ws\<lparr>files := (files ws)(joinPath r (board_filename n) \<mapsto> write_doc initialTodo_create)\<rparr>)
       (Some (joinPath r (board_filename n))) = Inr (ws', uis)"
    by auto
  then have "files ws' = (files ws)(joinPath r (board_filename n) \<mapsto> write_doc initialTodo_create)"
    by (auto simp: openPreview_Some)
  with assms(2) show ?thesis by (auto split: if_splits)
qed

text \<open>
  Every item of the launcher tree runs a registered command, which opens the item's
  file with the preview editor that \<open>activate\<close> registers; the oldest launcher view
  runs the oldest \<open>openPreview\<close>.
\<close>

theorem launcher_commands_registered:
  "executeCommand activate ws (fst (item_command it)) (snd (item_command it)) ans =
           Some (openPreview ws (Some (item_target it))) \<and>
         preview_viewType \<in> set (editors activate) \<and>
         resolveWebviewView activate_v1 ws = Some (openPreview_v1 ws) \<and>
         preview_viewType \<in> set (editors activate_v1)"
  by (simp add: executeCommand_def activate_def activate_v1_def item_command_def resolveWebviewView_def
      preview_viewType_def)

text \<open>
  Every file \<open>createBoard\<close> writes is reported by the watcher \<open>activate\<close> creates, so the
  launcher tree is refreshed and lists the new board.
\<close>

theorem createBoard_refreshes_launcher:
  assumes "createBoard ws name = Inr (ws', uis)" and "files ws' p \<noteq> files ws p"
  shows "file_event_refreshes activate p"
proof -
  obtain r n where "p = joinPath r (board_filename n)" using createBoard_writes [OF assms] by blast
  moreover obtain s where "board_filename n = s @ ''.board.json''" using board_filename_suffix by blast
  ultimately have "board_glob p" by (simp add: joinPath_def board_glob_suffix [of "r @ ''/'' @ s", simplified])
  then show ?thesis by (simp add: file_event_refreshes_def activate_def)
qed

subsection \<open>Witnesses\<close>

theorem createBoard_refreshes_launcher_witness:
  "file_event_refreshes activate ''/w/Plan.board.json''"
proof -
  have c: "createBoard demo_ws (Some ''Plan'') =
      Inr (demo_ws\<lparr>files := (files demo_ws)(''/w/Plan.board.json'' \<mapsto> write_doc initialTodo_create)\<rparr>,
           [OpenWith ''/w/Plan.board.json''])"
    by (simp add: createBoard_def demo_ws_def first_folder_def board_filename_def name_char_def
        joinPath_def openPreview_Some js_string_eval Let_def)
  have "files (demo_ws\<lparr>files := (files demo_ws)(''/w/Plan.board.json'' \<mapsto> write_doc initialTodo_create)\<rparr>)
          ''/w/Plan.board.json'' \<noteq> files demo_ws ''/w/Plan.board.json''"
    by (simp add: demo_ws_def)
  from createBoard_refreshes_launcher [OF c this] show ?thesis .
qed

end
