(* ===== verification/Scroll.thy ===== *)
theory Scroll
  imports Prelude
begin

text \<open>
  Drag-to-scroll of the board in the webview of \<open>src/unnamed/part_000\<close> (lines 614-645;
  the first file of \<open>src/unnamed/part_001\<close> has the same code): pressing the mouse on
  the board's background and moving it scrolls the board horizontally by twice the
  distance moved.  The state is the script's globals \<open>isDown\<close>, \<open>startX\<close>,
  \<open>scrollLeft\<close> (the last two \<open>undefined\<close> until the first press), the \<open>active\<close>
  class of the board and the board element's \<open>scrollLeft\<close>.  The DOM setter of
  \<open>scrollLeft\<close> clamps the value to \<open>[0, scrollWidth - clientWidth]\<close> and turns a
  non-finite value into 0 (CSSOM View); \<open>maxScroll\<close> is that upper bound and
  \<open>offsetLeft\<close> the board's offset, both fixed during a run.  Pointer coordinates are
  integers here (CSS pixels).
\<close>

record scroll =
  isDown :: bool
  startX :: "int option"
  scrollLeft :: "int option"
  active :: bool
  board_scrollLeft :: int

definition init_scroll :: scroll where
  "init_scroll = \<lparr>isDown = False, startX = None, scrollLeft = None, active = False, board_scrollLeft = 0\<rparr>"

text \<open>What \<open>e.target\<close> of a mousedown is: inside a card, a button, an editable title, inside a column header.\<close>

record mouse_target =
  in_card :: bool
  is_button :: bool
  is_editable :: bool
  in_header :: bool

datatype mouse_event = MouseDown mouse_target int | MouseLeave | MouseUp | MouseMove int

text \<open>The \<open>scrollLeft\<close> setter of the board element.\<close>

definition set_scrollLeft :: "int \<Rightarrow> int option \<Rightarrow> int" where
  "set_scrollLeft maxScroll v = (case v of None \<Rightarrow> 0 | Some x \<Rightarrow> max 0 (min maxScroll x))"

fun scroll_step :: "int \<Rightarrow> int \<Rightarrow> scroll \<Rightarrow> mouse_event \<Rightarrow> scroll" where
  "scroll_step offsetLeft maxScroll s (MouseDown t pageX) =
     (if in_card t \<or> is_button t \<or> is_editable t \<or> in_header t then s
      else s\<lparr>isDown := True, active := True, startX := Some (pageX - offsetLeft),
             scrollLeft := Some (board_scrollLeft s)\<rparr>)"
| "scroll_step offsetLeft maxScroll s MouseLeave = s\<lparr>isDown := False, active := False\<rparr>"
| "scroll_step offsetLeft maxScroll s MouseUp = s\<lparr>isDown := False, active := False\<rparr>"
| "scroll_step offsetLeft maxScroll s (MouseMove pageX) =
     (if \<not> isDown s then s
      else let x = pageX - offsetLeft;
               walk = map_option (\<lambda>sx. (x - sx) * 2) (startX s)
           in s\<lparr>board_scrollLeft := set_scrollLeft maxScroll
                  (case (scrollLeft s, walk) of (Some l, Some w) \<Rightarrow> Some (l - w) | _ \<Rightarrow> None)\<rparr>)"

definition scroll_run :: "int \<Rightarrow> int \<Rightarrow> scroll \<Rightarrow> mouse_event list \<Rightarrow> scroll" where
  "scroll_run offsetLeft maxScroll s es = foldl (scroll_step offsetLeft maxScroll) s es"

text \<open>A press is on the background when none of the four guards of the handler holds.\<close>

definition on_background :: "mouse_target \<Rightarrow> bool" where
  "on_background t \<longleftrightarrow> \<not> (in_card t \<or> is_button t \<or> is_editable t \<or> in_header t)"

text \<open>A press on the background and one on a card, used by the witnesses.\<close>

definition background_press :: mouse_target where
  "background_press = \<lparr>in_card = False, is_button = False, is_editable = False, in_header = False\<rparr>"

definition card_press :: mouse_target where
  "card_press = \<lparr>in_card = True, is_button = False, is_editable = False, in_header = False\<rparr>"

definition scroll_inv :: "int \<Rightarrow> scroll \<Rightarrow> bool" where
  "scroll_inv maxScroll s \<longleftrightarrow>
     active s = isDown s \<and> (isDown s \<longrightarrow> startX s \<noteq> None \<and> scrollLeft s \<noteq> None) \<and>
     0 \<le> board_scrollLeft s \<and> board_scrollLeft s \<le> max 0 maxScroll"

subsection \<open>The scroll position stays in range and follows the pointer\<close>

lemma set_scrollLeft_bounds: "0 \<le> set_scrollLeft m v \<and> set_scrollLeft m v \<le> max 0 m"
  by (auto simp: set_scrollLeft_def split: option.split)

lemma scroll_step_inv: "scroll_inv m s \<Longrightarrow> scroll_inv m (scroll_step off m s e)"
  by (cases e) (auto simp: scroll_inv_def Let_def set_scrollLeft_bounds)

lemma scroll_run_inv: "scroll_inv m s \<Longrightarrow> scroll_inv m (scroll_run off m s es)"
  unfolding scroll_run_def by (induction es arbitrary: s) (simp_all add: scroll_step_inv)

lemma moves_keep:
  "isDown s \<Longrightarrow> startX s = Some x0 \<Longrightarrow> scrollLeft s = Some l0 \<Longrightarrow> ps \<noteq> [] \<Longrightarrow>
   scroll_run off m s (map MouseMove ps) =
     s\<lparr>board_scrollLeft := max 0 (min m (l0 - (last ps - off - x0) * 2))\<rparr>"
proof (induction ps arbitrary: s)
  case (Cons p ps)
  let ?s1 = "scroll_step off m s (MouseMove p)"
  have s1: "?s1 = s\<lparr>board_scrollLeft := max 0 (min m (l0 - (p - off - x0) * 2))\<rparr>"
    using Cons.prems by (simp add: set_scrollLeft_def)
  show ?case
  proof (cases ps)
    case Nil
    with s1 show ?thesis by (simp add: scroll_run_def)
  next
    case (Cons q qs)
    have "scroll_run off m ?s1 (map MouseMove ps) = ?s1\<lparr>board_scrollLeft := max 0 (min m (l0 - (last ps - off - x0) * 2))\<rparr>"
      using Cons.IH [of ?s1] Cons.prems Cons s1 by simp
    with s1 Cons show ?thesis by (simp add: scroll_run_def)
  qed
qed simp

text \<open>C19: A press on the board's background followed by moves scrolls the board to its scrollLeft at the press minus twice the horizontal distance from the press to the last move, clamped to the scroll range.\<close>

theorem scroll_gesture:
  "on_background t \<Longrightarrow> ps \<noteq> [] \<Longrightarrow>
   board_scrollLeft (scroll_run off m s (MouseDown t p0 # map MouseMove ps)) =
     max 0 (min m (board_scrollLeft s - (last ps - p0) * 2))"
proof -
  assume bg: "on_background t" and ne: "ps \<noteq> []"
  let ?s1 = "scroll_step off m s (MouseDown t p0)"
  have "isDown ?s1" "startX ?s1 = Some (p0 - off)" "scrollLeft ?s1 = Some (board_scrollLeft s)"
    using bg by (simp_all add: on_background_def)
  from moves_keep [OF this ne] have "scroll_run off m ?s1 (map MouseMove ps) =
      ?s1\<lparr>board_scrollLeft := max 0 (min m (board_scrollLeft s - (last ps - off - (p0 - off)) * 2))\<rparr>" .
  then show ?thesis by (simp add: scroll_run_def)
qed

lemma moves_idle: "\<not> isDown s \<Longrightarrow> scroll_run off m s (map MouseMove ps) = s"
  unfolding scroll_run_def by (induction ps) simp_all

text \<open>A press on a card, a button, a title or a column header followed by any moves leaves the board where it was: a card or column drag never scrolls the board.\<close>

theorem press_on_card_no_scroll:
  "\<not> isDown s \<Longrightarrow> \<not> on_background t \<Longrightarrow>
   board_scrollLeft (scroll_run off m s (MouseDown t p # map MouseMove ps)) = board_scrollLeft s"
proof -
  assume "\<not> isDown s" "\<not> on_background t"
  then have "scroll_step off m s (MouseDown t p) = s" by (simp add: on_background_def)
  with moves_idle [OF \<open>\<not> isDown s\<close>, of off m ps] show ?thesis by (simp add: scroll_run_def)
qed

subsection \<open>Witnesses\<close>

theorem scroll_gesture_witness:
  "on_background background_press \<and> [120, 90] \<noteq> ([] :: int list) \<and>
   board_scrollLeft (scroll_run 8 500 init_scroll (MouseDown background_press 100 # map MouseMove [120, 90])) = 20"
  using scroll_gesture [of background_press "[120, 90]" 8 500 init_scroll 100]
  by (simp add: on_background_def background_press_def init_scroll_def)

theorem press_on_card_no_scroll_witness:
  "\<not> isDown init_scroll \<and> \<not> on_background card_press \<and>
   board_scrollLeft (scroll_run 8 500 init_scroll (MouseDown card_press 100 # map MouseMove [120, 90])) = 0"
  using press_on_card_no_scroll [of init_scroll card_press 8 500 100 "[120, 90]"]
  by (simp add: on_background_def card_press_def init_scroll_def)

end
