(* ===== verification/Spec2Isabelle.thy ===== *)
theory Spec2Isabelle
  imports Races Activate Scroll
begin

text \<open>
  \<^bold>\<open>A verification library for the todo-board VS Code extension.\<close>

  \<^bold>\<open>The program.\<close>  The repository holds the extension in four versions:
  \<open>src/extension.js\<close>, the two files joined in \<open>src/unnamed/part_001\<close> (the first a
  version with column drags, the second the oldest one), and \<open>src/unnamed/part_000\<close>,
  the newest, which the spec describes (positional card drops, column moves, saving
  after each edit).  Each version has a host side (\<open>activate\<close>, the launcher tree,
  the commands \<open>openPreview\<close> and \<open>createBoard\<close>, and the custom editor
  \<open>TodoBoardEditor\<close>) and a webview page (the script inside \<open>getHtml\<close>).  The two sides
  share no memory: the host owns the \<open>.board.json\<close> document, the page keeps a copy of
  the board in \<open>state\<close>.  The host posts the parsed document to the page
  (\<open>sendData\<close>) on every change of the text; the page posts typed messages (\<open>update\<close>,
  \<open>add-column\<close>, \<open>add-card\<close>, \<open>rename-column\<close>, \<open>delete-column\<close>, \<open>delete-card\<close>,
  \<open>move-column\<close>) to the host's \<open>onDidReceiveMessage\<close>, which applies them to the
  freshly parsed document and writes the result back.

  \<^bold>\<open>The theories.\<close>
  \<^item> \<open>Prelude\<close>: the JavaScript built-ins the code calls, from the ECMAScript
    definitions: \<open>findIndex\<close> (with its \<open>-1\<close>), \<open>splice\<close> (relative start, clamping;
    the result pairs the removed elements with the array left), \<open>trim\<close>,
    \<open>toLowerCase\<close> and the decimal rendering of \<open>Date.now()\<close>; a thrown exception is
    a value of \<open>js_error\<close>.  Strings are Isabelle strings, i.e. the Latin-1 range of
    JavaScript's UTF-16 code units.
  \<^item> \<open>Board\<close>: the board object as records \<open>card\<close>, \<open>column\<close>, \<open>board\<close>; the spec's
    invariant \<open>wf_board\<close> (column ids unique); the templates written by
    \<open>openPreview\<close> and \<open>createBoard\<close>; lemmas on updating one column of the list.
  \<^item> \<open>Reorder\<close>: the page's \<open>moveCard(fromId, toId, cardId, toIndex)\<close>,
    \<open>getDragAfterElement\<close> and the card branch of \<open>column.ondrop\<close> of \<open>part_000\<close>
    (\<open>cardDropIndex\<close>, \<open>dropAt\<close>, \<open>dropCard\<close>).  A mutation in place is a
    function that returns the new board; a throw is \<open>Inl (e, s)\<close> with \<open>s\<close> the state at the throw.
    The abstract specification \<open>drop_spec\<close> says where a dropped card goes;
    \<open>first_below\<close> says which card a drop lands in front of.
  \<^item> \<open>Dispatcher\<close>: the host's \<open>onDidReceiveMessage\<close> of \<open>part_000\<close> (the first file of
    \<open>part_001\<close> has the same code), every branch, with the branch operations
    (\<open>deleteColumn\<close>, \<open>renameColumn\<close>, \<open>addColumn\<close>, \<open>addCard\<close>, \<open>deleteCard\<close>,
    \<open>moveColumn\<close>) returning \<open>None\<close> when \<open>dirty\<close> stays false.  The handler awaits a
    prompt for \<open>add-column\<close> and \<open>add-card\<close>, so it is a start step
    (\<open>receive_start\<close>, up to the prompt) and a resume step (\<open>receive_resume\<close>, from the
    prompt's answer and the time).  Its effects are a list of \<open>SendData\<close>, \<open>ApplyEdit b\<close>
    and \<open>Save\<close>; the document is seen through \<open>JSON.parse\<close> as a \<open>doc_view\<close>.
  \<^item> \<open>Legacy\<close>: the handler of \<open>src/extension.js\<close> (no \<open>move-column\<close>, no save) and the
    update-only handler of the oldest version; the append-only \<open>moveCard\<close> of
    \<open>src/extension.js\<close> (the same in the first file of \<open>part_001\<close>) and the unguarded one
    of the oldest version.
  \<^item> \<open>Webview\<close>: the page as a record (\<open>state\<close>, the DOM of the last \<open>render()\<close> as the
    list of columns it was built from, the drag context), one step per DOM event or
    window message returning the posted messages or the exception, and runs of events
    (\<open>wv_run\<close>, which goes on after a handler throws).  The pages of \<open>src/extension.js\<close>
    (\<open>webview_step_v2\<close>) and of the oldest version (\<open>webview_step_v1\<close>).
  \<^item> \<open>Webview_Main\<close>: the pages with column drags, whose \<open>dragged\<close> and \<open>fromColumn\<close>
    are undeclared globals: \<open>part_000\<close> (\<open>webview_step_main\<close>) and the first file of
    \<open>part_001\<close> (\<open>webview_step_v3\<close>), one step function parametrised by the drop
    handler.
  \<^item> \<open>Json\<close>: \<open>JSON.stringify(v, null, 2)\<close> (\<open>ser\<close>: two-space indentation, one
    member per line, \<open>[]\<close> and \<open>{}\<close> for empty containers, QuoteJSONString escapes)
    and \<open>JSON.parse\<close> (a mutually recursive descent parser over the text, with fuel),
    from ECMA-262, over the whole JSON grammar: \<open>None\<close> is exactly a \<open>SyntaxError\<close>.
    Integers are \<open>JNum\<close>; a number with a fraction or an exponent is kept as its
    source text (\<open>JOther\<close>), and so is a whole text that is valid only through a
    \<open>\\u\<close> escape above U+00FF (strings are Latin-1, see \<open>Prelude\<close>), recognised by
    reading it again with that escape's digits zeroed (\<open>erase_wide\<close>); a repeated key
    replaces the value in place.
  \<^item> \<open>Document\<close>: the board as the JSON object the code builds (\<open>board_to_json\<close>), the
    document text read back through \<open>JSON.parse\<close> and \<open>data.columns\<close>
    (\<open>doc_view_of\<close>), \<open>write_doc\<close> and \<open>sendData\<close>; the host of
    \<open>resolveCustomTextEditor\<close> as a state machine (\<open>host_step\<close>, \<open>host_run\<close>) over the
    document text and the open prompt, driven by webview messages, prompt answers and
    edits made outside the board, with the WorkspaceEdit replacing the range
    \<open>[0, currentText.length)\<close> captured when the handler started.
  \<^item> \<open>Launcher\<close>: \<open>openPreview\<close>, \<open>createBoard\<close> (with the file-name sanitization
    \<open>board_filename\<close>) and \<open>BoardProvider.getChildren\<close> over a workspace record of
    folders and a file map.
  \<^item> \<open>Legacy_Host\<close>: the host of the oldest version: its \<open>openPreview\<close>, which always
    opens \<open>todo.json\<close> of the first folder, and its \<open>resolveCustomTextEditor\<close>
    (\<open>host_step_v1\<close>, on the state and events of \<open>Document\<close>), which replaces the whole
    text on \<open>update\<close> and has no prompt; \<open>board_glob\<close> is the launcher's
    \<open>**/*.board.json\<close>.  Also the host of \<open>src/extension.js\<close> (\<open>host_step_v2\<close>).
  \<^item> \<open>Activate\<close>: what \<open>activate\<close> registers in the newest and the oldest version
    (launcher view, file watcher, command handlers by id, custom editor) and
    \<open>executeCommand\<close> dispatching on it: the tree items' command and the oldest
    launcher view's call run the intended \<open>openPreview\<close>, and every file
    \<open>createBoard\<close> writes is reported by the watcher, so the tree is refreshed.
  \<^item> \<open>Scroll\<close>: the drag-to-scroll of the board in the page of \<open>part_000\<close> (the same in
    the first file of \<open>part_001\<close>): the globals \<open>isDown\<close>, \<open>startX\<close>,
    \<open>scrollLeft\<close>, the \<open>active\<close> class and the board's \<open>scrollLeft\<close> as a record, one
    step per mouse event (\<open>scroll_step\<close>), and the DOM setter that clamps
    \<open>scrollLeft\<close> to the scroll range (\<open>set_scrollLeft\<close>).
  \<^item> \<open>Sync\<close>: the host and the page of \<open>part_000\<close> as one system with a message queue
    each way (\<open>sys_step\<close>): a user event on the page, the delivery of the first
    message of a queue, the answer to the host's prompt, an outside edit.  \<open>round\<close>
    carries one user action to its end; \<open>session\<close> runs actions and outside edits from
    \<open>open_editor\<close>, the editor's first \<open>sendData()\<close> to a fresh page; \<open>reachable\<close>
    is the inductive set of states any interleaving of steps reaches from an opened
    editor.
  \<^item> \<open>Races\<close>: two concrete interleavings of that system that \<open>Sync\<close>'s rounds
    exclude, evaluated as worked examples: a card drop from a board the page showed
    before an outside edit arrived, and a card drop while the add-column prompt is
    open.  Their general statements are theorems of \<open>Document\<close>.
  \<^item> \<open>Spec2Isabelle\<close> (this theory): this overview.

  \<^bold>\<open>What is proved.\<close>  Reorder engine: a card drop (index computation and
  \<open>moveCard\<close> together) implements \<open>drop_spec\<close> (C1); \<open>moveCard\<close> never loses or
  duplicates a card (C2) and lands a card moved down its own column at \<open>j - 1\<close> (C4);
  the reduce of \<open>getDragAfterElement\<close> picks the first card below the pointer (C5); a
  stale source column makes \<open>moveCard\<close> throw (C22).  Document store: a board written
  by the handler reads back as the same board (C3), resting on the round trip of
  \<open>JSON.parse\<close> over \<open>JSON.stringify\<close> for every value with distinct, non-numeric keys
  (C7).  Dispatcher: the column-id invariant is kept by every message under the
  stated freshness conditions (C6), and broken by add-column on every board that
  already holds the generated id (C21); messages with stale ids are dropped (C11);
  delete-column (C12), move-column (C14), the prompts (C15) and add-column's refresh
  before its edit (C20).  Host: a structural message rewrites the document and the
  webview receives the edited board (C10); a document that is not JSON makes every
  message a no-op (C16), one without columns every message but update and the two
  prompts; the document stays a board while nothing but the answer happens during a
  prompt (C9); otherwise a change made during the prompt is overwritten (C8), and an
  outside edit or a page update that lengthened the text leaves the document
  unparsable once the prompt is answered (C13, C18).  Launcher: no command overwrites a
  file (C23); createBoard writes and opens a board the editor reads back (C24); the
  derived file name has no path separator and ends in \<open>.board.json\<close> (C26).  Older
  versions: the host of \<open>src/extension.js\<close> steps exactly as the newest host except
  on \<open>move-column\<close>, which it ignores (C27); its drop cannot reorder within a column
  (C28); the oldest \<open>moveCard\<close> moves the wrong card for a stale id (C29); the oldest
  host writes an \<open>update\<close> over the whole text, whatever it held, and ignores every
  other message (C25), so that, unlike the newest, it overwrites a text that does not
  parse; its \<open>openPreview\<close> opens \<open>todo.json\<close>, which the newest launcher does not
  list.  Pages: the drag-context invariants on every run (C30, C32), renames are posted
  trimmed and non-blank, a card drop posts a board with the same cards and columns and
  the newest page re-renders it (C33), a drop before any drag throws a
  \<open>ReferenceError\<close> (C34), and no self-move is posted.  Synchronisation: from opening a
  board document, after every user action carried to its end and every outside edit
  that leaves a board, the page shows exactly the board in the document (C31); an
  outside edit that does not parse reaches the document but not the page, which keeps
  its board.  Through any interleaving whatever, the page's rendered DOM is the one its
  state renders (\<open>reachable\<close>, by rule induction, C17).  Scrolling: a press on the
  background followed by moves scrolls by twice the distance moved, clamped to the
  scroll range (C19), and a press on a card, a button, a title or a header never
  scrolls.  Each theorem with hypotheses has a witness, mostly on the board of the
  spec's scenarios (\<open>scenario_board\<close>).

  \<^bold>\<open>Fuel.\<close>  Every function is structurally recursive or a composition of total
  functions, except the JSON parser: \<open>parse_value\<close>, \<open>parse_elems\<close> and
  \<open>parse_members\<close> take fuel and answer \<open>PFuel\<close> when it runs out.  \<open>JSON_parse\<close> gives
  \<open>2 * length text + 1\<close>: every nested call either consumes a character or is an
  element or member call that is followed by one, so that bound is never reached
  (\<open>parse_total\<close>), and more fuel never changes a result (\<open>parse_mono\<close>).

  \<^bold>\<open>Not modelled.\<close>  Documents of another shape than the board object (extra keys,
  keys in another order, fields of other types) are outside \<open>doc_view_of\<close>, as are
  the texts read as \<open>JOther\<close> as a whole, and keys that ECMAScript orders as array
  indices; the value of a \<open>JOther\<close> number or string is not kept.  A handler runs to
  its end, or to its prompt, as one step of the host: the messages, answers and
  edits that VS Code could interleave with its awaited \<open>applyEdit\<close> and \<open>save\<close> are
  not modelled.  The oldest \<open>moveCard\<close> given an empty source column, where
  \<open>splice(-1, 1)\<close> returns no card and JavaScript pushes \<open>undefined\<close>, is an error
  of the model (\<open>Legacy\<close>).  A second prompting message while a prompt is open (VS Code's
  handling of two input boxes) is not modelled.  An argument of \<open>openPreview\<close> that is
  not a \<open>Uri\<close> is not modelled.  VS Code itself is not modelled beyond the registry of
  \<open>Activate\<close>: \<open>findFiles\<close> and \<open>asRelativePath\<close> are host I/O (the file list is a
  parameter of \<open>getChildren\<close>), except the pattern they match (\<open>board_glob\<close>).  The
  CSS and the drag-over highlighting change no state and are not modelled; in
  \<open>Scroll\<close>, pointer coordinates and scroll offsets are integers (CSS pixels), and the
  board's offset and scroll range stay fixed during a run.
\<close>

end
